(* ===== verification/Prelude.thy ===== *)
theory Prelude
  imports Main "HOL-Library.Word" "HOL-Library.FSet" "HOL-Library.Finite_Map"
begin

text \<open>
  Shared vocabulary of the development: the machine integers and containers of the Rust
  standard library the sources use, fallible stateful computations, and the lemmas on finite
  maps and sorted association lists that the components rely on.

  \<^item> \<open>u8\<close>, \<open>u16\<close>, \<open>u32\<close>, \<open>u64\<close> are words of that width, \<open>bytes\<close> is \<open>Vec<u8>\<close>.
  \<^item> a \<open>HashMap\<close> or \<open>DashMap\<close> is an \<open>fmap\<close>, a \<open>HashSet\<close> or \<open>BTreeSet\<close> is an \<open>fset\<close>: both
    are finite and extensional, as in Rust. A \<open>BTreeMap\<close> is an \<open>fmap\<close> read in key order.
  \<^item> \<open>('w, 'e, 'a) io\<close> is an \<open>async fn\<close> that returns \<open>Result<'a, 'e>\<close> and changes a state \<open>'w\<close>.
\<close>

section \<open>Integers, bytes, time\<close>

type_synonym u8 = "8 word"
type_synonym u16 = "16 word"
type_synonym u32 = "32 word"
type_synonym u64 = "64 word"
type_synonym bytes = "u8 list"

text \<open>
  \<open>std::time::Instant\<close> is a reading of a monotonic clock in nanoseconds; \<open>Instant::elapsed\<close>
  saturates at zero, as subtraction on \<open>nat\<close> does.
\<close>

type_synonym instant = nat

definition from_secs :: "nat \<Rightarrow> nat" where
  "from_secs n = n * 1000000000"

definition elapsed :: "instant \<Rightarrow> instant \<Rightarrow> nat" where
  "elapsed now t = now - t"

text \<open>The \<open>Display\<close> of an unsigned integer: its decimal digits.\<close>

definition display_digit :: "nat \<Rightarrow> char" where
  "display_digit d = char_of (48 + d)"

fun display_nat :: "nat \<Rightarrow> string" where
  "display_nat n = (if n < 10 then [display_digit n]
     else display_nat (n div 10) @ [display_digit (n mod 10)])"

declare display_nat.simps [simp del]

section \<open>Fallible stateful computations\<close>

type_synonym ('w, 'e, 'a) io = "'w \<Rightarrow> ('e + 'a) \<times> 'w"

named_theorems io_defs "definitions of the combinators on fallible stateful computations"

definition io_return :: "'a \<Rightarrow> ('w, 'e, 'a) io" where
  [io_defs]: "io_return a = (\<lambda>w. (Inr a, w))"

definition io_throw :: "'e \<Rightarrow> ('w, 'e, 'a) io" where
  [io_defs]: "io_throw e = (\<lambda>w. (Inl e, w))"

text \<open>\<open>io_bind m f\<close> is \<open>let a = m.await?; f(a)\<close>.\<close>

definition io_bind :: "('w, 'e, 'a) io \<Rightarrow> ('a \<Rightarrow> ('w, 'e, 'b) io) \<Rightarrow> ('w, 'e, 'b) io" where
  [io_defs]: "io_bind m f =
     (\<lambda>w. case m w of (Inl e, w') \<Rightarrow> (Inl e, w') | (Inr a, w') \<Rightarrow> f a w')"

text \<open>\<open>Result::map_err\<close> and \<open>Result::map\<close> after an \<open>await\<close>, and a pure \<open>Result\<close> in the middle.\<close>

definition io_map_err :: "('e \<Rightarrow> 'f) \<Rightarrow> ('w, 'e, 'a) io \<Rightarrow> ('w, 'f, 'a) io" where
  [io_defs]: "io_map_err g m = (\<lambda>w. case m w of (r, w') \<Rightarrow> (map_sum g id r, w'))"

definition io_map :: "('a \<Rightarrow> 'b) \<Rightarrow> ('w, 'e, 'a) io \<Rightarrow> ('w, 'e, 'b) io" where
  [io_defs]: "io_map g m = (\<lambda>w. case m w of (r, w') \<Rightarrow> (map_sum id g r, w'))"

definition io_result :: "'e + 'a \<Rightarrow> ('w, 'e, 'a) io" where
  [io_defs]: "io_result r = (\<lambda>w. (r, w))"

definition io_get :: "('w \<Rightarrow> 'a) \<Rightarrow> ('w, 'e, 'a) io" where
  [io_defs]: "io_get f = (\<lambda>w. (Inr (f w), w))"

lemma map_sum_eq_Inl: "map_sum f g x = Inl y \<longleftrightarrow> (\<exists>a. x = Inl a \<and> y = f a)"
  by (cases x) auto

lemma map_sum_eq_Inr: "map_sum f g x = Inr y \<longleftrightarrow> (\<exists>b. x = Inr b \<and> y = g b)"
  by (cases x) auto

lemmas map_sum_eqs = map_sum_eq_Inl map_sum_eq_Inr

lemma io_bind_Inr: "io_bind m f w = (Inr b, w'') \<longleftrightarrow> (\<exists>a w'. m w = (Inr a, w') \<and> f a w' = (Inr b, w''))"
  by (auto simp: io_bind_def split: prod.splits sum.splits)

lemma io_bind_Inl:
  "io_bind m f w = (Inl e, w'') \<longleftrightarrow>
     m w = (Inl e, w'') \<or> (\<exists>a w'. m w = (Inr a, w') \<and> f a w' = (Inl e, w''))"
  by (auto simp: io_bind_def split: prod.splits sum.splits)

lemma io_map_err_Inl: "io_map_err g m w = (Inl e, w') \<longleftrightarrow> (\<exists>a. m w = (Inl a, w') \<and> e = g a)"
  by (auto simp: io_map_err_def map_sum_eqs split: prod.splits)

lemma io_map_err_Inr: "io_map_err g m w = (Inr b, w') \<longleftrightarrow> m w = (Inr b, w')"
  by (auto simp: io_map_err_def map_sum_eqs split: prod.splits)

lemma io_result_eq: "io_result r w = (r', w') \<longleftrightarrow> r = r' \<and> w' = w"
  by (auto simp: io_result_def)

lemmas io_inversion = io_bind_Inr io_bind_Inl io_map_err_Inl io_map_err_Inr io_result_eq map_sum_eqs

lemma io_bind_assoc: "io_bind (io_bind m f) g = io_bind m (\<lambda>a. io_bind (f a) g)"
  by (rule ext) (auto simp: io_bind_def split: prod.splits sum.splits)

lemma io_bind_return [simp]: "io_bind (io_return a) f = f a"
  by (simp add: io_defs)

lemma io_bind_throw [simp]: "io_bind (io_throw e) f = io_throw e"
  by (simp add: io_defs)

text \<open>
  A computation that may never complete: \<open>None\<close> is an \<open>async fn\<close> whose future is never ready.
\<close>

type_synonym ('w, 'e, 'a) aio = "'w \<Rightarrow> (('e + 'a) \<times> 'w) option"

definition aio_lift :: "('w, 'e, 'a) io \<Rightarrow> ('w, 'e, 'a) aio" where
  [io_defs]: "aio_lift m = (\<lambda>w. Some (m w))"

definition aio_bind :: "('w, 'e, 'a) aio \<Rightarrow> ('a \<Rightarrow> ('w, 'e, 'b) aio) \<Rightarrow> ('w, 'e, 'b) aio" where
  [io_defs]: "aio_bind m f = (\<lambda>w. case m w of
       None \<Rightarrow> None
     | Some (Inl e, w') \<Rightarrow> Some (Inl e, w')
     | Some (Inr a, w') \<Rightarrow> f a w')"

definition aio_result :: "'e + 'a \<Rightarrow> ('w, 'e, 'a) aio" where
  [io_defs]: "aio_result r = (\<lambda>w. Some (r, w))"

lemma aio_bind_Some:
  "aio_bind m f w = Some (r, w'') \<longleftrightarrow>
     (\<exists>e. m w = Some (Inl e, w'') \<and> r = Inl e) \<or>
     (\<exists>a w'. m w = Some (Inr a, w') \<and> f a w' = Some (r, w''))"
  by (auto simp: aio_bind_def split: option.splits prod.splits sum.splits)

lemma aio_bind_lift: "aio_bind (aio_lift m) f w =
    (case m w of (Inl e, w') \<Rightarrow> Some (Inl e, w') | (Inr a, w') \<Rightarrow> f a w')"
  by (simp add: io_defs split: prod.split sum.split)

text \<open>\<open>Option<Result<..>>::transpose\<close> and the \<open>collect\<close> of an iterator of results.\<close>

fun transpose_result :: "('e + 'a) option \<Rightarrow> 'e + 'a option" where
  "transpose_result None = Inr None"
| "transpose_result (Some (Inl e)) = Inl e"
| "transpose_result (Some (Inr a)) = Inr (Some a)"

fun collect_results :: "('e + 'a) list \<Rightarrow> 'e + 'a list" where
  "collect_results [] = Inr []"
| "collect_results (Inl e # _) = Inl e"
| "collect_results (Inr a # rs) = (case collect_results rs of Inl e \<Rightarrow> Inl e | Inr as \<Rightarrow> Inr (a # as))"

definition unwrap_or :: "'a \<Rightarrow> 'a option \<Rightarrow> 'a" where
  "unwrap_or d x = (case x of None \<Rightarrow> d | Some a \<Rightarrow> a)"

lemma unwrap_or_simps [simp]: "unwrap_or d None = d" "unwrap_or d (Some a) = a"
  by (simp_all add: unwrap_or_def)

lemma transpose_result_Inr [simp]:
  "transpose_result (map_option (\<lambda>x. Inr (f x)) y) = Inr (map_option f y)"
  by (cases y) simp_all

lemma collect_results_Inr [simp]: "collect_results (map (\<lambda>x. Inr (f x)) xs) = Inr (map f xs)"
  by (induction xs) simp_all

lemma collect_results_Inl_iff: "(\<exists>e. collect_results rs = Inl e) \<longleftrightarrow> (\<exists>e. Inl e \<in> set rs)"
  by (induction rs rule: collect_results.induct) (auto split: sum.splits)

section \<open>Runs\<close>

text \<open>A sequence of operations, each with an output, and the lemma that a functional simulation
  of one operation gives the same outputs for the whole run.\<close>

fun run_steps :: "('op \<Rightarrow> 's \<Rightarrow> 'out \<times> 's) \<Rightarrow> 'op list \<Rightarrow> 's \<Rightarrow> 'out list \<times> 's" where
  "run_steps step [] s = ([], s)"
| "run_steps step (x # xs) s =
     (case step x s of (out, s') \<Rightarrow> (case run_steps step xs s' of (outs, s'') \<Rightarrow> (out # outs, s'')))"

lemma run_steps_map: "run_steps (step \<circ> f) xs s = run_steps step (map f xs) s"
  by (induction xs arbitrary: s) (simp_all split: prod.split)

lemma run_steps_simulation:
  assumes "\<And>x s. step' x (f s) = apsnd f (step x s)"
  shows "run_steps step' xs (f s) = apsnd f (run_steps step xs s)"
  by (induction xs arbitrary: s) (auto simp: assms split: prod.splits)

text \<open>A run of operations: it succeeds when every operation completes without an error.\<close>

fun run_ok :: "('op \<Rightarrow> ('w, 'e, 'a) aio) \<Rightarrow> 'op list \<Rightarrow> 'w \<Rightarrow> ('a list \<times> 'w) option" where
  "run_ok exec [] w = Some ([], w)"
| "run_ok exec (x # xs) w =
     (case exec x w of
        Some (Inr a, w') \<Rightarrow> map_option (apfst (Cons a)) (run_ok exec xs w')
      | _ \<Rightarrow> None)"

lemma run_ok_refines:
  assumes "ok w"
    and "\<forall>x \<in> set xs. \<forall>w. ok w \<longrightarrow> (\<exists>out w'. exec x w = Some (Inr out, w') \<and> ok w' \<and> good out \<and>
      step x (view w) = (obs out, view w'))"
  shows "\<exists>outs w'. run_ok exec xs w = Some (outs, w') \<and> ok w' \<and> list_all good outs \<and>
    run_steps step xs (view w) = (map obs outs, view w')"
  using assms
proof (induction xs arbitrary: w)
  case (Cons x xs)
  then obtain out w1 where x: "exec x w = Some (Inr out, w1)" "ok w1" "good out" "step x (view w) = (obs out, view w1)"
    by (meson list.set_intros(1))
  obtain outs w' where "run_ok exec xs w1 = Some (outs, w')" "ok w'" "list_all good outs"
    "run_steps step xs (view w1) = (map obs outs, view w')"
    using Cons.IH [OF x(2)] Cons.prems(2) by auto
  with x show ?case by simp
qed simp

section \<open>Hash maps\<close>

text \<open>\<open>map.entry(k).or_default()\<close>: the value at \<open>k\<close>, or the given default.\<close>

definition entry_or :: "'v \<Rightarrow> ('k, 'v) fmap \<Rightarrow> 'k \<Rightarrow> 'v" where
  "entry_or d m k = unwrap_or d (fmlookup m k)"

lemma entry_or_upd [simp]:
  "entry_or d (fmupd k v m) k' = (if k = k' then v else entry_or d m k')"
  by (simp add: entry_or_def)

lemma entry_or_empty [simp]: "entry_or d fmempty k = d"
  by (simp add: entry_or_def)

lemma entry_or_Some: "fmlookup m k = Some v \<Longrightarrow> entry_or d m k = v"
  by (simp add: entry_or_def)

lemma entry_or_None: "fmlookup m k = None \<Longrightarrow> entry_or d m k = d"
  by (simp add: entry_or_def)

definition fm_len :: "('k, 'v) fmap \<Rightarrow> nat" where
  "fm_len m = fcard (fmdom m)"

lemma fm_len_empty [simp]: "fm_len fmempty = 0"
  by (simp add: fm_len_def fcard_fempty)

lemma fm_len_upd [simp]:
  "fm_len (fmupd k v m) = (if fmlookup m k = None then Suc (fm_len m) else fm_len m)"
  by (auto simp: fm_len_def fcard_finsert_if fmlookup_dom_iff)

lemma fm_len_drop [simp]:
  "fm_len (fmdrop k m) = (if fmlookup m k = None then fm_len m else fm_len m - 1)"
  by (auto simp: fm_len_def fcard_fminus_fsingleton_if fmlookup_dom_iff)

lemma fmdom_empty_iff [simp]: "fmdom m = {||} \<longleftrightarrow> m = fmempty"
  by (auto intro!: fmap_ext fmdom_notD)

lemma fm_len_0_iff [simp]: "fm_len m = 0 \<longleftrightarrow> m = fmempty"
  by (simp add: fm_len_def)

section \<open>Ordered maps\<close>

text \<open>
  A range query on a \<open>BTreeMap\<close>. The documentation of \<open>BTreeMap::range\<close> says it panics when
  the start is above the end, or equal to it with both bounds excluded.
\<close>

datatype 'a bound = Included 'a | Excluded 'a | Unbounded

fun start_ok :: "'a::linorder bound \<Rightarrow> 'a \<Rightarrow> bool" where
  "start_ok (Included a) k = (a \<le> k)"
| "start_ok (Excluded a) k = (a < k)"
| "start_ok Unbounded k = True"

fun end_ok :: "'a::linorder bound \<Rightarrow> 'a \<Rightarrow> bool" where
  "end_ok (Included b) k = (k \<le> b)"
| "end_ok (Excluded b) k = (k < b)"
| "end_ok Unbounded k = True"

fun range_panics :: "'a::linorder bound \<Rightarrow> 'a bound \<Rightarrow> bool" where
  "range_panics (Included a) (Included b) = (b < a)"
| "range_panics (Included a) (Excluded b) = (b < a)"
| "range_panics (Excluded a) (Included b) = (b < a)"
| "range_panics (Excluded a) (Excluded b) = (b \<le> a)"
| "range_panics _ _ = False"

definition btree_range :: "'k::linorder bound \<Rightarrow> 'k bound \<Rightarrow> ('k, 'v) fmap \<Rightarrow> ('k \<times> 'v) list" where
  "btree_range lo hi m = filter (\<lambda>(k, _). start_ok lo k \<and> end_ok hi k) (sorted_list_of_fmap m)"

text \<open>\<open>for key in keys { map.remove(&key); }\<close>\<close>

definition remove_all :: "'k list \<Rightarrow> ('k, 'v) fmap \<Rightarrow> ('k, 'v) fmap" where
  "remove_all ks m = fold fmdrop ks m"

lemma sorted_list_of_fset_strict [simp]: "sorted_wrt (<) (sorted_list_of_fset S)"
  by (simp add: sorted_list_of_fset.rep_eq)

lemma fst_sorted_list_of_fmap: "map fst (sorted_list_of_fmap m) = sorted_list_of_fset (fmdom m)"
  by (simp add: sorted_list_of_fmap_def comp_def)

lemma fmlookup_remove_all [simp]:
  "fmlookup (remove_all ks m) k = (if k \<in> set ks then None else fmlookup m k)"
  by (induction ks arbitrary: m) (auto simp: remove_all_def)

lemma set_sorted_list_of_fmap: "(k, v) \<in> set (sorted_list_of_fmap m) \<longleftrightarrow> fmlookup m k = Some v"
  by (auto simp: sorted_list_of_fmap_def image_iff fmdom'_alt_def[symmetric] fmlookup_dom'_iff)

lemma strict_sorted_keys: "sorted_wrt (<) (map fst (sorted_list_of_fmap m))"
  by (simp add: fst_sorted_list_of_fmap)

lemma sorted_assoc_unique:
  fixes xs ys :: "('k::linorder \<times> 'v) list"
  assumes "sorted_wrt (<) (map fst xs)" "sorted_wrt (<) (map fst ys)" "set xs = set ys"
  shows "xs = ys"
proof -
  have inj: "inj_on fst (set xs \<union> set ys)"
    using assms by (simp add: strict_sorted_iff distinct_map)
  have "map fst xs = map fst ys"
    using assms by (intro strict_sorted_equal) simp_all
  then show ?thesis
    using inj by (rule map_inj_on)
qed

text \<open>Any strictly sorted association list with the right lookups is the map's iteration order.\<close>

lemma sorted_list_of_fmap_eqI:
  assumes "sorted_wrt (<) (map fst xs)"
    and "\<And>k v. (k, v) \<in> set xs \<longleftrightarrow> fmlookup m k = Some v"
  shows "sorted_list_of_fmap m = xs"
proof (rule sorted_assoc_unique[OF strict_sorted_keys assms(1)])
  show "set (sorted_list_of_fmap m) = set xs"
    using assms(2) set_sorted_list_of_fmap by (metis subrelI subset_antisym)
qed

lemma sorted_wrt_map_filter:
  "sorted_wrt R (map f xs) \<Longrightarrow> sorted_wrt R (map f (filter P xs))"
  by (induction xs) auto

lemma map_snd_filter:
  "(\<And>k v. (k, v) \<in> set xs \<Longrightarrow> P k = Q v) \<Longrightarrow>
     map snd (filter (\<lambda>(k, _). P k) xs) = filter Q (map snd xs)"
proof (induction xs)
  case (Cons x xs)
  have "P (fst x) = Q (snd x)" using Cons.prems [of "fst x" "snd x"] by simp
  moreover have "map snd (filter (\<lambda>(k, _). P k) xs) = filter Q (map snd xs)"
    using Cons.prems by (intro Cons.IH) simp
  ultimately show ?case by (cases x) simp
qed simp

lemma sorted_list_of_fmap_filter:
  "sorted_list_of_fmap (fmfilter P m) = filter (\<lambda>(k, _). P k) (sorted_list_of_fmap m)"
  by (rule sorted_list_of_fmap_eqI)
    (auto simp: set_sorted_list_of_fmap intro: sorted_wrt_map_filter strict_sorted_keys)

lemma sorted_list_of_fmap_snoc:
  assumes "\<And>k'. k' |\<in>| fmdom m \<Longrightarrow> k' < k"
  shows "sorted_list_of_fmap (fmupd k v m) = sorted_list_of_fmap m @ [(k, v)]"
proof (rule sorted_list_of_fmap_eqI)
  show "sorted_wrt (<) (map fst (sorted_list_of_fmap m @ [(k, v)]))"
    using assms by (simp add: sorted_wrt_append strict_sorted_keys fst_sorted_list_of_fmap)
next
  have "fmlookup m k = None" using assms[of k] by (auto intro!: fmdom_notD)
  then show "(k', v') \<in> set (sorted_list_of_fmap m @ [(k, v)]) \<longleftrightarrow>
      fmlookup (fmupd k v m) k' = Some v'" for k' v'
    by (auto simp: set_sorted_list_of_fmap)
qed

lemma remove_all_range:
  "remove_all (map fst (btree_range lo hi m)) m = fmfilter (\<lambda>k. \<not> (start_ok lo k \<and> end_ok hi k)) m"
proof (rule fmap_ext)
  fix k
  have "k \<in> fst ` set (btree_range lo hi m) \<longleftrightarrow> start_ok lo k \<and> end_ok hi k \<and> fmlookup m k \<noteq> None"
    by (force simp: btree_range_def set_sorted_list_of_fmap image_iff)
  then show "fmlookup (remove_all (map fst (btree_range lo hi m)) m) k =
      fmlookup (fmfilter (\<lambda>k. \<not> (start_ok lo k \<and> end_ok hi k)) m) k"
    by auto
qed

lemma sorted_list_of_fmap_empty [simp]: "sorted_list_of_fmap fmempty = []"
  by (rule sorted_list_of_fmap_eqI) simp_all

section \<open>Decimal display\<close>

lemma display_nat_digits: "c \<in> set (display_nat n) \<Longrightarrow> \<exists>d < 10. c = display_digit d"
proof (induction n rule: display_nat.induct)
  case (1 n)
  show ?case
  proof (cases "n < 10")
    case True
    with "1.prems" show ?thesis by (auto simp: display_nat.simps [of n])
  next
    case False
    with "1.prems" have "c \<in> set (display_nat (n div 10)) \<or> c = display_digit (n mod 10)"
      by (auto simp: display_nat.simps [of n])
    with False "1.IH" show ?thesis by (auto intro: exI [of _ "n mod 10"])
  qed
qed

lemma display_digit_inject: "d < 10 \<Longrightarrow> d' < 10 \<Longrightarrow> display_digit d = display_digit d' \<longleftrightarrow> d = d'"
proof -
  assume "d < 10" "d' < 10"
  then have "of_char (display_digit d) = 48 + d" "of_char (display_digit d') = 48 + d'"
    by (simp_all add: display_digit_def)
  then show ?thesis by (metis add_left_cancel)
qed

lemma display_nat_no_dash: "CHR ''-'' \<notin> set (display_nat n)"
proof
  assume "CHR ''-'' \<in> set (display_nat n)"
  then obtain d :: nat where "d < 10" "CHR ''-'' = display_digit d"
    using display_nat_digits by blast
  then have "of_char CHR ''-'' = 48 + d"
    by (simp add: display_digit_def)
  then show False by simp
qed

lemma display_nat_inject: "display_nat m = display_nat n \<longleftrightarrow> m = n"
proof
  show "display_nat m = display_nat n \<Longrightarrow> m = n"
  proof (induction m arbitrary: n rule: display_nat.induct)
    case (1 m)
    have ne: "display_nat k \<noteq> []" "[] \<noteq> display_nat k" for k
      by (simp_all add: display_nat.simps [of k])
    show ?case
    proof (cases "m < 10")
      case True
      with "1.prems" have "n < 10"
        using ne by (auto simp: display_nat.simps [of m] display_nat.simps [of n] append_eq_Cons_conv
            split: if_splits)
      with True "1.prems" show ?thesis
        by (simp add: display_nat.simps [of m] display_nat.simps [of n] display_digit_inject)
    next
      case False
      with "1.prems" have n: "\<not> n < 10"
        using ne by (auto simp: display_nat.simps [of m] display_nat.simps [of n] Cons_eq_append_conv
            split: if_splits)
      with False "1.prems" have "display_nat (m div 10) = display_nat (n div 10)" "m mod 10 = n mod 10"
        by (auto simp: display_nat.simps [of m] display_nat.simps [of n] display_digit_inject)
      with False "1.IH" show ?thesis by (metis div_mult_mod_eq)
    qed
  qed
qed simp

lemma append_Cons_eq_dash:
  assumes "xs @ c # as = ys @ c # bs" "c \<notin> set xs" "c \<notin> set ys"
  shows "xs = ys \<and> as = bs"
  using assms by (induction xs arbitrary: ys) (auto simp: Cons_eq_append_conv)

lemma split_last_dash:
  assumes "xs @ CHR ''-'' # display_nat m = ys @ CHR ''-'' # display_nat n"
  shows "xs = ys \<and> m = n"
proof -
  have "rev (display_nat m) @ CHR ''-'' # rev xs = rev (display_nat n) @ CHR ''-'' # rev ys"
    using arg_cong [OF assms, of rev] by simp
  moreover have "CHR ''-'' \<notin> set (rev (display_nat k))" for k
    by (simp add: display_nat_no_dash)
  ultimately have "rev (display_nat m) = rev (display_nat n) \<and> rev xs = rev ys"
    by (meson append_Cons_eq_dash)
  then show ?thesis by (simp add: display_nat_inject)
qed

end
