(* ===== verification/Raft_Types.thy ===== *)
theory Raft_Types
  imports Prelude
begin

text \<open>
  The data that the components exchange: node identities (\<open>raft/node.rs\<close>), replicated requests
  and responses (\<open>raft/mod.rs\<close>), the public part of the openraft types the sources inspect, and
  the error types (\<open>error.rs\<close>).

  Values of third-party types that the sources only pass on (an append-entries message, a fatal
  raft error, a QUIC error) are tokens: the sources never look inside them, so all that matters
  is which value it is.
\<close>

type_synonym token = nat

section \<open>Addresses and nodes (raft/node.rs)\<close>

text \<open>The identifier of a node is a ULID, a 128-bit number.\<close>

type_synonym NodeId = "128 word"

datatype IpAddr = V4 u8 u8 u8 u8 | V6 "128 word"

text \<open>
  \<open>std::net::SocketAddr\<close>: an IPv6 socket address also has a flow label and a scope id, which
  \<open>SocketAddr::new\<close> sets to zero and which take part in the comparison of addresses.
\<close>

datatype SocketAddr = SocketAddr (ip: IpAddr) (port: u16) (flowinfo: u32) (scope_id: u32)

definition SocketAddr_new :: "IpAddr \<Rightarrow> u16 \<Rightarrow> SocketAddr" where
  "SocketAddr_new i p = SocketAddr i p 0 0"

record Node =
  node_addr :: SocketAddr
  node_server_name :: string

definition Node_new :: "SocketAddr \<Rightarrow> string \<Rightarrow> Node" where
  "Node_new addr server_name = \<lparr>node_addr = addr, node_server_name = server_name\<rparr>"

definition Node_default :: Node where
  "Node_default = \<lparr>node_addr = SocketAddr_new (V4 0 0 0 0) 0, node_server_name = ''localhost''\<rparr>"

text \<open>\<open>Display for Node\<close>; the display of a socket address is a parameter.\<close>

definition Node_fmt :: "(SocketAddr \<Rightarrow> string) \<Rightarrow> Node \<Rightarrow> string" where
  "Node_fmt show_addr n = node_server_name n @ ''/'' @ show_addr (node_addr n)"

section \<open>Log positions\<close>

text \<open>
  openraft orders leader ids by term and then node, and log ids by leader and then index.
\<close>

datatype LeaderId = LeaderId (leader_term: u64) (leader_node: NodeId)

datatype LogId = LogId (leader_id: LeaderId) (index: u64)

instantiation LeaderId :: linorder
begin

definition less_eq_LeaderId :: "LeaderId \<Rightarrow> LeaderId \<Rightarrow> bool" where
  "less_eq_LeaderId a b \<longleftrightarrow> leader_term a < leader_term b \<or> leader_term a = leader_term b \<and> leader_node a \<le> leader_node b"

definition less_LeaderId :: "LeaderId \<Rightarrow> LeaderId \<Rightarrow> bool" where
  "less_LeaderId a b \<longleftrightarrow> leader_term a < leader_term b \<or> leader_term a = leader_term b \<and> leader_node a < leader_node b"

instance
  by standard (auto simp: less_eq_LeaderId_def less_LeaderId_def intro: LeaderId.expand)

end

instantiation LogId :: linorder
begin

definition less_eq_LogId :: "LogId \<Rightarrow> LogId \<Rightarrow> bool" where
  "less_eq_LogId a b \<longleftrightarrow> leader_id a < leader_id b \<or> leader_id a = leader_id b \<and> index a \<le> index b"

definition less_LogId :: "LogId \<Rightarrow> LogId \<Rightarrow> bool" where
  "less_LogId a b \<longleftrightarrow> leader_id a < leader_id b \<or> leader_id a = leader_id b \<and> index a < index b"

instance
  by standard (auto simp: less_eq_LogId_def less_LogId_def intro: LogId.expand)

end

record Vote =
  vote_leader_id :: LeaderId
  vote_committed :: bool

section \<open>Membership\<close>

text \<open>
  A membership is given by what openraft lets the sources observe of it: its joint
  configuration, the iterators over voters and learners, and the nodes by identifier.
\<close>

record Membership =
  joint_config :: "NodeId fset list"
  voter_ids :: "NodeId list"
  learner_ids :: "NodeId list"
  mem_nodes :: "(NodeId \<times> Node) list"

definition get_node :: "Membership \<Rightarrow> NodeId \<Rightarrow> Node option" where
  "get_node m i = map_of (mem_nodes m) i"

record StoredMembership =
  membership_log_id :: "LogId option"
  membership :: Membership

definition Membership_default :: Membership where
  "Membership_default = \<lparr>joint_config = [], voter_ids = [], learner_ids = [], mem_nodes = []\<rparr>"

definition StoredMembership_default :: StoredMembership where
  "StoredMembership_default = \<lparr>membership_log_id = None, membership = Membership_default\<rparr>"

text \<open>
  What openraft documents of a membership: each voter and each learner is listed once, no node
  is both, and each of them has a node record.
\<close>

definition membership_ok :: "Membership \<Rightarrow> bool" where
  "membership_ok m \<longleftrightarrow> distinct (voter_ids m) \<and> distinct (learner_ids m) \<and>
     set (voter_ids m) \<inter> set (learner_ids m) = {} \<and>
     (\<forall>i \<in> set (voter_ids m) \<union> set (learner_ids m). get_node m i \<noteq> None)"

datatype ChangeMembers =
    AddVoterIds "NodeId fset" | AddVoters "(NodeId, Node) fmap"
  | RemoveVoters "NodeId fset" | ReplaceAllVoters "NodeId fset"
  | AddNodes "(NodeId, Node) fmap" | SetNodes "(NodeId, Node) fmap"
  | RemoveNodes "NodeId fset" | ReplaceAllNodes "(NodeId, Node) fmap"

datatype ServerState = Learner | Follower | Candidate | Leader | Shutdown

record RaftMetrics =
  metrics_id :: NodeId
  metrics_state :: ServerState
  metrics_current_leader :: "NodeId option"
  metrics_membership_config :: StoredMembership

section \<open>Replicated requests and log entries (raft/mod.rs)\<close>

datatype RaftRequest =
    RaftInsert (raft_map: string) (raft_key: bytes) (raft_value: bytes)
  | RaftInsertMulti (raft_multi_map: string) (raft_key: bytes) (raft_value: bytes)
  | RaftClear (raft_map: string)

datatype RaftResponse =
    RespInsert "bytes option"
  | RespInsertMulti bool
  | RespClear
  | RespNoop

datatype EntryPayload = Blank | Normal RaftRequest | MembershipChange Membership

record Entry =
  log_id :: LogId
  payload :: EntryPayload

abbreviation entry_index :: "Entry \<Rightarrow> u64" where
  "entry_index e \<equiv> index (log_id e)"

record ClientWriteResponse =
  cw_log_id :: LogId
  cw_data :: RaftResponse
  cw_membership :: "Membership option"

section \<open>Errors (error.rs)\<close>

text \<open>The parts of openraft's errors the sources match on.\<close>

record ForwardToLeader =
  ftl_leader_id :: "NodeId option"
  ftl_leader_node :: "Node option"

datatype ClientWriteError = CW_ForwardToLeader ForwardToLeader | CW_ChangeMembershipError token

datatype CheckIsLeaderError = CL_ForwardToLeader ForwardToLeader | CL_QuorumNotEnough token

datatype 'e RaftError = APIError 'e | Fatal token

text \<open>\<open>RaftError<NodeId>\<close> has no API error (\<open>Infallible\<close>), so it is always fatal.\<close>

datatype RaftFatal = RaftFatal token

fun forward_to_leader :: "ClientWriteError RaftError \<Rightarrow> ForwardToLeader option" where
  "forward_to_leader (APIError (CW_ForwardToLeader f)) = Some f"
| "forward_to_leader _ = None"

text \<open>QUIC errors (quinn) and serialization errors (postcard).\<close>

datatype ConnectionError =
    VersionMismatch | TransportErr token | ConnectionClosed token | ApplicationClosed token
  | Reset | TimedOut | LocallyClosed | CidsExhausted

type_synonym ConnectError = token
type_synonym WriteError = token
type_synonym ReadToEndError = token
type_synonym PostcardError = token

datatype TransportError =
    TE_Connect ConnectError | TE_Connection ConnectionError
  | TE_Write WriteError | TE_Read ReadToEndError

datatype ProtocolError = DeserializeResponse PostcardError | UnknownResponse

datatype RemoteError =
    RE_RaftWrite "ClientWriteError RaftError"
  | RE_RaftCheckIsLeader "CheckIsLeaderError RaftError"
  | RE_Raft RaftFatal
  | RE_NodeExists (exists_id: NodeId) (exists_addr: SocketAddr)
  | RE_InvalidNode (target_id: NodeId) (actual_id: NodeId)

datatype Error =
    Err_Transport TransportError
  | Err_Protocol ProtocolError
  | Err_Remote RemoteError
  | Err_LeaderNotFound
  | Err_Serialization PostcardError
  | Err_Raft RaftFatal
  | Err_RaftCheckIsLeader "CheckIsLeaderError RaftError"

text \<open>
  Storage errors of openraft: reading a snapshot fails with the signature of the snapshot,
  reading the state machine without one.
\<close>

record SnapshotMeta =
  last_log_id :: "LogId option"
  meta_last_membership :: StoredMembership
  snapshot_id :: string

record SnapshotSignature =
  sig_last_log_id :: "LogId option"
  sig_last_membership_log_id :: "LogId option"
  sig_snapshot_id :: string

definition signature :: "SnapshotMeta \<Rightarrow> SnapshotSignature" where
  "signature m = \<lparr>sig_last_log_id = last_log_id m,
     sig_last_membership_log_id = membership_log_id (meta_last_membership m),
     sig_snapshot_id = snapshot_id m\<rparr>"

datatype StorageError =
    ReadSnapshotError "SnapshotSignature option" PostcardError
  | ReadStateMachineError PostcardError

text \<open>Where the code panics.\<close>

datatype panic = Panic string

lemma membership_ok_default: "membership_ok Membership_default"
  by (simp add: membership_ok_def Membership_default_def)

lemma forward_to_leader_Some:
  "forward_to_leader e = Some f \<longleftrightarrow> e = APIError (CW_ForwardToLeader f)"
  by (cases "e" rule: forward_to_leader.cases) auto

end
