(* ===== verification/Log_Storage.thy ===== *)
theory Log_Storage
  imports Raft_Types
begin

text \<open>
  The Raft log (\<open>raft/log.rs\<close>): an in-memory \<open>BTreeMap\<close> from log index to entry, with the last
  purged log id, the committed log id and the vote.

  \<open>LogStorageInner\<close> and its methods come first, then \<open>LogStorage\<close>, a shared handle
  (\<open>Arc<RwLock<..>>\<close>) on it. The locale \<open>raft_log_store\<close> is the contract of a Raft log; it is
  interpreted on \<open>LogStorageInner\<close>. A log is abstracted to the list of its entries in index
  order (\<open>log_view\<close>).
\<close>

section \<open>LogStorageInner\<close>

record LogStorageInner =
  last_purged_log_id :: "LogId option"
  ls_log :: "(u64, Entry) fmap"
  committed :: "LogId option"
  ls_vote :: "Vote option"

record LogState =
  state_last_purged_log_id :: "LogId option"
  state_last_log_id :: "LogId option"

definition LogStorageInner_default :: LogStorageInner where
  "LogStorageInner_default =
     \<lparr>last_purged_log_id = None, ls_log = fmempty, committed = None, ls_vote = None\<rparr>"

definition next_back :: "'a list \<Rightarrow> 'a option" where
  "next_back xs = (if xs = [] then None else Some (last xs))"

definition get_log_state :: "LogStorageInner \<Rightarrow> StorageError + LogState" where
  "get_log_state s =
     (let purged = last_purged_log_id s;
          last_log_id =
            (case map_option (\<lambda>(_, ent). log_id ent) (next_back (sorted_list_of_fmap (ls_log s))) of
               Some l \<Rightarrow> Some l
             | None \<Rightarrow> purged)
      in Inr \<lparr>state_last_purged_log_id = purged, state_last_log_id = last_log_id\<rparr>)"

definition save_committed :: "LogId option \<Rightarrow> (LogStorageInner, StorageError, unit) io" where
  "save_committed c s = (Inr (), s\<lparr>committed := c\<rparr>)"

definition read_committed :: "LogStorageInner \<Rightarrow> StorageError + LogId option" where
  "read_committed s = Inr (committed s)"

definition save_vote :: "Vote \<Rightarrow> (LogStorageInner, StorageError, unit) io" where
  "save_vote v s = (Inr (), s\<lparr>ls_vote := Some v\<rparr>)"

definition read_vote :: "LogStorageInner \<Rightarrow> StorageError + Vote option" where
  "read_vote s = Inr (ls_vote s)"

text \<open>The flush callback is a function on the caller's state \<open>'w\<close>.\<close>

definition insert_entry :: "Entry \<Rightarrow> (u64, Entry) fmap \<Rightarrow> (u64, Entry) fmap" where
  "insert_entry entry m = fmupd (entry_index entry) entry m"

definition log_append ::
  "Entry list \<Rightarrow> (token + unit \<Rightarrow> 'w \<Rightarrow> 'w) \<Rightarrow> (LogStorageInner \<times> 'w, StorageError, unit) io" where
  "log_append entries callback = (\<lambda>(s, w).
     (let s' = s\<lparr>ls_log := fold insert_entry entries (ls_log s)\<rparr>;
          w' = callback (Inr ()) w
      in (Inr (), (s', w'))))"

definition log_truncate :: "LogId \<Rightarrow> (LogStorageInner, StorageError, unit) io" where
  "log_truncate l s =
     (let keys = map fst (btree_range (Included (index l)) Unbounded (ls_log s))
      in (Inr (), s\<lparr>ls_log := remove_all keys (ls_log s)\<rparr>))"

definition log_purge :: "LogId \<Rightarrow> (LogStorageInner, StorageError, unit) io" where
  "log_purge l s =
     (let s' = s\<lparr>last_purged_log_id := Some l\<rparr>;
          keys = map fst (btree_range Unbounded (Included (index l)) (ls_log s'))
      in (Inr (), s'\<lparr>ls_log := remove_all keys (ls_log s')\<rparr>))"

definition try_get_log_entries ::
  "u64 bound \<Rightarrow> u64 bound \<Rightarrow> LogStorageInner \<Rightarrow> panic + (StorageError + Entry list)" where
  "try_get_log_entries lo hi s =
     (if range_panics lo hi then Inl (Panic ''range start is greater than range end in BTreeMap'')
      else Inr (Inr (map snd (btree_range lo hi (ls_log s)))))"

section \<open>LogStorage: a shared handle\<close>

text \<open>
  A handle is the address of the shared log; cloning it, or asking for a log reader, gives the
  same address. Every operation takes the lock, runs the inner operation and releases it.
\<close>

type_synonym arc = nat
type_synonym log_heap = "arc \<Rightarrow> LogStorageInner"

definition LogStorage_default :: "arc \<Rightarrow> log_heap \<Rightarrow> log_heap" where
  "LogStorage_default a h = h(a := LogStorageInner_default)"

definition locked :: "arc \<Rightarrow> (LogStorageInner, 'e, 'a) io \<Rightarrow> (log_heap, 'e, 'a) io" where
  "locked a f h = (case f (h a) of (r, s) \<Rightarrow> (r, h(a := s)))"

definition LogStorage_get_log_state :: "arc \<Rightarrow> log_heap \<Rightarrow> StorageError + LogState" where
  "LogStorage_get_log_state a h = get_log_state (h a)"

definition get_log_reader :: "arc \<Rightarrow> arc" where
  "get_log_reader a = a"

definition LogStorage_save_committed :: "arc \<Rightarrow> LogId option \<Rightarrow> (log_heap, StorageError, unit) io" where
  "LogStorage_save_committed a c = locked a (save_committed c)"

definition LogStorage_read_committed :: "arc \<Rightarrow> log_heap \<Rightarrow> StorageError + LogId option" where
  "LogStorage_read_committed a h = read_committed (h a)"

definition LogStorage_save_vote :: "arc \<Rightarrow> Vote \<Rightarrow> (log_heap, StorageError, unit) io" where
  "LogStorage_save_vote a v = locked a (save_vote v)"

definition LogStorage_read_vote :: "arc \<Rightarrow> log_heap \<Rightarrow> StorageError + Vote option" where
  "LogStorage_read_vote a h = read_vote (h a)"

definition LogStorage_append ::
  "arc \<Rightarrow> Entry list \<Rightarrow> (token + unit \<Rightarrow> 'w \<Rightarrow> 'w) \<Rightarrow> (log_heap \<times> 'w, StorageError, unit) io" where
  "LogStorage_append a entries callback = (\<lambda>(h, w).
     case log_append entries callback (h a, w) of (r, (s, w')) \<Rightarrow> (r, (h(a := s), w')))"

definition LogStorage_truncate :: "arc \<Rightarrow> LogId \<Rightarrow> (log_heap, StorageError, unit) io" where
  "LogStorage_truncate a l = locked a (log_truncate l)"

definition LogStorage_purge :: "arc \<Rightarrow> LogId \<Rightarrow> (log_heap, StorageError, unit) io" where
  "LogStorage_purge a l = locked a (log_purge l)"

definition LogStorage_try_get_log_entries ::
  "arc \<Rightarrow> u64 bound \<Rightarrow> u64 bound \<Rightarrow> log_heap \<Rightarrow> panic + (StorageError + Entry list)" where
  "LogStorage_try_get_log_entries a lo hi h = try_get_log_entries lo hi (h a)"

section \<open>The abstract log\<close>

definition log_view :: "LogStorageInner \<Rightarrow> Entry list" where
  "log_view s = map snd (sorted_list_of_fmap (ls_log s))"

text \<open>Every entry is stored under its own index.\<close>

definition log_wf :: "LogStorageInner \<Rightarrow> bool" where
  "log_wf s \<longleftrightarrow> fmpred (\<lambda>k e. k = entry_index e) (ls_log s)"

text \<open>Entries may be appended when their indices are increasing and above all present ones.\<close>

definition appendable :: "Entry list \<Rightarrow> Entry list \<Rightarrow> bool" where
  "appendable old new \<longleftrightarrow> sorted_wrt (<) (map entry_index new) \<and>
     (\<forall>e \<in> set old. \<forall>e' \<in> set new. entry_index e < entry_index e')"

fun contiguous :: "Entry list \<Rightarrow> bool" where
  "contiguous (e # f # es) = (unat (entry_index f) = Suc (unat (entry_index e)) \<and> contiguous (f # es))"
| "contiguous _ = True"

text \<open>
  The abstract log: what was purged, and the entries that remain. The operations are those of
  a list; \<open>alog_ok\<close> says when openraft may call them.
\<close>

record alog =
  a_purged :: "LogId option"
  a_entries :: "Entry list"

datatype log_op = LAppend "Entry list" | LTruncate LogId | LPurge LogId

fun alog_exec :: "log_op \<Rightarrow> alog \<Rightarrow> alog" where
  "alog_exec (LAppend es) a = a\<lparr>a_entries := a_entries a @ es\<rparr>"
| "alog_exec (LTruncate l) a = a\<lparr>a_entries := takeWhile (\<lambda>e. entry_index e < index l) (a_entries a)\<rparr>"
| "alog_exec (LPurge l) a =
     a\<lparr>a_purged := Some l, a_entries := dropWhile (\<lambda>e. entry_index e \<le> index l) (a_entries a)\<rparr>"

text \<open>The index of the last log, purged or not.\<close>

definition alog_last :: "alog \<Rightarrow> LogId option" where
  "alog_last a = (if a_entries a = [] then a_purged a else Some (log_id (last (a_entries a))))"

text \<open>There are no holes: neither between entries nor after the purged prefix.\<close>

definition alog_wf :: "alog \<Rightarrow> bool" where
  "alog_wf a \<longleftrightarrow> contiguous (a_entries a) \<and>
     (\<forall>p. a_purged a = Some p \<longrightarrow> a_entries a \<noteq> [] \<longrightarrow>
        unat (entry_index (hd (a_entries a))) = Suc (unat (index p)))"

fun alog_ok :: "log_op \<Rightarrow> alog \<Rightarrow> bool" where
  "alog_ok (LAppend es) a = (contiguous es \<and>
     (\<forall>l. alog_last a = Some l \<longrightarrow> es \<noteq> [] \<longrightarrow> unat (entry_index (hd es)) = Suc (unat (index l))))"
| "alog_ok (LTruncate l) a = True"
| "alog_ok (LPurge l) a =
     (a_entries a \<noteq> [] \<longrightarrow> unat (entry_index (hd (a_entries a))) \<le> Suc (unat (index l)))"

text \<open>A run of operations on the real log and on the abstract one.\<close>

fun log_exec :: "log_op \<Rightarrow> LogStorageInner \<Rightarrow> LogStorageInner" where
  "log_exec (LAppend es) s = fst (snd (log_append es (\<lambda>_ w. w) (s, ())))"
| "log_exec (LTruncate l) s = snd (log_truncate l s)"
| "log_exec (LPurge l) s = snd (log_purge l s)"

fun alog_run_ok :: "log_op list \<Rightarrow> alog \<Rightarrow> bool" where
  "alog_run_ok [] a = True"
| "alog_run_ok (op # ops) a = (alog_ok op a \<and> alog_run_ok ops (alog_exec op a))"

definition log_abs :: "LogStorageInner \<Rightarrow> alog" where
  "log_abs s = \<lparr>a_purged = last_purged_log_id s, a_entries = log_view s\<rparr>"

text \<open>An entry used in the concrete instances below.\<close>

definition blank_entry :: "u64 \<Rightarrow> Entry" where
  "blank_entry i = \<lparr>log_id = LogId (LeaderId 1 7) i, payload = Blank\<rparr>"

section \<open>Lists of entries without holes\<close>

lemma contiguous_Cons:
  "contiguous (e # es) \<longleftrightarrow>
     (es \<noteq> [] \<longrightarrow> unat (entry_index (hd es)) = Suc (unat (entry_index e))) \<and> contiguous es"
  by (cases es) auto

lemma contiguous_append:
  "contiguous (xs @ ys) \<longleftrightarrow> contiguous xs \<and> contiguous ys \<and>
     (xs \<noteq> [] \<longrightarrow> ys \<noteq> [] \<longrightarrow> unat (entry_index (hd ys)) = Suc (unat (entry_index (last xs))))"
  by (induction xs) (auto simp: contiguous_Cons hd_append)

lemma contiguous_index:
  "contiguous es \<Longrightarrow> i < length es \<Longrightarrow> unat (entry_index (es ! i)) = unat (entry_index (hd es)) + i"
proof (induction es arbitrary: i)
  case (Cons e es)
  then show ?case by (cases i; cases es) auto
qed simp

lemma contiguous_sorted: "contiguous es \<Longrightarrow> sorted_wrt (<) (map entry_index es)"
  unfolding sorted_wrt_iff_nth_less
  by (auto simp: word_less_nat_alt contiguous_index)

lemma contiguous_takeWhile: "contiguous es \<Longrightarrow> contiguous (takeWhile P es)"
  by (metis contiguous_append takeWhile_dropWhile_id)

lemma contiguous_dropWhile: "contiguous es \<Longrightarrow> contiguous (dropWhile P es)"
  by (metis contiguous_append takeWhile_dropWhile_id)

text \<open>On a sorted list, filtering by a threshold is cutting at it.\<close>

lemma filter_below_sorted:
  "sorted_wrt (<) (map entry_index es) \<Longrightarrow>
     filter (\<lambda>e. entry_index e < i) es = takeWhile (\<lambda>e. entry_index e < i) es"
proof (induction es)
  case (Cons e es)
  have "\<not> entry_index e < i \<Longrightarrow> filter (\<lambda>e. entry_index e < i) es = []"
    using Cons.prems by (force simp: filter_empty_conv)
  with Cons show ?case by auto
qed simp

lemma filter_above_sorted:
  "sorted_wrt (<) (map entry_index es) \<Longrightarrow>
     filter (\<lambda>e. \<not> entry_index e \<le> i) es = dropWhile (\<lambda>e. entry_index e \<le> i) es"
proof (induction es)
  case (Cons e es)
  have "\<not> entry_index e \<le> i \<Longrightarrow> filter (\<lambda>e. \<not> entry_index e \<le> i) es = es"
    using Cons.prems by (force simp: filter_id_conv)
  with Cons show ?case by auto
qed simp

lemma appendable_contiguous:
  assumes "contiguous old" "contiguous new"
    and "old \<noteq> [] \<Longrightarrow> new \<noteq> [] \<Longrightarrow> unat (entry_index (hd new)) = Suc (unat (entry_index (last old)))"
  shows "appendable old new"
proof -
  have "contiguous (old @ new)" using assms by (simp add: contiguous_append)
  then have "sorted_wrt (<) (map entry_index old @ map entry_index new)"
    using contiguous_sorted by fastforce
  then show ?thesis by (auto simp: appendable_def sorted_wrt_append)
qed

lemma alog_exec_wf: "alog_wf a \<Longrightarrow> alog_ok op a \<Longrightarrow> alog_wf (alog_exec op a)"
proof (cases op)
  case (LAppend es)
  assume "alog_wf a" "alog_ok op a"
  with LAppend show ?thesis
    by (cases "a_entries a = []") (auto simp: alog_wf_def alog_last_def contiguous_append)
next
  case (LTruncate l)
  assume "alog_wf a" "alog_ok op a"
  moreover have "takeWhile P xs \<noteq> [] \<Longrightarrow> xs \<noteq> [] \<and> hd (takeWhile P xs) = hd xs" for P and xs :: "Entry list"
    by (cases xs) auto
  ultimately show ?thesis
    using LTruncate by (auto simp: alog_wf_def contiguous_takeWhile)
next
  case (LPurge l)
  assume wf: "alog_wf a" and ok: "alog_ok op a"
  let ?E = "a_entries a" and ?P = "\<lambda>e. entry_index e \<le> index l"
  have "unat (entry_index (hd (dropWhile ?P ?E))) = Suc (unat (index l))" if ne: "dropWhile ?P ?E \<noteq> []"
  proof (cases "takeWhile ?P ?E = []")
    case True
    then have "dropWhile ?P ?E = ?E" by (metis append_Nil takeWhile_dropWhile_id)
    with ne ok LPurge hd_dropWhile [OF ne] show ?thesis
      by (auto simp: word_le_nat_alt)
  next
    case False
    have "contiguous (takeWhile ?P ?E @ dropWhile ?P ?E)" using wf by (simp add: alog_wf_def)
    with False ne have "unat (entry_index (hd (dropWhile ?P ?E))) =
        Suc (unat (entry_index (last (takeWhile ?P ?E))))"
      unfolding contiguous_append by blast
    moreover have "?P (last (takeWhile ?P ?E))"
      using False last_in_set set_takeWhileD by metis
    ultimately show ?thesis
      using hd_dropWhile [OF ne] by (auto simp: word_le_nat_alt)
  qed
  with wf LPurge show ?thesis
    by (simp add: alog_wf_def contiguous_dropWhile)
qed

section \<open>The contract of a Raft log\<close>

text \<open>
  What openraft documents of \<open>RaftLogStorage\<close>: appended entries become readable at the end,
  \<open>truncate\<close> removes from a log id on, \<open>purge\<close> removes up to a log id and records it, the log
  state is the purged log id and the last one, and a read returns the entries in the range.
\<close>

locale raft_log_store =
  fixes abs :: "'s \<Rightarrow> alog"
    and wf :: "'s \<Rightarrow> bool"
    and exec :: "log_op \<Rightarrow> 's \<Rightarrow> 's"
    and log_state :: "'s \<Rightarrow> LogState"
    and read :: "u64 bound \<Rightarrow> u64 bound \<Rightarrow> 's \<Rightarrow> Entry list option"
  assumes wf_exec: "wf s \<Longrightarrow> wf (exec op s)"
    and abs_sorted: "wf s \<Longrightarrow> sorted_wrt (<) (map entry_index (a_entries (abs s)))"
    and abs_append: "wf s \<Longrightarrow> appendable (a_entries (abs s)) es \<Longrightarrow>
          abs (exec (LAppend es) s) = (abs s)\<lparr>a_entries := a_entries (abs s) @ es\<rparr>"
    and abs_truncate: "wf s \<Longrightarrow> abs (exec (LTruncate l) s) =
          (abs s)\<lparr>a_entries := filter (\<lambda>e. entry_index e < index l) (a_entries (abs s))\<rparr>"
    and abs_purge: "wf s \<Longrightarrow> abs (exec (LPurge l) s) =
          \<lparr>a_purged = Some l, a_entries = filter (\<lambda>e. \<not> entry_index e \<le> index l) (a_entries (abs s))\<rparr>"
    and log_state_eq: "wf s \<Longrightarrow> log_state s =
          \<lparr>state_last_purged_log_id = a_purged (abs s), state_last_log_id = alog_last (abs s)\<rparr>"
    and read_range: "wf s \<Longrightarrow> \<not> range_panics lo hi \<Longrightarrow> read lo hi s =
          Some (filter (\<lambda>e. start_ok lo (entry_index e) \<and> end_ok hi (entry_index e)) (a_entries (abs s)))"
begin

lemma exec_simulates:
  assumes "wf s" "alog_wf (abs s)" "alog_ok op (abs s)"
  shows "abs (exec op s) = alog_exec op (abs s)"
proof (cases op)
  case (LAppend es)
  have "appendable (a_entries (abs s)) es"
    using assms LAppend
    by (intro appendable_contiguous) (auto simp: alog_wf_def alog_last_def)
  then show ?thesis
    using assms(1) LAppend by (simp add: abs_append)
next
  case (LTruncate l)
  then show ?thesis
    using assms(1) by (simp add: abs_truncate filter_below_sorted abs_sorted)
next
  case (LPurge l)
  then show ?thesis
    using assms(1) by (simp add: abs_purge filter_above_sorted abs_sorted)
qed

lemma run_simulates:
  assumes "wf s" "alog_wf (abs s)" "alog_run_ok ops (abs s)"
  shows "wf (fold exec ops s) \<and> abs (fold exec ops s) = fold alog_exec ops (abs s) \<and>
         alog_wf (abs (fold exec ops s))"
  using assms
proof (induction ops arbitrary: s)
  case (Cons op ops)
  have step: "abs (exec op s) = alog_exec op (abs s)"
    using Cons.prems by (intro exec_simulates) simp_all
  have "alog_wf (abs (exec op s))" "alog_run_ok ops (abs (exec op s))"
    using Cons.prems by (auto simp: step intro: alog_exec_wf)
  with Cons.IH [of "exec op s"] Cons.prems(1) wf_exec show ?case
    by (metis fold_simps(2) step)
qed simp

text \<open>Appending after a truncation replaces the conflicting suffix.\<close>

lemma truncate_append:
  assumes "wf s" "appendable (a_entries (abs s)) es" "es \<noteq> []"
  shows "abs (exec (LTruncate (log_id (hd es))) (exec (LAppend es) s)) = abs s"
proof -
  have keep: "filter (\<lambda>e. entry_index e < entry_index (hd es)) (a_entries (abs s)) = a_entries (abs s)"
    using assms by (auto simp: appendable_def filter_id_conv)
  have gone: "filter (\<lambda>e. entry_index e < entry_index (hd es)) es = []"
    using assms by (cases es) (auto simp: appendable_def filter_empty_conv)
  show ?thesis
    using assms by (simp add: abs_truncate wf_exec abs_append keep gone)
qed

text \<open>In a log without holes, a read of \<open>[a, b)\<close> inside the log returns exactly those entries.\<close>

lemma read_contiguous:
  assumes "wf s" "contiguous (a_entries (abs s))" "a_entries (abs s) \<noteq> []"
    and "entry_index (hd (a_entries (abs s))) \<le> a" "a \<le> b" "b \<le> entry_index (last (a_entries (abs s)))"
  shows "\<exists>es. read (Included a) (Excluded b) s = Some es \<and> map (unat \<circ> entry_index) es = [unat a..<unat b]"
proof -
  let ?E = "a_entries (abs s)" and ?in = "\<lambda>e. a \<le> entry_index e \<and> entry_index e < b"
  have read: "read (Included a) (Excluded b) s = Some (filter ?in ?E)"
    using assms by (simp add: read_range linorder_not_less)
  have sorted: "sorted_wrt (<) (map (unat \<circ> entry_index) (filter ?in ?E))"
    using abs_sorted [OF assms(1)]
    by (auto simp: word_less_nat_alt sorted_wrt_map intro: sorted_wrt_filter)
  have "set (map (unat \<circ> entry_index) (filter ?in ?E)) = set [unat a..<unat b]"
  proof (rule set_eqI, rule iffI)
    fix n assume "n \<in> set [unat a..<unat b]"
    then have n: "unat a \<le> n" "n < unat b" by auto
    define h where "h = unat (entry_index (hd ?E))"
    have last: "unat (entry_index (last ?E)) = h + (length ?E - 1)"
      using contiguous_index [OF assms(2), of "length ?E - 1"] assms(3)
      by (simp add: last_conv_nth h_def)
    have "h \<le> unat a" "unat b \<le> h + (length ?E - 1)"
      using assms(4,6) last by (simp_all add: word_le_nat_alt h_def)
    with n have "n - h < length ?E" "unat (entry_index (?E ! (n - h))) = n"
      using contiguous_index [OF assms(2), of "n - h"] by (auto simp: h_def)
    with n have "?E ! (n - h) \<in> set (filter ?in ?E)" "n = (unat \<circ> entry_index) (?E ! (n - h))"
      by (auto simp: word_le_nat_alt word_less_nat_alt)
    then show "n \<in> set (map (unat \<circ> entry_index) (filter ?in ?E))"
      by (simp only: set_map image_eqI)
  qed (auto simp: word_le_nat_alt word_less_nat_alt)
  with sorted have "map (unat \<circ> entry_index) (filter ?in ?E) = [unat a..<unat b]"
    by (intro strict_sorted_equal) simp_all
  with read show ?thesis by blast
qed

end

section \<open>LogStorageInner is a Raft log\<close>

lemma ls_log_append: "ls_log (log_exec (LAppend es) s) = fold insert_entry es (ls_log s)"
  by (simp add: log_append_def Let_def)

lemma ls_log_truncate: "ls_log (log_exec (LTruncate l) s) = fmfilter (\<lambda>k. k < index l) (ls_log s)"
  by (simp add: log_truncate_def remove_all_range linorder_not_le)

lemma ls_log_purge: "ls_log (log_exec (LPurge l) s) = fmfilter (\<lambda>k. \<not> k \<le> index l) (ls_log s)"
  by (simp add: log_purge_def remove_all_range Let_def cong del: fmfilter_cong)

lemma last_purged_exec:
  "last_purged_log_id (log_exec op s) = (case op of LPurge l \<Rightarrow> Some l | _ \<Rightarrow> last_purged_log_id s)"
  by (cases op) (simp_all add: log_append_def log_truncate_def log_purge_def Let_def)

lemmas ls_log_exec = ls_log_append ls_log_truncate ls_log_purge

lemma log_wf_entry: "log_wf s \<Longrightarrow> (k, e) \<in> set (sorted_list_of_fmap (ls_log s)) \<Longrightarrow> k = entry_index e"
  by (auto simp: log_wf_def set_sorted_list_of_fmap)

lemma index_log_view: "log_wf s \<Longrightarrow> map entry_index (log_view s) = map fst (sorted_list_of_fmap (ls_log s))"
  by (auto simp: log_view_def dest: log_wf_entry)

lemma log_view_filter:
  assumes "log_wf s" "ls_log s' = fmfilter P (ls_log s)"
  shows "log_view s' = filter (\<lambda>e. P (entry_index e)) (log_view s)"
  unfolding log_view_def assms(2) sorted_list_of_fmap_filter
  using log_wf_entry [OF assms(1)] by (intro map_snd_filter) simp

lemma log_wf_exec: "log_wf s \<Longrightarrow> log_wf (log_exec op s)"
proof (cases op)
  case (LAppend es)
  have "fmpred (\<lambda>k e. k = entry_index e) m \<Longrightarrow>
      fmpred (\<lambda>k e. k = entry_index e) (fold insert_entry es m)" for m
    by (induction es arbitrary: m) (auto simp: insert_entry_def)
  then show "log_wf s \<Longrightarrow> ?thesis" by (simp add: LAppend log_wf_def ls_log_append del: log_exec.simps)
qed (auto simp: log_wf_def ls_log_exec simp del: log_exec.simps)

lemma sorted_append_entries:
  assumes "sorted_wrt (<) (map entry_index es)"
    and "\<And>k e. k |\<in>| fmdom m \<Longrightarrow> e \<in> set es \<Longrightarrow> k < entry_index e"
  shows "map snd (sorted_list_of_fmap (fold insert_entry es m)) = map snd (sorted_list_of_fmap m) @ es"
  using assms
proof (induction es arbitrary: m)
  case (Cons e es)
  have "sorted_list_of_fmap (insert_entry e m) = sorted_list_of_fmap m @ [(entry_index e, e)]"
    using Cons.prems by (auto simp: insert_entry_def intro: sorted_list_of_fmap_snoc)
  moreover have "map snd (sorted_list_of_fmap (fold insert_entry es (insert_entry e m))) =
      map snd (sorted_list_of_fmap (insert_entry e m)) @ es"
    using Cons.prems by (intro Cons.IH) (auto simp: insert_entry_def)
  ultimately show ?case by simp
qed simp

lemma log_view_append:
  assumes "log_wf s" "appendable (log_view s) es"
  shows "log_view (log_exec (LAppend es) s) = log_view s @ es"
proof -
  have "set (map entry_index (log_view s)) = fset (fmdom (ls_log s))"
    by (simp add: index_log_view [OF assms(1)] fst_sorted_list_of_fmap del: set_map)
  then have "k |\<in>| fmdom (ls_log s) \<Longrightarrow> e \<in> set es \<Longrightarrow> k < entry_index e" for k e
    using assms(2) by (force simp: appendable_def)
  with assms(2) show ?thesis
    unfolding log_view_def ls_log_append
    by (intro sorted_append_entries) (auto simp: appendable_def)
qed

lemma log_view_range:
  assumes "log_wf s"
  shows "map snd (btree_range lo hi (ls_log s)) =
     filter (\<lambda>e. start_ok lo (entry_index e) \<and> end_ok hi (entry_index e)) (log_view s)"
  unfolding log_view_def btree_range_def
  using log_wf_entry [OF assms] by (intro map_snd_filter) simp

lemma get_log_state_eq:
  "get_log_state s = Inr \<lparr>state_last_purged_log_id = last_purged_log_id s,
     state_last_log_id = alog_last (log_abs s)\<rparr>"
  by (auto simp: get_log_state_def next_back_def alog_last_def log_abs_def log_view_def Let_def
      last_map case_prod_beta)

interpretation ls: raft_log_store log_abs log_wf log_exec "\<lambda>s. projr (get_log_state s)"
  "\<lambda>lo hi s. case try_get_log_entries lo hi s of Inr (Inr es) \<Rightarrow> Some es | _ \<Rightarrow> None"
proof (unfold_locales, goal_cases)
  case (1 s op)
  then show ?case by (rule log_wf_exec)
next
  case (2 s)
  then show ?case by (simp add: log_abs_def index_log_view strict_sorted_keys)
next
  case (3 s es)
  then show ?case
    by (simp add: log_abs_def log_view_append last_purged_exec del: log_exec.simps)
next
  case (4 s l)
  then show ?case
    using log_view_filter [OF 4 ls_log_truncate]
    by (simp add: log_abs_def last_purged_exec del: log_exec.simps)
next
  case (5 s l)
  then show ?case
    using log_view_filter [OF 5 ls_log_purge]
    by (simp add: log_abs_def last_purged_exec del: log_exec.simps)
next
  case (6 s)
  then show ?case by (simp add: get_log_state_eq log_abs_def)
next
  case (7 s lo hi)
  then show ?case by (simp add: try_get_log_entries_def log_view_range log_abs_def)
qed

lemma log_wf_default: "log_wf LogStorageInner_default"
  by (simp add: log_wf_def LogStorageInner_default_def)

lemma log_abs_default: "log_abs LogStorageInner_default = \<lparr>a_purged = None, a_entries = []\<rparr>"
  by (simp add: log_abs_def log_view_def LogStorageInner_default_def)

section \<open>Properties\<close>

text \<open>
  C2 (log_run_refines): starting from the empty log, any sequence of appends, truncations and
  purges that openraft may issue leaves the log in the state of the abstract list log, which has
  no hole between its entries nor after the purged prefix, and \<open>get_log_state\<close> reports the last
  purged log id and the id of the last log, purged or not.
\<close>

theorem log_run_refines:
  assumes "alog_run_ok ops \<lparr>a_purged = None, a_entries = []\<rparr>"
  shows "let s = fold log_exec ops LogStorageInner_default;
             a = fold alog_exec ops \<lparr>a_purged = None, a_entries = []\<rparr>
         in log_abs s = a \<and> alog_wf a \<and>
            get_log_state s =
              Inr \<lparr>state_last_purged_log_id = a_purged a, state_last_log_id = alog_last a\<rparr>"
proof -
  have "alog_wf (log_abs LogStorageInner_default)" "alog_run_ok ops (log_abs LogStorageInner_default)"
    using assms by (simp_all add: log_abs_default alog_wf_def)
  from ls.run_simulates [OF log_wf_default this] show ?thesis
    by (metis (no_types, lifting) alog.select_convs(1) get_log_state_eq log_abs_def log_abs_default)
qed

theorem log_run_refines_witness:
  "let ops = [LAppend [blank_entry 0, blank_entry 1, blank_entry 2], LPurge (LogId (LeaderId 1 7) 0),
              LTruncate (LogId (LeaderId 1 7) 2)]
   in alog_run_ok ops \<lparr>a_purged = None, a_entries = []\<rparr> \<and>
      log_abs (fold log_exec ops LogStorageInner_default) =
        \<lparr>a_purged = Some (LogId (LeaderId 1 7) 0), a_entries = [blank_entry 1]\<rparr>"
proof -
  let ?ops = "[LAppend [blank_entry 0, blank_entry 1, blank_entry 2], LPurge (LogId (LeaderId 1 7) 0),
              LTruncate (LogId (LeaderId 1 7) 2)]"
  have ok: "alog_run_ok ?ops \<lparr>a_purged = None, a_entries = []\<rparr>"
    by (simp add: alog_last_def blank_entry_def)
  have "fold alog_exec ?ops \<lparr>a_purged = None, a_entries = []\<rparr> =
      \<lparr>a_purged = Some (LogId (LeaderId 1 7) 0), a_entries = [blank_entry 1]\<rparr>"
    by (simp add: blank_entry_def)
  with ok log_run_refines [OF ok] show ?thesis by (simp only: Let_def)
qed


definition example_log :: LogStorageInner where
  "example_log = LogStorageInner_default\<lparr>ls_log :=
     fold insert_entry [blank_entry 4, blank_entry 5, blank_entry 6] fmempty\<rparr>"

lemma example_log: "log_wf example_log" "log_view example_log = [blank_entry 4, blank_entry 5, blank_entry 6]"
proof -
  let ?es = "[blank_entry 4, blank_entry 5, blank_entry 6]"
  have eq: "example_log = log_exec (LAppend ?es) LogStorageInner_default"
    by (simp add: example_log_def log_append_def LogStorageInner_default_def)
  show "log_wf example_log"
    unfolding eq by (rule log_wf_exec [OF log_wf_default])
  have "log_view LogStorageInner_default = []"
    by (simp add: log_view_def LogStorageInner_default_def)
  moreover have "appendable [] ?es" by (simp add: appendable_def blank_entry_def)
  ultimately show "log_view example_log = ?es"
    unfolding eq by (simp add: log_view_append [OF log_wf_default] del: log_exec.simps)
qed


text \<open>
  C29 (log_truncate_undoes_append): truncating at the first of the entries just appended restores
  the log, its entries, its purged id and its other fields.
\<close>

theorem log_truncate_undoes_append:
  assumes "log_wf s" "appendable (log_view s) es" "es \<noteq> []"
    and "log_append es callback (s, w) = (r, (s', w'))"
  shows "snd (log_truncate (log_id (hd es)) s') = s \<and> r = Inr () \<and> w' = callback (Inr ()) w"
proof -
  have s': "s' = log_exec (LAppend es) s" "r = Inr ()" "w' = callback (Inr ()) w"
    using assms(4) by (auto simp: log_append_def Let_def)
  let ?t = "log_exec (LTruncate (log_id (hd es))) s'"
  have "log_view ?t = log_view s" "log_wf ?t"
    using ls.truncate_append [of s es] assms(1-3) log_wf_exec
    by (simp_all add: s' log_abs_def del: log_exec.simps)
  then have "sorted_list_of_fmap (ls_log ?t) = sorted_list_of_fmap (ls_log s)"
    using assms(1) index_log_view by (metis log_view_def zip_map_fst_snd)
  then have "ls_log ?t = ls_log s"
    by (metis fmap_ext map_of_sorted_list)
  then show ?thesis
    using s' by (simp add: log_append_def log_truncate_def Let_def)
qed

theorem log_truncate_undoes_append_witness:
  "snd (log_truncate (LogId (LeaderId 1 7) 7)
     (fst (snd (log_append [blank_entry 7, blank_entry 8] (\<lambda>_ n. Suc n) (example_log, 0::nat))))) = example_log"
proof -
  have "appendable (log_view example_log) [blank_entry 7, blank_entry 8]"
    by (simp add: appendable_def example_log blank_entry_def)
  from log_truncate_undoes_append [OF example_log(1) this, of "\<lambda>_ n. Suc n" "0::nat"]
  show ?thesis
    by (simp add: log_append_def Let_def) (simp add: blank_entry_def)
qed

text \<open>
  The reader obtained from a log storage reads the same log: after an
  append through the storage, the reader returns exactly the appended entries from the first of
  them on, and no other log is touched.
\<close>

lemma log_reader_shares:
  assumes "log_wf (h a)" "appendable (log_view (h a)) es" "es \<noteq> []"
    and "LogStorage_append a es callback (h, w) = (r, (h', w'))"
  shows "LogStorage_try_get_log_entries (get_log_reader a) (Included (entry_index (hd es))) Unbounded h' =
           Inr (Inr es) \<and> (\<forall>b. b \<noteq> a \<longrightarrow> h' b = h b)"
proof -
  have h': "h' = h(a := log_exec (LAppend es) (h a))"
    using assms(4) by (auto simp: LogStorage_append_def log_append_def Let_def split: prod.splits)
  have view: "log_view (h' a) = log_view (h a) @ es" and wf: "log_wf (h' a)"
    using assms(1,2) log_view_append log_wf_exec by (simp_all add: h' del: log_exec.simps)
  have "filter (\<lambda>e. entry_index (hd es) \<le> entry_index e) (log_view (h a)) = []"
    using assms(2) hd_in_set [OF assms(3)]
    by (auto simp: appendable_def filter_empty_conv linorder_not_le)
  moreover have "filter (\<lambda>e. entry_index (hd es) \<le> entry_index e) es = es"
    using assms(2,3) by (cases es) (auto simp: appendable_def filter_id_conv less_imp_le)
  ultimately show ?thesis
    by (simp add: LogStorage_try_get_log_entries_def get_log_reader_def try_get_log_entries_def
        log_view_range [OF wf] view) (simp add: h')
qed

text \<open>
  C30 (log_vote_durable): a saved vote and a saved commit position are read back after any number
  of log operations.
\<close>

theorem log_vote_durable:
  "read_vote (fold log_exec ops (snd (save_vote v s))) = Inr (Some v) \<and>
   read_committed (fold log_exec ops (snd (save_committed c s))) = Inr c"
proof -
  have "ls_vote (log_exec op s) = ls_vote s \<and> committed (log_exec op s) = committed s" for op s
    by (cases op) (simp_all add: log_append_def log_truncate_def log_purge_def Let_def)
  then have "ls_vote (fold log_exec ops s) = ls_vote s \<and> committed (fold log_exec ops s) = committed s" for s
    by (induction ops arbitrary: s) (simp_all del: log_exec.simps)
  then show ?thesis
    by (simp add: read_vote_def read_committed_def save_vote_def save_committed_def)
qed

end
