(* ===== verification/State_Machine.thy ===== *)
theory State_Machine
  imports Raft_Types
begin

text \<open>
  The replicated state machine (\<open>raft/state.rs\<close>): named maps and named multi-maps from byte
  strings to byte strings, the log position and membership they reflect, and the current snapshot.

  The locks of the code make each operation atomic, so an operation is a function on
  \<open>StateMachine\<close>. postcard's serialization of the data and the display of a leader id are
  parameters. The locales \<open>map_store\<close> and \<open>multi_map_store\<close> are the contracts that the server and
  the collections rely on; they are interpreted on the operations of the state machine.
\<close>

section \<open>State\<close>

record StateMachineData =
  maps :: "(string, (bytes, bytes) fmap) fmap"
  multi_maps :: "(string, (bytes, bytes fset) fmap) fmap"

record StateMachineInner =
  last_applied_log :: "LogId option"
  last_membership :: StoredMembership
  sm_data :: StateMachineData

record StoredSnapshot =
  snap_meta :: SnapshotMeta
  snap_data :: bytes

record StateMachine =
  state_machine :: StateMachineInner
  snapshot_idx :: u64
  current_snapshot :: "StoredSnapshot option"

definition StateMachineData_default :: StateMachineData where
  "StateMachineData_default = \<lparr>maps = fmempty, multi_maps = fmempty\<rparr>"

definition StateMachine_default :: StateMachine where
  "StateMachine_default = \<lparr>state_machine = \<lparr>last_applied_log = None,
       last_membership = StoredMembership_default, sm_data = StateMachineData_default\<rparr>,
     snapshot_idx = 0, current_snapshot = None\<rparr>"

abbreviation the_data :: "StateMachine \<Rightarrow> StateMachineData" where
  "the_data sm \<equiv> sm_data (state_machine sm)"

abbreviation update_data :: "(StateMachineData \<Rightarrow> StateMachineData) \<Rightarrow> StateMachine \<Rightarrow> StateMachine" where
  "update_data f sm \<equiv> sm\<lparr>state_machine := (state_machine sm)\<lparr>sm_data := f (the_data sm)\<rparr>\<rparr>"

section \<open>Direct reads and removals\<close>

definition data_get :: "string \<Rightarrow> bytes \<Rightarrow> StateMachineData \<Rightarrow> bytes option" where
  "data_get map_name key d = Option.bind (fmlookup (maps d) map_name) (\<lambda>m. fmlookup m key)"

definition contains_key :: "string \<Rightarrow> bytes \<Rightarrow> StateMachine \<Rightarrow> bool" where
  "contains_key map_name key sm =
     unwrap_or False (map_option (\<lambda>m. fmlookup m key \<noteq> None) (fmlookup (maps (the_data sm)) map_name))"

definition get_with_lock :: "string \<Rightarrow> bytes \<Rightarrow> StateMachine \<Rightarrow> bytes option" where
  "get_with_lock map_name key sm = data_get map_name key (the_data sm)"

definition get_with_lock_multi :: "string \<Rightarrow> bytes \<Rightarrow> StateMachine \<Rightarrow> bytes fset option" where
  "get_with_lock_multi multi_map key sm =
     Option.bind (fmlookup (multi_maps (the_data sm)) multi_map) (\<lambda>m. fmlookup m key)"

definition data_remove :: "string \<Rightarrow> bytes \<Rightarrow> StateMachineData \<Rightarrow> bytes option \<times> StateMachineData" where
  "data_remove map_name key d =
     (case fmlookup (maps d) map_name of
        None \<Rightarrow> (None, d)
      | Some m \<Rightarrow> (fmlookup m key, d\<lparr>maps := fmupd map_name (fmdrop key m) (maps d)\<rparr>))"

definition sm_remove :: "string \<Rightarrow> bytes \<Rightarrow> StateMachine \<Rightarrow> bytes option \<times> StateMachine" where
  "sm_remove map_name key sm =
     (case data_remove map_name key (the_data sm) of (r, d) \<Rightarrow> (r, update_data (\<lambda>_. d) sm))"

definition data_remove_multi_value ::
  "string \<Rightarrow> bytes \<Rightarrow> bytes \<Rightarrow> StateMachineData \<Rightarrow> bool option \<times> StateMachineData" where
  "data_remove_multi_value multi_map key val d =
     (case fmlookup (multi_maps d) multi_map of
        None \<Rightarrow> (None, d)
      | Some mm \<Rightarrow>
          (case fmlookup mm key of
             None \<Rightarrow> (None, d)
           | Some m \<Rightarrow> (Some (val |\<in>| m),
               d\<lparr>multi_maps := fmupd multi_map (fmupd key (m |-| {|val|}) mm) (multi_maps d)\<rparr>)))"

definition remove_multi_value ::
  "string \<Rightarrow> bytes \<Rightarrow> bytes \<Rightarrow> StateMachine \<Rightarrow> bool option \<times> StateMachine" where
  "remove_multi_value multi_map key val sm =
     (case data_remove_multi_value multi_map key val (the_data sm) of
        (r, d) \<Rightarrow> (r, update_data (\<lambda>_. d) sm))"

definition map_len :: "string \<Rightarrow> StateMachine \<Rightarrow> nat option" where
  "map_len map_name sm = map_option fm_len (fmlookup (maps (the_data sm)) map_name)"

section \<open>Applying log entries\<close>

text \<open>One replicated request: the arms of the inner \<open>match\<close> of \<open>apply\<close>.\<close>

fun apply_request :: "RaftRequest \<Rightarrow> StateMachineData \<Rightarrow> RaftResponse \<times> StateMachineData" where
  "apply_request (RaftInsert map_name key val) d =
     (let m = entry_or fmempty (maps d) map_name;
          old = fmlookup m key
      in (RespInsert old, d\<lparr>maps := fmupd map_name (fmupd key val m) (maps d)\<rparr>))"
| "apply_request (RaftInsertMulti multi_map key val) d =
     (let m = entry_or fmempty (multi_maps d) multi_map;
          vals = entry_or {||} m key;
          inserted = (val |\<notin>| vals)
      in (RespInsertMulti inserted,
          d\<lparr>multi_maps := fmupd multi_map (fmupd key (finsert val vals) m) (multi_maps d)\<rparr>))"
| "apply_request (RaftClear map_name) d = (RespClear, d\<lparr>maps := fmupd map_name fmempty (maps d)\<rparr>)"

text \<open>One entry: the body of the loop of \<open>apply\<close>.\<close>

definition apply_entry :: "Entry \<Rightarrow> StateMachineInner \<Rightarrow> RaftResponse \<times> StateMachineInner" where
  "apply_entry entry sm0 =
     (let sm = sm0\<lparr>last_applied_log := Some (log_id entry)\<rparr>
      in case payload entry of
           Blank \<Rightarrow> (RespNoop, sm)
         | Normal req \<Rightarrow>
             (case apply_request req (sm_data sm) of (resp, d) \<Rightarrow> (resp, sm\<lparr>sm_data := d\<rparr>))
         | MembershipChange mem \<Rightarrow>
             (RespNoop, sm\<lparr>last_membership :=
                \<lparr>membership_log_id = Some (log_id entry), membership = mem\<rparr>\<rparr>))"

fun apply_loop :: "Entry list \<Rightarrow> StateMachineInner \<Rightarrow> RaftResponse list \<Rightarrow>
    RaftResponse list \<times> StateMachineInner" where
  "apply_loop [] sm res = (res, sm)"
| "apply_loop (entry # entries) sm res =
     (case apply_entry entry sm of (resp, sm') \<Rightarrow> apply_loop entries sm' (res @ [resp]))"

definition sm_apply :: "Entry list \<Rightarrow> (StateMachine, StorageError, RaftResponse list) io" where
  "sm_apply entries sm =
     (case apply_loop entries (state_machine sm) [] of
        (res, inner) \<Rightarrow> (Inr res, sm\<lparr>state_machine := inner\<rparr>))"

definition applied_state :: "StateMachine \<Rightarrow> StorageError + LogId option \<times> StoredMembership" where
  "applied_state sm = Inr (last_applied_log (state_machine sm), last_membership (state_machine sm))"

section \<open>Snapshots\<close>

definition begin_receiving_snapshot :: "StateMachine \<Rightarrow> StorageError + bytes" where
  "begin_receiving_snapshot sm = Inr []"

definition install_snapshot ::
  "(bytes \<Rightarrow> PostcardError + StateMachineData) \<Rightarrow> SnapshotMeta \<Rightarrow> bytes \<Rightarrow>
     (StateMachine, StorageError, unit) io" where
  "install_snapshot from_bytes meta snapshot sm =
     (let new_snapshot = \<lparr>snap_meta = meta, snap_data = snapshot\<rparr>
      in case from_bytes (snap_data new_snapshot) of
           Inl e \<Rightarrow> (Inl (ReadSnapshotError (Some (signature (snap_meta new_snapshot))) e), sm)
         | Inr d \<Rightarrow>
             (let updated = \<lparr>last_applied_log = last_log_id meta,
                    last_membership = meta_last_membership meta, sm_data = d\<rparr>
              in (Inr (), sm\<lparr>state_machine := updated, current_snapshot := Some new_snapshot\<rparr>)))"

definition get_current_snapshot :: "StateMachine \<Rightarrow> StorageError + StoredSnapshot option" where
  "get_current_snapshot sm = Inr (current_snapshot sm)"

text \<open>\<open>fetch_add(1) + 1\<close>: the counter wraps around at \<open>2 ^ 64\<close>.\<close>

definition snapshot_id_of :: "(LeaderId \<Rightarrow> string) \<Rightarrow> LogId option \<Rightarrow> u64 \<Rightarrow> string" where
  "snapshot_id_of show_leader last_applied idx =
     (case last_applied of
        Some l \<Rightarrow> show_leader (leader_id l) @ ''-'' @ display_nat (unat (index l)) @ ''-'' @
          display_nat (unat idx)
      | None \<Rightarrow> ''--'' @ display_nat (unat idx))"

definition build_snapshot ::
  "(StateMachineData \<Rightarrow> PostcardError + bytes) \<Rightarrow> (LeaderId \<Rightarrow> string) \<Rightarrow>
     (StateMachine, StorageError, StoredSnapshot) io" where
  "build_snapshot to_allocvec show_leader sm =
     (case to_allocvec (the_data sm) of
        Inl e \<Rightarrow> (Inl (ReadStateMachineError e), sm)
      | Inr bs \<Rightarrow>
          (let last_applied = last_applied_log (state_machine sm);
               idx = snapshot_idx sm + 1;
               meta = \<lparr>last_log_id = last_applied,
                 meta_last_membership = last_membership (state_machine sm),
                 snapshot_id = snapshot_id_of show_leader last_applied idx\<rparr>;
               snapshot = \<lparr>snap_meta = meta, snap_data = bs\<rparr>
           in (Inr snapshot, sm\<lparr>snapshot_idx := idx, current_snapshot := Some snapshot\<rparr>)))"

text \<open>What postcard promises: decoding an encoded value gives the value back.\<close>

definition codec_ok :: "('a \<Rightarrow> PostcardError + bytes) \<Rightarrow> (bytes \<Rightarrow> PostcardError + 'a) \<Rightarrow> bool" where
  "codec_ok to_allocvec from_bytes \<longleftrightarrow> (\<forall>d bs. to_allocvec d = Inr bs \<longrightarrow> from_bytes bs = Inr d)"

section \<open>The contract of the maps\<close>

text \<open>
  A store of named maps seen through its operations: what a lookup returns after each update,
  what each update returns, and how many keys a map has.
\<close>

locale map_store =
  fixes get :: "string \<Rightarrow> bytes \<Rightarrow> 's \<Rightarrow> bytes option"
    and insert :: "string \<Rightarrow> bytes \<Rightarrow> bytes \<Rightarrow> 's \<Rightarrow> bytes option \<times> 's"
    and remove :: "string \<Rightarrow> bytes \<Rightarrow> 's \<Rightarrow> bytes option \<times> 's"
    and clear :: "string \<Rightarrow> 's \<Rightarrow> 's"
  assumes insert_old: "fst (insert m k v s) = get m k s"
    and get_insert: "get m' k' (snd (insert m k v s)) = (if m' = m \<and> k' = k then Some v else get m' k' s)"
    and remove_old: "fst (remove m k s) = get m k s"
    and get_remove: "get m' k' (snd (remove m k s)) = (if m' = m \<and> k' = k then None else get m' k' s)"
    and get_clear: "get m' k' (clear m s) = (if m' = m then None else get m' k' s)"
begin

lemma insert_then_insert: "fst (insert m k v' (snd (insert m k v s))) = Some v"
  by (simp add: insert_old get_insert)

lemma insert_then_remove:
  "fst (remove m k (snd (insert m k v s))) = Some v"
  "get m' k' (snd (remove m k (snd (insert m k v s)))) = get m' k' (snd (remove m k s))"
  by (simp_all add: remove_old get_insert get_remove)

lemma remove_twice: "fst (remove m k (snd (remove m k s))) = None"
  by (simp add: remove_old get_remove)

lemma clear_then_remove: "fst (remove m k (clear m s)) = None"
  by (simp add: remove_old get_clear)

end

locale counted_map_store = map_store +
  fixes len :: "string \<Rightarrow> 's \<Rightarrow> nat"
  assumes len_card: "len m s = card {k. get m k s \<noteq> None}"
    and finite_keys: "finite {k. get m k s \<noteq> None}"
begin

lemma len_clear: "len m (clear m s) = 0"
  by (simp add: len_card get_clear)

lemma len_insert: "len m (snd (insert m k v s)) = (if get m k s = None then Suc (len m s) else len m s)"
proof -
  have "{k'. get m k' (snd (insert m k v s)) \<noteq> None} = Set.insert k {k'. get m k' s \<noteq> None}"
    by (auto simp: get_insert)
  then show ?thesis by (simp add: len_card card_insert_if finite_keys del: not_None_eq)
qed

lemma len_remove: "len m (snd (remove m k s)) = (if get m k s = None then len m s else len m s - 1)"
proof -
  have "{k'. get m k' (snd (remove m k s)) \<noteq> None} = {k'. get m k' s \<noteq> None} - {k}"
    by (auto simp: get_remove)
  then show ?thesis by (simp add: len_card card_Diff_singleton_if finite_keys del: not_None_eq)
qed

lemma len_other:
  "m' \<noteq> m \<Longrightarrow> len m' (snd (insert m k v s)) = len m' s"
  "m' \<noteq> m \<Longrightarrow> len m' (snd (remove m k s)) = len m' s"
  "m' \<noteq> m \<Longrightarrow> len m' (clear m s) = len m' s"
  by (simp_all add: len_card get_insert get_remove get_clear)

lemma empty_iff: "len m s = 0 \<longleftrightarrow> (\<forall>k. get m k s = None)"
  using finite_keys [of m s] by (simp add: len_card)

end

locale multi_map_store =
  fixes vals :: "string \<Rightarrow> bytes \<Rightarrow> 's \<Rightarrow> bytes fset"
    and insert :: "string \<Rightarrow> bytes \<Rightarrow> bytes \<Rightarrow> 's \<Rightarrow> bool \<times> 's"
    and remove :: "string \<Rightarrow> bytes \<Rightarrow> bytes \<Rightarrow> 's \<Rightarrow> bool \<times> 's"
  assumes insert_new: "fst (insert m k v s) = (v |\<notin>| vals m k s)"
    and vals_insert: "vals m' k' (snd (insert m k v s)) =
          (if m' = m \<and> k' = k then finsert v (vals m k s) else vals m' k' s)"
    and remove_present: "fst (remove m k v s) = (v |\<in>| vals m k s)"
    and vals_remove: "vals m' k' (snd (remove m k v s)) =
          (if m' = m \<and> k' = k then vals m k s |-| {|v|} else vals m' k' s)"
begin

lemma insert_twice:
  "\<not> fst (insert m k v (snd (insert m k v s)))"
  "vals m' k' (snd (insert m k v (snd (insert m k v s)))) = vals m' k' (snd (insert m k v s))"
  by (simp_all add: insert_new vals_insert)

lemma insert_then_remove:
  "fst (remove m k v (snd (insert m k v s)))"
  "v |\<notin>| vals m k s \<Longrightarrow> vals m' k' (snd (remove m k v (snd (insert m k v s)))) = vals m' k' s"
  by (auto simp: remove_present vals_insert vals_remove)

lemma remove_twice: "\<not> fst (remove m k v (snd (remove m k v s)))"
  by (simp add: remove_present vals_remove)

end

section \<open>The state machine is such a store\<close>

definition data_insert :: "string \<Rightarrow> bytes \<Rightarrow> bytes \<Rightarrow> StateMachineData \<Rightarrow> bytes option \<times> StateMachineData" where
  "data_insert m k v d =
     (case apply_request (RaftInsert m k v) d of
        (RespInsert old, d') \<Rightarrow> (old, d') | (_, d') \<Rightarrow> (None, d'))"

definition data_clear :: "string \<Rightarrow> StateMachineData \<Rightarrow> StateMachineData" where
  "data_clear m d = snd (apply_request (RaftClear m) d)"

definition data_len :: "string \<Rightarrow> StateMachineData \<Rightarrow> nat" where
  "data_len m d = unwrap_or 0 (map_option fm_len (fmlookup (maps d) m))"

definition data_vals :: "string \<Rightarrow> bytes \<Rightarrow> StateMachineData \<Rightarrow> bytes fset" where
  "data_vals m k d =
     unwrap_or {||} (Option.bind (fmlookup (multi_maps d) m) (\<lambda>mm. fmlookup mm k))"

definition data_insert_multi ::
  "string \<Rightarrow> bytes \<Rightarrow> bytes \<Rightarrow> StateMachineData \<Rightarrow> bool \<times> StateMachineData" where
  "data_insert_multi m k v d =
     (case apply_request (RaftInsertMulti m k v) d of
        (RespInsertMulti b, d') \<Rightarrow> (b, d') | (_, d') \<Rightarrow> (False, d'))"

definition data_remove_multi ::
  "string \<Rightarrow> bytes \<Rightarrow> bytes \<Rightarrow> StateMachineData \<Rightarrow> bool \<times> StateMachineData" where
  "data_remove_multi m k v d = apfst (unwrap_or False) (data_remove_multi_value m k v d)"

lemmas data_map_defs = data_get_def data_insert_def data_clear_def data_len_def data_remove_def
lemmas data_multi_defs = data_vals_def data_insert_multi_def data_remove_multi_def
  data_remove_multi_value_def

lemma data_get_entry: "data_get m k d = fmlookup (entry_or fmempty (maps d) m) k"
  by (cases "fmlookup (maps d) m") (simp_all add: data_get_def entry_or_def)

lemma data_len_entry: "data_len m d = fm_len (entry_or fmempty (maps d) m)"
  by (cases "fmlookup (maps d) m") (simp_all add: data_len_def entry_or_def)

lemma data_vals_entry: "data_vals m k d = entry_or {||} (entry_or fmempty (multi_maps d) m) k"
  by (cases "fmlookup (multi_maps d) m") (simp_all add: data_vals_def entry_or_def)

interpretation sm_map: counted_map_store data_get data_insert data_remove data_clear data_len
proof (unfold_locales, goal_cases)
  case (1 m k v s)
  then show ?case by (simp add: data_insert_def data_get_entry Let_def)
next
  case (2 m' k' m k v s)
  then show ?case by (auto simp: data_insert_def data_get_entry Let_def)
next
  case (3 m k s)
  then show ?case by (cases "fmlookup (maps s) m") (simp_all add: data_map_defs)
next
  case (4 m' k' m k s)
  then show ?case by (cases "fmlookup (maps s) m") (auto simp: data_map_defs)
next
  case (5 m' k' m s)
  then show ?case by (auto simp: data_clear_def data_get_entry)
next
  case (6 m s)
  then show ?case
    by (simp add: data_len_entry data_get_entry fm_len_def fcard.rep_eq fmdom.rep_eq dom_def)
next
  case (7 m s)
  have "{k. data_get m k s \<noteq> None} = dom (fmlookup (entry_or fmempty (maps s) m))"
    by (auto simp: data_get_entry dom_def)
  then show ?case by (metis dom_fmlookup_finite)
qed

interpretation sm_multi: multi_map_store data_vals data_insert_multi data_remove_multi
proof (unfold_locales, goal_cases)
  case (1 m k v s)
  then show ?case by (simp add: data_insert_multi_def data_vals_entry Let_def)
next
  case (2 m' k' m k v s)
  then show ?case by (auto simp: data_insert_multi_def data_vals_entry Let_def)
next
  case (3 m k v s)
  then show ?case by (simp add: data_multi_defs split: option.split)
next
  case (4 m' k' m k v s)
  then show ?case
    by (cases "fmlookup (multi_maps s) m"; cases "m' = m")
      (auto simp: data_multi_defs split: option.split)
qed

lemma contains_key_get: "contains_key m k sm = (get_with_lock m k sm \<noteq> None)"
  by (cases "fmlookup (maps (the_data sm)) m") (simp_all add: contains_key_def get_with_lock_def data_get_def)

lemma map_len_data: "unwrap_or 0 (map_len m sm) = data_len m (the_data sm)"
  by (simp add: map_len_def data_len_def)

lemma get_with_lock_multi_vals:
  "unwrap_or {||} (get_with_lock_multi m k sm) = data_vals m k (the_data sm)"
  by (simp add: get_with_lock_multi_def data_vals_def)

section \<open>Applying entries\<close>

lemma apply_loop_acc: "apply_loop es sm res = apfst ((@) res) (apply_loop es sm [])"
proof (induction es arbitrary: sm res)
  case (Cons e es)
  obtain resp sm' where e: "apply_entry e sm = (resp, sm')" by fastforce
  show ?case
    by (cases "apply_loop es sm' []")
      (simp add: e Cons.IH [of sm' "res @ [resp]"] Cons.IH [of sm' "[resp]"])
qed simp

lemma apply_loop_append:
  "apply_loop (xs @ ys) sm [] =
     (case apply_loop xs sm [] of (rs, sm') \<Rightarrow> apfst ((@) rs) (apply_loop ys sm' []))"
proof (induction xs arbitrary: sm)
  case (Cons x xs)
  obtain resp sm' where x: "apply_entry x sm = (resp, sm')" by fastforce
  obtain rs sm'' where xs: "apply_loop xs sm' [] = (rs, sm'')" by fastforce
  show ?case
    by (cases "apply_loop ys sm'' []")
      (simp add: x xs Cons.IH apply_loop_acc [of _ _ "[resp]"])
qed (simp add: apfst_def map_prod_def split: prod.split)

lemma apply_loop_length: "length (fst (apply_loop es sm [])) = length es"
proof (induction es arbitrary: sm)
  case (Cons e es)
  then show ?case
    by (cases "apply_entry e sm") (simp add: apply_loop_acc [of _ _ "[_]"])
qed simp

fun requests :: "Entry list \<Rightarrow> RaftRequest list" where
  "requests [] = []"
| "requests (e # es) = (case payload e of Normal r \<Rightarrow> r # requests es | _ \<Rightarrow> requests es)"

lemma requests_append [simp]: "requests (xs @ ys) = requests xs @ requests ys"
  by (induction xs) (simp_all split: EntryPayload.split)

text \<open>The data only depend on the requests in the log.\<close>

lemma apply_loop_data:
  "sm_data (snd (apply_loop es sm [])) = fold (\<lambda>r d. snd (apply_request r d)) (requests es) (sm_data sm)"
proof (induction es arbitrary: sm)
  case (Cons e es)
  have "sm_data (snd (apply_entry e sm)) =
      (case payload e of Normal r \<Rightarrow> snd (apply_request r (sm_data sm)) | _ \<Rightarrow> sm_data sm)"
    by (simp add: apply_entry_def Let_def split: EntryPayload.split prod.split)
  with Cons.IH [of "snd (apply_entry e sm)"] show ?case
    by (cases "apply_entry e sm") (simp add: apply_loop_acc [of _ _ "[_]"] split: EntryPayload.split)
qed simp

lemma sm_apply_eq:
  "sm_apply es sm = (Inr (fst (apply_loop es (state_machine sm) [])),
     sm\<lparr>state_machine := snd (apply_loop es (state_machine sm) [])\<rparr>)"
  by (simp add: sm_apply_def split: prod.split)

section \<open>Specifications\<close>

text \<open>
  The value of a key after a log, by the last write: requests are given newest first.
\<close>

fun last_write :: "string \<Rightarrow> bytes \<Rightarrow> RaftRequest list \<Rightarrow> bytes option" where
  "last_write m k [] = None"
| "last_write m k (RaftInsert m' k' v # rs) = (if m' = m \<and> k' = k then Some v else last_write m k rs)"
| "last_write m k (RaftClear m' # rs) = (if m' = m then None else last_write m k rs)"
| "last_write m k (RaftInsertMulti _ _ _ # rs) = last_write m k rs"

text \<open>The values a log inserts for a key of a multi-map.\<close>

fun multi_writes :: "string \<Rightarrow> bytes \<Rightarrow> RaftRequest list \<Rightarrow> bytes list" where
  "multi_writes m k [] = []"
| "multi_writes m k (RaftInsertMulti m' k' v # rs) =
     (if m' = m \<and> k' = k then v # multi_writes m k rs else multi_writes m k rs)"
| "multi_writes m k (_ # rs) = multi_writes m k rs"

text \<open>The abstract maps: a partial function per name, with the operations of a dictionary.\<close>

type_synonym amap = "string \<Rightarrow> bytes \<rightharpoonup> bytes"

datatype map_op =
    MInsert LogId string bytes bytes | MRemove string bytes | MClear LogId string
  | MGet string bytes | MContains string bytes | MLen string

datatype map_out = OValue "bytes option" | OBool bool | OLen nat | OUnit

fun amap_step :: "map_op \<Rightarrow> amap \<Rightarrow> map_out \<times> amap" where
  "amap_step (MInsert _ m k v) a = (OValue (a m k), a(m := (a m)(k \<mapsto> v)))"
| "amap_step (MRemove m k) a = (OValue (a m k), a(m := (a m)(k := None)))"
| "amap_step (MClear _ m) a = (OUnit, a(m := Map.empty))"
| "amap_step (MGet m k) a = (OValue (a m k), a)"
| "amap_step (MContains m k) a = (OBool (k \<in> dom (a m)), a)"
| "amap_step (MLen m) a = (OLen (card (dom (a m))), a)"

text \<open>The same operations on the state machine: writes are applied as log entries.\<close>

definition entry_of :: "LogId \<Rightarrow> RaftRequest \<Rightarrow> Entry" where
  "entry_of l r = \<lparr>log_id = l, payload = Normal r\<rparr>"

fun sm_step :: "map_op \<Rightarrow> StateMachine \<Rightarrow> map_out \<times> StateMachine" where
  "sm_step (MInsert l m k v) sm =
     (case sm_apply [entry_of l (RaftInsert m k v)] sm of
        (Inr [RespInsert old], sm') \<Rightarrow> (OValue old, sm') | (_, sm') \<Rightarrow> (OUnit, sm'))"
| "sm_step (MRemove m k) sm = (case sm_remove m k sm of (old, sm') \<Rightarrow> (OValue old, sm'))"
| "sm_step (MClear l m) sm = (OUnit, snd (sm_apply [entry_of l (RaftClear m)] sm))"
| "sm_step (MGet m k) sm = (OValue (get_with_lock m k sm), sm)"
| "sm_step (MContains m k) sm = (OBool (contains_key m k sm), sm)"
| "sm_step (MLen m) sm = (OLen (unwrap_or 0 (map_len m sm)), sm)"

definition map_view :: "StateMachine \<Rightarrow> amap" where
  "map_view sm = (\<lambda>m k. get_with_lock m k sm)"

fun apply_batches :: "Entry list list \<Rightarrow> StateMachine \<Rightarrow> RaftResponse list \<times> StateMachine" where
  "apply_batches [] sm = ([], sm)"
| "apply_batches (b # bs) sm =
     (case sm_apply b sm of (r, sm') \<Rightarrow>
        (case apply_batches bs sm' of (rs, sm'') \<Rightarrow> (case_sum (\<lambda>_. []) id r @ rs, sm'')))"

lemma sm_apply_single:
  "sm_apply [entry_of l r] sm =
     (Inr [fst (apply_request r (the_data sm))],
      sm\<lparr>state_machine := (state_machine sm)\<lparr>last_applied_log := Some l,
           sm_data := snd (apply_request r (the_data sm))\<rparr>\<rparr>)"
  by (simp add: sm_apply_def apply_entry_def entry_of_def split: prod.split)

lemma data_insert_eq: "apply_request (RaftInsert m k v) d = apfst RespInsert (data_insert m k v d)"
  by (simp add: data_insert_def Let_def)

lemma data_clear_eq: "apply_request (RaftClear m) d = (RespClear, data_clear m d)"
  by (simp add: data_clear_def)

lemma data_insert_multi_eq:
  "apply_request (RaftInsertMulti m k v) d = apfst RespInsertMulti (data_insert_multi m k v d)"
  by (simp add: data_insert_multi_def Let_def)

lemmas apply_request_store = data_insert_eq data_clear_eq data_insert_multi_eq

declare apply_request.simps [simp del]

lemma map_view_data: "map_view sm m k = data_get m k (the_data sm)"
  by (simp add: map_view_def get_with_lock_def)

lemma data_get_multi [simp]: "data_get m k (snd (data_insert_multi m' k' v d)) = data_get m k d"
  by (simp add: data_insert_multi_def data_get_def apply_request.simps Let_def)

lemma data_vals_map [simp]:
  "data_vals m k (snd (data_insert m' k' v d)) = data_vals m k d"
  "data_vals m k (data_clear m' d) = data_vals m k d"
  by (simp_all add: data_insert_def data_clear_def data_vals_def apply_request.simps Let_def)

lemma sm_step_simulates: "amap_step op (map_view sm) = apsnd map_view (sm_step op sm)"
proof (cases op)
  case (MInsert l m k v)
  then show ?thesis
    by (auto simp: sm_apply_single apply_request_store map_view_data sm_map.insert_old
        sm_map.get_insert intro!: ext)
next
  case (MRemove m k)
  obtain r d where r: "data_remove m k (the_data sm) = (r, d)" by fastforce
  then show ?thesis
    using MRemove sm_map.remove_old [of m k "the_data sm"] sm_map.get_remove [of _ _ m k "the_data sm"]
    by (auto simp: sm_remove_def map_view_data intro!: ext)
next
  case (MClear l m)
  then show ?thesis
    by (auto simp: sm_apply_single apply_request_store map_view_data sm_map.get_clear intro!: ext)
next
  case (MLen m)
  then show ?thesis
    by (simp add: map_len_data sm_map.len_card map_view_data dom_def)
qed (auto simp: map_view_def contains_key_get)

lemma fold_requests_get:
  "data_get m k (fold (\<lambda>r d. snd (apply_request r d)) rs StateMachineData_default) = last_write m k (rev rs)"
proof (induction rs rule: rev_induct)
  case Nil
  then show ?case by (simp add: data_get_def StateMachineData_default_def)
next
  case (snoc r rs)
  then show ?case
    by (cases r) (auto simp: apply_request_store sm_map.get_insert sm_map.get_clear)
qed

lemma fold_requests_vals:
  "fset (data_vals m k (fold (\<lambda>r d. snd (apply_request r d)) rs StateMachineData_default)) =
     set (multi_writes m k rs)"
proof (induction rs rule: rev_induct)
  case Nil
  then show ?case by (simp add: data_vals_def StateMachineData_default_def)
next
  case (snoc r rs)
  have app: "set (multi_writes m k (xs @ ys)) = set (multi_writes m k xs) \<union> set (multi_writes m k ys)" for xs ys
    by (induction m k xs rule: multi_writes.induct) auto
  from snoc show ?case
    by (cases r) (auto simp: app apply_request_store sm_multi.vals_insert)
qed

lemma apply_batches_concat:
  "apply_batches bs sm = (case sm_apply (concat bs) sm of (r, sm') \<Rightarrow> (case_sum (\<lambda>_. []) id r, sm'))"
proof (induction bs arbitrary: sm)
  case (Cons b bs)
  obtain rs sm' where b: "apply_loop b (state_machine sm) [] = (rs, sm')" by fastforce
  obtain rs' sm'' where bs: "apply_loop (concat bs) sm' [] = (rs', sm'')" by fastforce
  show ?case
    by (simp add: sm_apply_eq Cons.IH apply_loop_append b bs)
qed (simp add: sm_apply_def)

lemma apply_entry_tracks:
  "last_applied_log (snd (apply_entry e s)) = Some (log_id e)"
  "last_membership (snd (apply_entry e s)) =
     (case payload e of
        MembershipChange mem \<Rightarrow> \<lparr>membership_log_id = Some (log_id e), membership = mem\<rparr>
      | _ \<Rightarrow> last_membership s)"
  by (simp_all add: apply_entry_def Let_def split: EntryPayload.split prod.split)

lemma apply_loop_tracks:
  "last_applied_log (snd (apply_loop es s [])) =
     (if es = [] then last_applied_log s else Some (log_id (last es)))"
  "last_membership (snd (apply_loop es s [])) =
     fold (\<lambda>e cur. case payload e of
             MembershipChange mem \<Rightarrow> \<lparr>membership_log_id = Some (log_id e), membership = mem\<rparr>
           | _ \<Rightarrow> cur) es (last_membership s)"
proof (induction es arbitrary: s)
  case (Cons e es)
  {
    case 1
    show ?case using Cons(1) [of "snd (apply_entry e s)"] apply_entry_tracks(1) [of e s]
      by (cases "apply_entry e s") (simp add: apply_loop_acc [of _ _ "[_]"])
  next
    case 2
    show ?case using Cons(2) [of "snd (apply_entry e s)"] apply_entry_tracks(2) [of e s]
      by (cases "apply_entry e s") (simp add: apply_loop_acc [of _ _ "[_]"])
  }
qed simp_all

section \<open>Properties\<close>

text \<open>
  C5 (apply_last_write_wins): after applying any log to a fresh state machine, a key of a map has
  the value of the last insertion of that key that no later clear of the map removed.
\<close>

theorem apply_last_write_wins:
  "get_with_lock m k (snd (sm_apply es StateMachine_default)) = last_write m k (rev (requests es))"
  by (simp add: get_with_lock_def sm_apply_eq apply_loop_data fold_requests_get StateMachine_default_def)

text \<open>
  C19 (apply_multi_values): after applying any log to a fresh state machine, a key of a multi-map
  holds exactly the values inserted for it, each once.
\<close>

theorem apply_multi_values:
  "fset (unwrap_or {||} (get_with_lock_multi m k (snd (sm_apply es StateMachine_default)))) =
     set (multi_writes m k (requests es))"
  by (simp add: get_with_lock_multi_vals sm_apply_eq apply_loop_data fold_requests_vals StateMachine_default_def)



text \<open>
  Applying entries yields one response per entry, moves the applied
  position to the last entry, and the membership is that of the last membership entry, if any.
\<close>

lemma apply_tracks_log:
  assumes "sm_apply es sm = (r, sm')"
  shows "\<exists>res. r = Inr res \<and> length res = length es \<and>
    last_applied_log (state_machine sm') =
      (if es = [] then last_applied_log (state_machine sm) else Some (log_id (last es))) \<and>
    last_membership (state_machine sm') =
      fold (\<lambda>e cur. case payload e of
              MembershipChange mem \<Rightarrow> \<lparr>membership_log_id = Some (log_id e), membership = mem\<rparr>
            | _ \<Rightarrow> cur) es (last_membership (state_machine sm)) \<and>
    snapshot_idx sm' = snapshot_idx sm \<and> current_snapshot sm' = current_snapshot sm"
  using assms by (auto simp: sm_apply_eq apply_loop_length apply_loop_tracks)

text \<open>
  C7 (snapshot_transfer): a snapshot built on one node and installed on any other gives the other
  node the same maps, membership and log position, both nodes keep the same current snapshot, and
  from then on both compute the same responses for the same entries. Building does not change the
  data of the builder.
\<close>

theorem snapshot_transfer:
  assumes "codec_ok to_allocvec from_bytes"
    and "build_snapshot to_allocvec show_leader a = (Inr snap, a')"
    and "install_snapshot from_bytes (snap_meta snap) (snap_data snap) b = (r, b')"
  shows "r = Inr () \<and> state_machine a' = state_machine a \<and> state_machine b' = state_machine a \<and>
    current_snapshot b' = Some snap \<and> current_snapshot a' = Some snap \<and>
    fst (sm_apply es b') = fst (sm_apply es a')"
proof -
  obtain bs where bs: "to_allocvec (the_data a) = Inr bs"
    using assms(2) by (auto simp: build_snapshot_def split: sum.splits)
  with assms(1) have dec: "from_bytes bs = Inr (the_data a)" by (simp add: codec_ok_def)
  have snap: "snap_data snap = bs" "last_log_id (snap_meta snap) = last_applied_log (state_machine a)"
      "meta_last_membership (snap_meta snap) = last_membership (state_machine a)"
      "state_machine a' = state_machine a" "current_snapshot a' = Some snap"
    using assms(2) by (auto simp: build_snapshot_def bs Let_def)
  with assms(3) dec have "r = Inr ()" "state_machine b' = state_machine a" "current_snapshot b' = Some snap"
    by (auto simp: install_snapshot_def Let_def)
  with snap show ?thesis by (simp add: sm_apply_eq)
qed

text \<open>An encoder for the concrete instances: it accepts the empty data only.\<close>

definition example_encode :: "StateMachineData \<Rightarrow> PostcardError + bytes" where
  "example_encode d =
     (if fmdom (maps d) = {||} \<and> fmdom (multi_maps d) = {||} then Inr [0, 0] else Inl 1)"

definition example_decode :: "bytes \<Rightarrow> PostcardError + StateMachineData" where
  "example_decode bs = (if bs = [0, 0] then Inr StateMachineData_default else Inl 2)"

lemma example_codec_ok: "codec_ok example_encode example_decode"
  by (auto simp: codec_ok_def example_encode_def example_decode_def StateMachineData_default_def
      intro!: StateMachineData.equality)

theorem snapshot_transfer_witness:
  "let (r, a') = build_snapshot example_encode (\<lambda>_. ''L'') StateMachine_default;
       snap = projr r
   in snapshot_id (snap_meta snap) = ''--1'' \<and>
      state_machine (snd (install_snapshot example_decode (snap_meta snap) (snap_data snap)
         (snd (sm_apply [entry_of (LogId (LeaderId 1 7) 1) (RaftInsert ''m'' [1] [2])] StateMachine_default)))) =
        state_machine StateMachine_default"
proof -
  have one: "char_of (49::nat) = CHR ''1''" by code_simp
  obtain snap a' where b: "build_snapshot example_encode (\<lambda>_. ''L'') StateMachine_default = (Inr snap, a')"
      and id: "snapshot_id (snap_meta snap) = ''--1''"
    by (auto simp: build_snapshot_def example_encode_def StateMachine_default_def StateMachineData_default_def
        snapshot_id_of_def display_nat.simps display_digit_def Let_def one)
  from snapshot_transfer [OF example_codec_ok b] show ?thesis
    by (simp add: b id) (metis prod.collapse)
qed

text \<open>
  Every successful build advances the 64-bit counter, and two
  snapshots built at different counter values have different identifiers, whatever the display
  of a leader id looks like.
\<close>

lemma snapshot_ids_distinct:
  assumes "build_snapshot enc show_leader sm = (Inr s1, sm1)"
    and "build_snapshot enc show_leader sm2 = (Inr s2, sm3)"
    and "snapshot_idx sm \<noteq> snapshot_idx sm2"
  shows "snapshot_id (snap_meta s1) \<noteq> snapshot_id (snap_meta s2) \<and> snapshot_idx sm1 = snapshot_idx sm + 1"
proof -
  have id: "\<exists>p. snapshot_id_of show_leader l i = p @ CHR ''-'' # display_nat (unat i)" for l and i :: u64
  proof (cases l)
    case (Some a)
    then have "snapshot_id_of show_leader l i =
        (show_leader (leader_id a) @ ''-'' @ display_nat (unat (index a))) @ CHR ''-'' # display_nat (unat i)"
      by (simp add: snapshot_id_of_def)
    then show ?thesis by blast
  next
    case None
    then have "snapshot_id_of show_leader l i = ''-'' @ CHR ''-'' # display_nat (unat i)"
      by (simp add: snapshot_id_of_def)
    then show ?thesis by blast
  qed
  have "snapshot_id_of show_leader l i = snapshot_id_of show_leader l' j \<Longrightarrow> i = j" for l l' i j
    using id [of l i] id [of l' j] split_last_dash by (metis word_unat_eq_iff)
  then have "snapshot_id_of show_leader l (snapshot_idx sm + 1) \<noteq>
      snapshot_id_of show_leader l' (snapshot_idx sm2 + 1)" for l l'
    using assms(3) by (metis add_right_cancel)
  moreover have "snapshot_id (snap_meta s1) =
        snapshot_id_of show_leader (last_applied_log (state_machine sm)) (snapshot_idx sm + 1)"
      "snapshot_id (snap_meta s2) =
        snapshot_id_of show_leader (last_applied_log (state_machine sm2)) (snapshot_idx sm2 + 1)"
      "snapshot_idx sm1 = snapshot_idx sm + 1"
    using assms(1,2) by (auto simp: build_snapshot_def Let_def split: sum.splits)
  ultimately show ?thesis by simp
qed

text \<open>
  Any sequence of insertions, clears, removals, lookups, membership tests and
  length queries on the state machine returns what the same sequence returns on partial
  functions, one per map name, and leaves the corresponding maps.
\<close>

lemma map_ops_refine:
  "run_steps amap_step ops (map_view sm) = apsnd map_view (run_steps sm_step ops sm)"
  by (rule run_steps_simulation) (rule sm_step_simulates)

end
