(* ===== verification/Snapshot_Locking.thy ===== *)
theory Snapshot_Locking
  imports State_Machine
begin

text \<open>
  The locks of the state machine (\<open>raft/state.rs\<close>). \<open>install_snapshot\<close> and \<open>build_snapshot\<close> take the lock on
  the current snapshot before they release the lock on the state machine. Here every acquisition
  and release is a step of its own and any number of tasks interleave. Whoever finds a lock free
  sees a state that the undivided operations of \<open>State_Machine\<close> can reach as well.
\<close>

section \<open>Tasks and locks\<close>

text \<open>Where a task is; the locks it holds follow from it.\<close>

datatype pc =
    Idle
  | Building bytes "LogId option" StoredMembership
  | BuildLocked bytes "LogId option" StoredMembership
  | BuildUnlocked bytes "LogId option" StoredMembership
  | Built StoredSnapshot
  | Installing StateMachineInner StoredSnapshot
  | InstallLocked StoredSnapshot
  | InstallUnlocked StoredSnapshot

fun reads_sm :: "pc \<Rightarrow> bool" where
  "reads_sm (Building _ _ _) = True"
| "reads_sm (BuildLocked _ _ _) = True"
| "reads_sm _ = False"

fun writes_sm :: "pc \<Rightarrow> bool" where
  "writes_sm (Installing _ _) = True"
| "writes_sm (InstallLocked _) = True"
| "writes_sm _ = False"

fun writes_snapshot :: "pc \<Rightarrow> bool" where
  "writes_snapshot (BuildLocked _ _ _) = True"
| "writes_snapshot (BuildUnlocked _ _ _) = True"
| "writes_snapshot (InstallLocked _) = True"
| "writes_snapshot (InstallUnlocked _) = True"
| "writes_snapshot _ = False"

fun active :: "pc \<Rightarrow> bool" where
  "active Idle = False"
| "active (Built _) = False"
| "active _ = True"

record locked =
  lk_sm :: StateMachine
  lk_pc :: "nat \<Rightarrow> pc"

abbreviation lk_inner :: "locked \<Rightarrow> StateMachineInner" where
  "lk_inner s \<equiv> state_machine (lk_sm s)"

definition sm_readable :: "locked \<Rightarrow> bool" where
  "sm_readable s \<longleftrightarrow> (\<forall>t. \<not> writes_sm (lk_pc s t))"

definition sm_writable :: "locked \<Rightarrow> bool" where
  "sm_writable s \<longleftrightarrow> (\<forall>t. \<not> writes_sm (lk_pc s t) \<and> \<not> reads_sm (lk_pc s t))"

definition snapshot_free :: "locked \<Rightarrow> bool" where
  "snapshot_free s \<longleftrightarrow> (\<forall>t. \<not> writes_snapshot (lk_pc s t))"

definition goto :: "nat \<Rightarrow> pc \<Rightarrow> locked \<Rightarrow> locked" where
  "goto t c s = s\<lparr>lk_pc := (lk_pc s)(t := c)\<rparr>"

definition with_inner :: "StateMachineInner \<Rightarrow> locked \<Rightarrow> locked" where
  "with_inner inner s = s\<lparr>lk_sm := (lk_sm s)\<lparr>state_machine := inner\<rparr>\<rparr>"

text \<open>The snapshot that \<open>build_snapshot\<close> writes, and the state that \<open>install_snapshot\<close> writes.\<close>

definition built_snapshot ::
  "(LeaderId \<Rightarrow> string) \<Rightarrow> u64 \<Rightarrow> bytes \<Rightarrow> LogId option \<Rightarrow> StoredMembership \<Rightarrow> StoredSnapshot" where
  "built_snapshot show_leader idx bs la lm =
     \<lparr>snap_meta = \<lparr>last_log_id = la, meta_last_membership = lm, snapshot_id = snapshot_id_of show_leader la idx\<rparr>,
      snap_data = bs\<rparr>"

definition installed :: "StoredSnapshot \<Rightarrow> StateMachineData \<Rightarrow> StateMachineInner" where
  "installed new d = \<lparr>last_applied_log = last_log_id (snap_meta new),
     last_membership = meta_last_membership (snap_meta new), sm_data = d\<rparr>"

section \<open>Steps\<close>

text \<open>
  The first step of an operation takes the lock on the state machine and does what the code does
  before it asks for the second lock; a failed serialization releases the lock without an effect.
\<close>

inductive lock_step ::
  "(StateMachineData \<Rightarrow> PostcardError + bytes) \<Rightarrow> (bytes \<Rightarrow> PostcardError + StateMachineData) \<Rightarrow>
     (LeaderId \<Rightarrow> string) \<Rightarrow> locked \<Rightarrow> nat \<Rightarrow> locked \<Rightarrow> bool"
  for enc dec show_leader where
  build_start: "lk_pc s t = Idle \<Longrightarrow> sm_readable s \<Longrightarrow> enc (sm_data (lk_inner s)) = Inr bs \<Longrightarrow>
    lock_step enc dec show_leader s t
      (goto t (Building bs (last_applied_log (lk_inner s)) (last_membership (lk_inner s))) s)"
| build_lock: "lk_pc s t = Building bs la lm \<Longrightarrow> snapshot_free s \<Longrightarrow>
    lock_step enc dec show_leader s t (goto t (BuildLocked bs la lm) s)"
| build_unlock: "lk_pc s t = BuildLocked bs la lm \<Longrightarrow>
    lock_step enc dec show_leader s t (goto t (BuildUnlocked bs la lm) s)"
| build_finish: "lk_pc s t = BuildUnlocked bs la lm \<Longrightarrow> snap = built_snapshot show_leader (snapshot_idx (lk_sm s) + 1) bs la lm \<Longrightarrow>
    lock_step enc dec show_leader s t
      (goto t (Built snap) (s\<lparr>lk_sm := (lk_sm s)\<lparr>snapshot_idx := snapshot_idx (lk_sm s) + 1, current_snapshot := Some snap\<rparr>\<rparr>))"
| built: "lk_pc s t = Built snap \<Longrightarrow> lock_step enc dec show_leader s t (goto t Idle s)"
| install_start: "lk_pc s t = Idle \<Longrightarrow> sm_writable s \<Longrightarrow> dec (snap_data new) = Inr d \<Longrightarrow>
    lock_step enc dec show_leader s t (goto t (Installing (lk_inner s) new) (with_inner (installed new d) s))"
| install_lock: "lk_pc s t = Installing old new \<Longrightarrow> snapshot_free s \<Longrightarrow>
    lock_step enc dec show_leader s t (goto t (InstallLocked new) s)"
| install_unlock: "lk_pc s t = InstallLocked new \<Longrightarrow>
    lock_step enc dec show_leader s t (goto t (InstallUnlocked new) s)"
| install_finish: "lk_pc s t = InstallUnlocked new \<Longrightarrow>
    lock_step enc dec show_leader s t (goto t Idle (s\<lparr>lk_sm := (lk_sm s)\<lparr>current_snapshot := Some new\<rparr>\<rparr>))"
| apply_entries: "lk_pc s t = Idle \<Longrightarrow> sm_writable s \<Longrightarrow>
    lock_step enc dec show_leader s t (with_inner (state_machine (snd (sm_apply es (lk_sm s)))) s)"
| remove_key: "lk_pc s t = Idle \<Longrightarrow> sm_writable s \<Longrightarrow>
    lock_step enc dec show_leader s t (with_inner (state_machine (snd (sm_remove m k (lk_sm s)))) s)"
| remove_value: "lk_pc s t = Idle \<Longrightarrow> sm_writable s \<Longrightarrow>
    lock_step enc dec show_leader s t (with_inner (state_machine (snd (remove_multi_value m k v (lk_sm s)))) s)"

inductive_cases lock_stepE: "lock_step enc dec show_leader s t s'"

inductive lock_reachable ::
  "(StateMachineData \<Rightarrow> PostcardError + bytes) \<Rightarrow> (bytes \<Rightarrow> PostcardError + StateMachineData) \<Rightarrow>
     (LeaderId \<Rightarrow> string) \<Rightarrow> locked \<Rightarrow> bool"
  for enc dec show_leader where
  start: "lock_reachable enc dec show_leader \<lparr>lk_sm = StateMachine_default, lk_pc = \<lambda>_. Idle\<rparr>"
| step: "lock_reachable enc dec show_leader s \<Longrightarrow> lock_step enc dec show_leader s t s' \<Longrightarrow>
    lock_reachable enc dec show_leader s'"

text \<open>The undivided operations.\<close>

inductive atomic_step ::
  "(StateMachineData \<Rightarrow> PostcardError + bytes) \<Rightarrow> (bytes \<Rightarrow> PostcardError + StateMachineData) \<Rightarrow>
     (LeaderId \<Rightarrow> string) \<Rightarrow> StateMachine \<Rightarrow> StateMachine \<Rightarrow> bool"
  for enc dec show_leader where
  build: "build_snapshot enc show_leader a = (r, a') \<Longrightarrow> atomic_step enc dec show_leader a a'"
| install: "install_snapshot dec meta bs a = (r, a') \<Longrightarrow> atomic_step enc dec show_leader a a'"
| apply_entries: "sm_apply es a = (r, a') \<Longrightarrow> atomic_step enc dec show_leader a a'"
| remove_key: "sm_remove m k a = (r, a') \<Longrightarrow> atomic_step enc dec show_leader a a'"
| remove_value: "remove_multi_value m k v a = (r, a') \<Longrightarrow> atomic_step enc dec show_leader a a'"

inductive atomic_reachable ::
  "(StateMachineData \<Rightarrow> PostcardError + bytes) \<Rightarrow> (bytes \<Rightarrow> PostcardError + StateMachineData) \<Rightarrow>
     (LeaderId \<Rightarrow> string) \<Rightarrow> StateMachine \<Rightarrow> bool"
  for enc dec show_leader where
  start: "atomic_reachable enc dec show_leader StateMachine_default"
| step: "atomic_reachable enc dec show_leader a \<Longrightarrow> atomic_step enc dec show_leader a a' \<Longrightarrow>
    atomic_reachable enc dec show_leader a'"

section \<open>Simulation\<close>

text \<open>What a task that holds the lock on the snapshot is going to write.\<close>

fun pending :: "(LeaderId \<Rightarrow> string) \<Rightarrow> u64 \<Rightarrow> pc \<Rightarrow> (u64 \<times> StoredSnapshot) option" where
  "pending show_leader idx (BuildLocked bs la lm) = Some (idx + 1, built_snapshot show_leader (idx + 1) bs la lm)"
| "pending show_leader idx (BuildUnlocked bs la lm) = Some (idx + 1, built_snapshot show_leader (idx + 1) bs la lm)"
| "pending show_leader idx (InstallLocked new) = Some (idx, new)"
| "pending show_leader idx (InstallUnlocked new) = Some (idx, new)"
| "pending show_leader idx _ = None"

text \<open>What a task knows about the state while it holds the lock on it.\<close>

fun task_ok ::
  "(StateMachineData \<Rightarrow> PostcardError + bytes) \<Rightarrow> (bytes \<Rightarrow> PostcardError + StateMachineData) \<Rightarrow>
     StateMachineInner \<Rightarrow> pc \<Rightarrow> bool" where
  "task_ok enc dec inner (Building bs la lm) =
     (enc (sm_data inner) = Inr bs \<and> la = last_applied_log inner \<and> lm = last_membership inner)"
| "task_ok enc dec inner (BuildLocked bs la lm) =
     (enc (sm_data inner) = Inr bs \<and> la = last_applied_log inner \<and> lm = last_membership inner)"
| "task_ok enc dec inner (Installing old new) = (\<exists>d. dec (snap_data new) = Inr d \<and> inner = installed new d)"
| "task_ok enc dec inner _ = True"

definition lock_inv ::
  "(StateMachineData \<Rightarrow> PostcardError + bytes) \<Rightarrow> (bytes \<Rightarrow> PostcardError + StateMachineData) \<Rightarrow> locked \<Rightarrow> bool" where
  "lock_inv enc dec s \<longleftrightarrow>
     (\<forall>t u. t \<noteq> u \<longrightarrow> writes_sm (lk_pc s t) \<longrightarrow> \<not> writes_sm (lk_pc s u) \<and> \<not> reads_sm (lk_pc s u)) \<and>
     (\<forall>t u. writes_snapshot (lk_pc s t) \<longrightarrow> writes_snapshot (lk_pc s u) \<longrightarrow> t = u) \<and>
     (\<forall>t. task_ok enc dec (lk_inner s) (lk_pc s t))"

text \<open>
  The state between two undivided operations that a state with tasks stands for: the old state
  while an installation waits for its second lock, and the pending snapshot once it has it.
\<close>

definition lock_rel :: "(LeaderId \<Rightarrow> string) \<Rightarrow> locked \<Rightarrow> StateMachine \<Rightarrow> bool" where
  "lock_rel show_leader s a \<longleftrightarrow>
     (\<forall>t old new. lk_pc s t = Installing old new \<longrightarrow> state_machine a = old) \<and>
     ((\<nexists>t old new. lk_pc s t = Installing old new) \<longrightarrow> state_machine a = lk_inner s) \<and>
     (\<forall>t idx snap. pending show_leader (snapshot_idx (lk_sm s)) (lk_pc s t) = Some (idx, snap) \<longrightarrow>
        snapshot_idx a = idx \<and> current_snapshot a = Some snap) \<and>
     (snapshot_free s \<longrightarrow> snapshot_idx a = snapshot_idx (lk_sm s) \<and> current_snapshot a = current_snapshot (lk_sm s))"

lemma pending_iff: "pending show_leader idx c = None \<longleftrightarrow> \<not> writes_snapshot c"
  by (cases c) simp_all

lemma goto_simps [simp]:
  "lk_sm (goto t c s) = lk_sm s" "lk_pc (goto t c s) = (lk_pc s)(t := c)"
  "lk_sm (with_inner inner s) = (lk_sm s)\<lparr>state_machine := inner\<rparr>" "lk_pc (with_inner inner s) = lk_pc s"
  by (simp_all add: goto_def with_inner_def)

lemma task_ok_outside: "\<not> reads_sm c \<Longrightarrow> \<not> writes_sm c \<Longrightarrow> task_ok enc dec inner c"
  by (cases c) simp_all

lemmas lock_free_defs = sm_readable_def sm_writable_def snapshot_free_def

lemma exclusive_step:
  assumes "lock_step enc dec show_leader s t s'"
    and "\<forall>t u. t \<noteq> u \<longrightarrow> writes_sm (lk_pc s t) \<longrightarrow> \<not> writes_sm (lk_pc s u) \<and> \<not> reads_sm (lk_pc s u)"
  shows "\<forall>t u. t \<noteq> u \<longrightarrow> writes_sm (lk_pc s' t) \<longrightarrow> \<not> writes_sm (lk_pc s' u) \<and> \<not> reads_sm (lk_pc s' u)"
  using assms by cases (auto simp: lock_free_defs; metis reads_sm.simps writes_sm.simps)+

lemma snapshot_exclusive_step:
  assumes "lock_step enc dec show_leader s t s'"
    and "\<forall>t u. writes_snapshot (lk_pc s t) \<longrightarrow> writes_snapshot (lk_pc s u) \<longrightarrow> t = u"
  shows "\<forall>t u. writes_snapshot (lk_pc s' t) \<longrightarrow> writes_snapshot (lk_pc s' u) \<longrightarrow> t = u"
  using assms by cases (auto simp: lock_free_defs; metis writes_snapshot.simps)+

lemma task_ok_step:
  assumes "lock_step enc dec show_leader s t s'" "\<forall>t. task_ok enc dec (lk_inner s) (lk_pc s t)"
  shows "task_ok enc dec (lk_inner s') (lk_pc s' u)"
  using assms
proof cases
  case (build_lock bs la lm)
  with assms(2) show ?thesis by simp (metis task_ok.simps(1))
next
  case (install_lock old new)
  with assms(2) show ?thesis by simp
qed (simp_all add: task_ok_outside lock_free_defs)

lemma lock_inv_step: "lock_step enc dec show_leader s t s' \<Longrightarrow> lock_inv enc dec s \<Longrightarrow> lock_inv enc dec s'"
  unfolding lock_inv_def using exclusive_step snapshot_exclusive_step task_ok_step by meson

lemma lock_inv_reachable: "lock_reachable enc dec show_leader s \<Longrightarrow> lock_inv enc dec s"
  by (induction rule: lock_reachable.induct) (simp add: lock_inv_def, blast intro: lock_inv_step)

lemma lock_rel_inner:
  assumes "lock_rel show_leader s a" "sm_readable s"
  shows "state_machine a = lk_inner s"
  using assms unfolding lock_rel_def sm_readable_def by (metis writes_sm.simps(1))

text \<open>Undivided writes commute with the abstraction: they only look at the state under the lock.\<close>

lemma lock_rel_write:
  assumes "lock_rel show_leader s a" "sm_writable s"
  shows "lock_rel show_leader (with_inner inner s) (a\<lparr>state_machine := inner\<rparr>)"
proof -
  have "lk_pc s t \<noteq> Installing old new" for t old new
    using assms(2) unfolding sm_writable_def by (metis writes_sm.simps(1))
  with assms(1) show ?thesis by (simp add: lock_rel_def snapshot_free_def)
qed

lemma atomic_writes:
  assumes "state_machine a = lk_inner s"
  shows "sm_apply es a = (fst (sm_apply es a), a\<lparr>state_machine := state_machine (snd (sm_apply es (lk_sm s)))\<rparr>)"
    "sm_remove m k a = (fst (sm_remove m k a), a\<lparr>state_machine := state_machine (snd (sm_remove m k (lk_sm s)))\<rparr>)"
    "remove_multi_value m k v a =
       (fst (remove_multi_value m k v a), a\<lparr>state_machine := state_machine (snd (remove_multi_value m k v (lk_sm s)))\<rparr>)"
  using assms by (simp_all add: sm_apply_def sm_remove_def remove_multi_value_def split: prod.split)

text \<open>A step that only moves a task, without taking a lock that matters to the abstraction.\<close>

lemma lock_rel_goto:
  assumes "lock_rel show_leader s a"
    and "pending show_leader (snapshot_idx (lk_sm s)) c = pending show_leader (snapshot_idx (lk_sm s)) (lk_pc s t)"
    and "\<And>old new. c \<noteq> Installing old new" "\<And>old new. lk_pc s t \<noteq> Installing old new"
  shows "lock_rel show_leader (goto t c s) a"
proof -
  have "snapshot_free (goto t c s) = snapshot_free s"
    using assms(2) unfolding snapshot_free_def by (simp add: pending_iff [symmetric, where show_leader = show_leader and idx = "snapshot_idx (lk_sm s)"]) metis
  with assms show ?thesis
    unfolding lock_rel_def by (simp split: if_splits) metis
qed

lemma lock_rel_build_lock:
  assumes "lock_inv enc dec s" "lock_rel show_leader s a" "lk_pc s t = Building bs la lm" "snapshot_free s"
  shows "lock_rel show_leader (goto t (BuildLocked bs la lm) s) (snd (build_snapshot enc show_leader a))"
proof -
  have "task_ok enc dec (lk_inner s) (lk_pc s t)" using assms(1) by (simp add: lock_inv_def)
  then have ok: "enc (sm_data (lk_inner s)) = Inr bs" "la = last_applied_log (lk_inner s)" "lm = last_membership (lk_inner s)"
    by (simp_all add: assms(3))
  have "sm_readable s"
    using assms(1,3) unfolding lock_inv_def sm_readable_def by (metis reads_sm.simps(1) writes_sm.simps(4))
  then have inner: "state_machine a = lk_inner s" "\<And>u old new. lk_pc s u \<noteq> Installing old new"
    using lock_rel_inner [OF assms(2)] unfolding sm_readable_def by (simp, metis writes_sm.simps(1))
  have "snapshot_idx a = snapshot_idx (lk_sm s)" using assms(2,4) by (simp add: lock_rel_def)
  with ok inner assms(4) show ?thesis
    by (auto simp: lock_rel_def build_snapshot_def Let_def built_snapshot_def snapshot_free_def
        pending_iff [symmetric, where show_leader = show_leader and idx = "snapshot_idx (lk_sm s)"])
qed

lemma lock_rel_install_lock:
  assumes "lock_inv enc dec s" "lock_rel show_leader s a" "lk_pc s t = Installing old new" "snapshot_free s"
  shows "lock_rel show_leader (goto t (InstallLocked new) s)
    (snd (install_snapshot dec (snap_meta new) (snap_data new) a))"
proof -
  have "task_ok enc dec (lk_inner s) (lk_pc s t)" using assms(1) by (simp add: lock_inv_def)
  then obtain d where d: "dec (snap_data new) = Inr d" "lk_inner s = installed new d" by (auto simp: assms(3))
  have "lk_pc s u \<noteq> Installing old' new'" if "u \<noteq> t" for u old' new'
    using assms(1,3) that unfolding lock_inv_def by (metis writes_sm.simps(1))
  moreover have "snapshot_idx a = snapshot_idx (lk_sm s)" using assms(2,4) by (simp add: lock_rel_def)
  ultimately show ?thesis
    using d assms(4)
    by (auto simp: lock_rel_def install_snapshot_def Let_def installed_def snapshot_free_def
        pending_iff [symmetric, where show_leader = show_leader and idx = "snapshot_idx (lk_sm s)"])
qed

lemma lock_rel_finish:
  assumes "lock_inv enc dec s" "lock_rel show_leader s a" "\<not> writes_snapshot c" "\<And>old new. c \<noteq> Installing old new"
    and "pending show_leader (snapshot_idx (lk_sm s)) (lk_pc s t) = Some (idx, snap)"
    and "\<And>old new. lk_pc s t \<noteq> Installing old new"
  shows "lock_rel show_leader (goto t c (s\<lparr>lk_sm := (lk_sm s)\<lparr>snapshot_idx := idx, current_snapshot := Some snap\<rparr>\<rparr>)) a"
proof -
  have "writes_snapshot (lk_pc s t)" using assms(5) pending_iff by (metis option.distinct(1))
  then have "\<not> writes_snapshot (lk_pc s u)" if "u \<noteq> t" for u
    using assms(1) that unfolding lock_inv_def by metis
  then have "pending show_leader i (lk_pc s u) = None" if "u \<noteq> t" for u i using that by (simp add: pending_iff)
  moreover have "pending show_leader i c = None" for i using assms(3) by (simp add: pending_iff)
  ultimately show ?thesis
    using assms(2,4,5,6) unfolding lock_rel_def by (auto split: if_splits; metis)
qed

lemma lock_rel_install_start:
  assumes "lock_rel show_leader s a" "sm_writable s" "lk_pc s t = Idle"
  shows "lock_rel show_leader (goto t (Installing (lk_inner s) new) (with_inner inner s)) a"
proof -
  have "lk_pc s u \<noteq> Installing old new'" for u old new'
    using assms(2) unfolding sm_writable_def by (metis writes_sm.simps(1))
  moreover have "snapshot_free (goto t (Installing (lk_inner s) new) (with_inner inner s)) \<Longrightarrow> snapshot_free s"
    using assms(3) unfolding snapshot_free_def by (metis fun_upd_other goto_simps(2,4) writes_snapshot.simps(5))
  ultimately show ?thesis using assms by (auto simp: lock_rel_def split: if_splits)
qed

lemma lock_simulation:
  assumes "lock_step enc dec show_leader s t s'" "lock_inv enc dec s" "lock_rel show_leader s a"
  shows "\<exists>a'. lock_rel show_leader s' a' \<and> (a' = a \<or> atomic_step enc dec show_leader a a')"
  using assms(1)
proof cases
  case (build_start bs)
  with assms(3) have "lock_rel show_leader s' a" by (auto intro: lock_rel_goto)
  then show ?thesis by blast
next
  case (build_lock bs la lm)
  with lock_rel_build_lock [OF assms(2,3) build_lock(2,3)] show ?thesis
    using atomic_step.build [of enc show_leader a] by (metis prod.collapse)
next
  case (build_unlock bs la lm)
  with assms(3) have "lock_rel show_leader s' a" by (auto intro: lock_rel_goto)
  then show ?thesis by blast
next
  case (build_finish bs la lm snap)
  have "lock_rel show_leader s' a"
    unfolding build_finish(1)
    by (rule lock_rel_finish [OF assms(2,3)]) (simp_all add: build_finish)
  then show ?thesis by blast
next
  case (built snap)
  with assms(3) have "lock_rel show_leader s' a" by (auto intro: lock_rel_goto)
  then show ?thesis by blast
next
  case (install_start new d)
  with lock_rel_install_start [OF assms(3) install_start(3,2)] show ?thesis by blast
next
  case (install_lock old new)
  with lock_rel_install_lock [OF assms(2,3) install_lock(2,3)] show ?thesis
    using atomic_step.install [of dec "snap_meta new" "snap_data new" a] by (metis prod.collapse)
next
  case (install_unlock new)
  with assms(3) have "lock_rel show_leader s' a" by (auto intro: lock_rel_goto)
  then show ?thesis by blast
next
  case (install_finish new)
  have "lock_rel show_leader (goto t Idle
      (s\<lparr>lk_sm := (lk_sm s)\<lparr>snapshot_idx := snapshot_idx (lk_sm s), current_snapshot := Some new\<rparr>\<rparr>)) a"
    by (rule lock_rel_finish [OF assms(2,3)]) (simp_all add: install_finish)
  then show ?thesis unfolding install_finish(1) by auto
next
  case (apply_entries es)
  then have "state_machine a = lk_inner s"
    using lock_rel_inner [OF assms(3)] by (simp add: lock_free_defs)
  with apply_entries lock_rel_write [OF assms(3) apply_entries(3)] show ?thesis
    using atomic_step.apply_entries [OF atomic_writes(1)] by metis
next
  case (remove_key m k)
  then have "state_machine a = lk_inner s"
    using lock_rel_inner [OF assms(3)] by (simp add: lock_free_defs)
  with remove_key lock_rel_write [OF assms(3) remove_key(3)] show ?thesis
    using atomic_step.remove_key [OF atomic_writes(2)] by metis
next
  case (remove_value m k v)
  then have "state_machine a = lk_inner s"
    using lock_rel_inner [OF assms(3)] by (simp add: lock_free_defs)
  with remove_value lock_rel_write [OF assms(3) remove_value(3)] show ?thesis
    using atomic_step.remove_value [OF atomic_writes(3)] by metis
qed

lemma lock_reachable_rel:
  "lock_reachable enc dec show_leader s \<Longrightarrow> \<exists>a. atomic_reachable enc dec show_leader a \<and> lock_rel show_leader s a"
proof (induction rule: lock_reachable.induct)
  case start
  have "lock_rel show_leader \<lparr>lk_sm = StateMachine_default, lk_pc = \<lambda>_. Idle\<rparr> StateMachine_default"
    by (simp add: lock_rel_def)
  then show ?case by (blast intro: atomic_reachable.start)
next
  case (step s t s')
  then show ?case
    using lock_simulation [OF step.hyps(2) lock_inv_reachable [OF step.hyps(1)]] by (metis atomic_reachable.step)
qed

section \<open>Properties\<close>

text \<open>
  C8 (snapshot_locking_linearizable): however the tasks that apply entries, remove keys, build
  snapshots and install snapshots interleave, there is an order of the undivided operations such
  that a task that finds the lock on the state machine free sees the state of that order, and a task
  that finds the lock on the current snapshot free sees its snapshot and its counter. A snapshot
  that was overtaken is never left as the current one.
\<close>

theorem snapshot_locking_linearizable:
  assumes "lock_reachable enc dec show_leader s"
  shows "\<exists>a. atomic_reachable enc dec show_leader a \<and>
    (sm_readable s \<longrightarrow> state_machine a = state_machine (lk_sm s)) \<and>
    (snapshot_free s \<longrightarrow> current_snapshot a = current_snapshot (lk_sm s) \<and> snapshot_idx a = snapshot_idx (lk_sm s)) \<and>
    (sm_readable s \<longrightarrow> snapshot_free s \<longrightarrow> a = lk_sm s)"
proof -
  obtain a where a: "atomic_reachable enc dec show_leader a" "lock_rel show_leader s a"
    using lock_reachable_rel [OF assms] by blast
  have "sm_readable s \<Longrightarrow> state_machine a = lk_inner s" by (rule lock_rel_inner [OF a(2)])
  moreover have "snapshot_free s \<Longrightarrow> current_snapshot a = current_snapshot (lk_sm s) \<and> snapshot_idx a = snapshot_idx (lk_sm s)"
    using a(2) by (simp add: lock_rel_def)
  ultimately show ?thesis using a(1) by (intro exI [of _ a]) (auto intro: StateMachine.equality)
qed

theorem snapshot_locking_linearizable_witness:
  "\<exists>s. lock_reachable example_encode example_decode (\<lambda>_. ''L'') s \<and> \<not> snapshot_free s \<and> sm_readable s \<and>
     (\<exists>a. atomic_reachable example_encode example_decode (\<lambda>_. ''L'') a \<and> state_machine a = state_machine (lk_sm s))"
proof -
  let ?s0 = "\<lparr>lk_sm = StateMachine_default, lk_pc = \<lambda>_. Idle\<rparr>"
  let ?m = "last_membership (lk_inner ?s0)"
  let ?s1 = "goto 0 (Building [0, 0] None ?m) ?s0"
  let ?s2 = "goto 0 (BuildLocked [0, 0] None ?m) ?s1"
  have "lock_step example_encode example_decode (\<lambda>_. ''L'') ?s0 0 ?s1"
    using lock_step.build_start [of ?s0 0 example_encode "[0, 0]" example_decode "\<lambda>_. ''L''"]
    by (simp add: sm_readable_def example_encode_def StateMachine_default_def StateMachineData_default_def)
  moreover have "lock_step example_encode example_decode (\<lambda>_. ''L'') ?s1 0 ?s2"
    by (rule lock_step.build_lock) (auto simp: snapshot_free_def)
  ultimately have r: "lock_reachable example_encode example_decode (\<lambda>_. ''L'') ?s2"
    by (blast intro: lock_reachable.intros)
  have "sm_readable ?s2" "\<not> snapshot_free ?s2" by (auto simp: sm_readable_def snapshot_free_def)
  with snapshot_locking_linearizable [OF r] r show ?thesis by blast
qed

text \<open>
  C25 (snapshot_locking_no_deadlock): as long as some task is inside \<open>build_snapshot\<close> or
  \<open>install_snapshot\<close>, one of the tasks that are inside can take its next step: the two locks are
  always taken in the same order, so the tasks never wait for each other in a circle.
\<close>

theorem snapshot_locking_no_deadlock:
  assumes "active (lk_pc s t)"
  shows "\<exists>u s'. active (lk_pc s u) \<and> lock_step enc dec show_leader s u s'"
proof (cases "snapshot_free s")
  case True
  with assms have "\<not> writes_snapshot (lk_pc s t)" by (simp add: snapshot_free_def)
  with assms True have "\<exists>s'. lock_step enc dec show_leader s t s'"
    by (cases "lk_pc s t") (auto intro: lock_step.build_lock lock_step.install_lock)
  with assms show ?thesis by blast
next
  case False
  then obtain u where "writes_snapshot (lk_pc s u)" by (auto simp: snapshot_free_def)
  then have "\<exists>s'. lock_step enc dec show_leader s u s'" "active (lk_pc s u)"
    by (cases "lk_pc s u"; auto intro: lock_step.build_unlock lock_step.build_finish [OF _ refl]
        lock_step.install_unlock lock_step.install_finish)+
  then show ?thesis by blast
qed

theorem snapshot_locking_no_deadlock_witness:
  "\<exists>u s'. active (lk_pc (goto 3 (Building [0] None StoredMembership_default)
       \<lparr>lk_sm = StateMachine_default, lk_pc = (\<lambda>_. Idle)(4 := BuildUnlocked [1] None StoredMembership_default)\<rparr>) u) \<and>
     lock_step example_encode example_decode (\<lambda>_. ''L'') (goto 3 (Building [0] None StoredMembership_default)
       \<lparr>lk_sm = StateMachine_default, lk_pc = (\<lambda>_. Idle)(4 := BuildUnlocked [1] None StoredMembership_default)\<rparr>) u s'"
  by (rule snapshot_locking_no_deadlock [where t = 3]) simp

end
