(* ===== verification/Heartbeat.thy ===== *)
theory Heartbeat
  imports Raft_Types
begin

text \<open>
  The heartbeat monitor (\<open>raft/heartbeat.rs\<close>): when each node was last contacted. The reading of
  the clock that \<open>Instant::now\<close> returns is an argument.
\<close>

record HeartbeatMonitor =
  hm_last_seen :: "(NodeId, instant) fmap"

definition HeartbeatMonitor_default :: HeartbeatMonitor where
  "HeartbeatMonitor_default = \<lparr>hm_last_seen = fmempty\<rparr>"

definition on_heartbeat :: "instant \<Rightarrow> NodeId \<Rightarrow> HeartbeatMonitor \<Rightarrow> HeartbeatMonitor" where
  "on_heartbeat now i hm = hm\<lparr>hm_last_seen := fmupd i now (hm_last_seen hm)\<rparr>"

text \<open>\<open>entry(id).or_insert_with(Instant::now)\<close>: a node not seen yet counts as seen now.\<close>

definition last_seen :: "instant \<Rightarrow> NodeId \<Rightarrow> HeartbeatMonitor \<Rightarrow> instant \<times> HeartbeatMonitor" where
  "last_seen now i hm =
     (case fmlookup (hm_last_seen hm) i of
        Some t \<Rightarrow> (t, hm)
      | None \<Rightarrow> (now, hm\<lparr>hm_last_seen := fmupd i now (hm_last_seen hm)\<rparr>))"

definition hm_retain :: "(NodeId \<Rightarrow> bool) \<Rightarrow> HeartbeatMonitor \<Rightarrow> HeartbeatMonitor" where
  "hm_retain predicate hm = hm\<lparr>hm_last_seen := fmfilter predicate (hm_last_seen hm)\<rparr>"

text \<open>The time recorded for a node, and the nodes the monitor knows.\<close>

definition seen_at :: "HeartbeatMonitor \<Rightarrow> NodeId \<Rightarrow> instant option" where
  "seen_at hm i = fmlookup (hm_last_seen hm) i"

lemma seen_at_simps [simp]:
  "seen_at HeartbeatMonitor_default j = None"
  "seen_at (on_heartbeat now i hm) j = (if i = j then Some now else seen_at hm j)"
  "seen_at (hm_retain P hm) j = (if P j then seen_at hm j else None)"
  by (simp_all add: seen_at_def HeartbeatMonitor_default_def on_heartbeat_def hm_retain_def)

lemma last_seen_fst: "fst (last_seen now i hm) = unwrap_or now (seen_at hm i)"
  by (simp add: last_seen_def seen_at_def split: option.split)

lemma last_seen_snd:
  "seen_at (snd (last_seen now i hm)) j =
     (if i = j then Some (unwrap_or now (seen_at hm i)) else seen_at hm j)"
  by (auto simp: last_seen_def seen_at_def split: option.split)

end
