(* ===== verification/Messages.thy ===== *)
theory Messages
  imports Raft_Types "HOL-Library.Countable"
begin

text \<open>
  The messages between nodes (\<open>connection/message.rs\<close>) and the read consistency levels
  (\<open>collections/mod.rs\<close>). Raft's own messages are tokens.
\<close>

datatype ReadConsistency = Stale | LeaderStale | LeaseRead | ReadIndex

type_synonym AppendEntriesRequest = token
type_synonym AppendEntriesResponse = token
type_synonym VoteRequest = token
type_synonym VoteResponse = token

datatype RequestBody =
    ReqAddLearner NodeId Node bool
  | ReqChangeMembership ChangeMembers bool
  | ReqAppend AppendEntriesRequest
  | ReqVote VoteRequest
  | ReqContainsKey string bytes ReadConsistency
  | ReqInsert string bytes bytes
  | ReqInsertMulti string bytes bytes
  | ReqGet string bytes ReadConsistency
  | ReqGetMulti string bytes ReadConsistency
  | ReqRemove string bytes
  | ReqRemoveMulti string bytes bytes
  | ReqLen string ReadConsistency
  | ReqClear string

record Request =
  req_target_id :: "NodeId option"
  req_body :: RequestBody

datatype Response =
    RAddLearner ClientWriteResponse
  | RClientWrite ClientWriteResponse
  | RAppend AppendEntriesResponse
  | RVote VoteResponse
  | RContainsKey bool
  | RGet "bytes option"
  | RGetMulti "bytes list option"
  | RRemove "bytes option"
  | RRemoveMulti bool
  | RLen "nat option"
  | RClear

type_synonym reply = "RemoteError + Response"

text \<open>
  postcard, as the connection code uses it: requests from client to server, replies back.
\<close>

record postcard =
  enc_request :: "Request \<Rightarrow> PostcardError + bytes"
  dec_request :: "bytes \<Rightarrow> PostcardError + Request"
  enc_reply :: "reply \<Rightarrow> PostcardError + bytes"
  dec_reply :: "bytes \<Rightarrow> PostcardError + reply"

text \<open>
  Every value a reply is made of belongs to a countable type, so replies have an injective encoding
  as byte strings: a codec that decodes what it encodes exists.
\<close>

instance IpAddr :: countable by countable_datatype

instance SocketAddr :: countable by countable_datatype

instance LeaderId :: countable by countable_datatype

instance LogId :: countable by countable_datatype

instance RaftResponse :: countable by countable_datatype

instance Node_ext :: (countable) countable
  by (rule countable_classI [of "\<lambda>x. to_nat (node_addr x, node_server_name x, Node.more x)"]) simp

instance Membership_ext :: (countable) countable
  by (rule countable_classI [of "\<lambda>x. to_nat (joint_config x, voter_ids x, learner_ids x, mem_nodes x, Membership.more x)"])
    simp

instance ClientWriteResponse_ext :: (countable) countable
  by (rule countable_classI [of "\<lambda>x. to_nat (cw_log_id x, cw_data x, cw_membership x, ClientWriteResponse.more x)"]) simp

instance ForwardToLeader_ext :: (countable) countable
  by (rule countable_classI [of "\<lambda>x. to_nat (ftl_leader_id x, ftl_leader_node x, ForwardToLeader.more x)"]) simp

instance ClientWriteError :: countable by countable_datatype

instance CheckIsLeaderError :: countable by countable_datatype

instance RaftError :: (countable) countable by countable_datatype

instance RaftFatal :: countable by countable_datatype

instance RemoteError :: countable by countable_datatype

instance Response :: countable by countable_datatype

text \<open>A reply as a byte string whose length is its number.\<close>

definition unary_enc :: "'a::countable \<Rightarrow> PostcardError + bytes" where
  "unary_enc x = Inr (replicate (Suc (to_nat x)) 0)"

definition unary_dec :: "bytes \<Rightarrow> PostcardError + 'a::countable" where
  "unary_dec b = (if b = [] then Inl 0 else Inr (from_nat (length b - 1)))"

lemma unary_round_trip: "unary_enc x = Inr b \<Longrightarrow> unary_dec b = Inr x"
  by (auto simp: unary_enc_def unary_dec_def)

end
