(* ===== verification/Node_Process.thy ===== *)
theory Node_Process
  imports State_Machine Heartbeat Messages
begin

text \<open>
  The state of one node of the cluster, and the third-party interfaces it runs on.

  A node shares its state machine, heartbeat monitor and connection cache between its tasks
  (\<open>Arc\<close>); openraft keeps its own state \<open>'r\<close>, and \<open>'q\<close> is everything outside the process that
  quinn talks to: the QUIC endpoint, the network and the other nodes. openraft and quinn are
  records of functions on this state. Each may change any part of it, because other tasks run
  while a call is awaited: \<open>client_write\<close>, for instance, applies entries to the state machine and
  makes openraft send messages through the connection cache.
\<close>

type_synonym conn = nat
type_synonym stream = nat

text \<open>The background tasks that \<open>Cluster::spawn\<close> starts.\<close>

datatype task = AcceptConnections | GracefulShutdown | WatchMembership | DetectFailures | MainLoop

record ('r, 'q) process =
  raft_core :: 'r
  p_sm :: StateMachine
  p_monitor :: HeartbeatMonitor
  connections :: "(SocketAddr, conn) fmap"
  watchers :: "(SocketAddr \<times> conn) list"
  p_tasks :: "task list"
  quic :: 'q

record RaftServerMetrics =
  srv_id :: NodeId
  srv_state :: ServerState

text \<open>The openraft API the sources call (\<open>openraft::Raft\<close>).\<close>

record ('r, 'q) openraft =
  r_client_write :: "RaftRequest \<Rightarrow> (('r, 'q) process, ClientWriteError RaftError, ClientWriteResponse) io"
  r_add_learner :: "NodeId \<Rightarrow> Node \<Rightarrow> bool \<Rightarrow>
    (('r, 'q) process, ClientWriteError RaftError, ClientWriteResponse) io"
  r_change_membership :: "ChangeMembers \<Rightarrow> bool \<Rightarrow>
    (('r, 'q) process, ClientWriteError RaftError, ClientWriteResponse) io"
  r_append_entries :: "AppendEntriesRequest \<Rightarrow> (('r, 'q) process, RaftFatal, AppendEntriesResponse) io"
  r_vote :: "VoteRequest \<Rightarrow> (('r, 'q) process, RaftFatal, VoteResponse) io"
  r_ensure_linearizable :: "(('r, 'q) process, CheckIsLeaderError RaftError, unit) io"
  r_current_leader :: "('r, 'q) process \<Rightarrow> NodeId option \<times> ('r, 'q) process"
  r_metrics :: "('r, 'q) process \<Rightarrow> RaftMetrics"
  r_server_metrics :: "('r, 'q) process \<Rightarrow> RaftServerMetrics"
  r_shutdown :: "(('r, 'q) process, token, unit) io"

text \<open>
  The quinn API the sources call. \<open>q_connect\<close> starts a connection attempt and \<open>q_connecting\<close>
  awaits it. \<open>SendStream::finish\<close> only fails on a stream that was finished or reset before, which
  none of the callers does, so it has no error.
\<close>

record ('r, 'q) quinn =
  q_connect :: "SocketAddr \<Rightarrow> string \<Rightarrow> (('r, 'q) process, ConnectError, token) io"
  q_connecting :: "token \<Rightarrow> (('r, 'q) process, ConnectionError, conn) io"
  q_close_reason :: "conn \<Rightarrow> ('r, 'q) process \<Rightarrow> ConnectionError option"
  q_open_bi :: "conn \<Rightarrow> (('r, 'q) process, ConnectionError, stream) io"
  q_write_all :: "stream \<Rightarrow> bytes \<Rightarrow> (('r, 'q) process, WriteError, unit) io"
  q_finish :: "stream \<Rightarrow> ('r, 'q) process \<Rightarrow> ('r, 'q) process"
  q_read_to_end :: "nat \<Rightarrow> stream \<Rightarrow> (('r, 'q) process, ReadToEndError, bytes) io"
  q_close :: "conn \<Rightarrow> ('r, 'q) process \<Rightarrow> ('r, 'q) process"

text \<open>
  What openraft documents of \<open>client_write\<close>: when it succeeds, the request was appended to the
  log, committed and applied to this node's state machine, and the response is the one the state
  machine returned for it. Other entries may be applied before and after it.
\<close>

definition client_write_applies :: "('r, 'q) openraft \<Rightarrow> bool" where
  "client_write_applies r \<longleftrightarrow>
     (\<forall>req p resp p'. r_client_write r req p = (Inr resp, p') \<longrightarrow>
        (\<exists>before after.
           state_machine (p_sm p') = snd (apply_loop
             (before @ entry_of (cw_log_id resp) req # after) (state_machine (p_sm p)) []) \<and>
           cw_data resp = fst (apply_request req
             (sm_data (snd (apply_loop before (state_machine (p_sm p)) []))))))"

end
