(* ===== verification/Connection_Cache.thy ===== *)
theory Connection_Cache
  imports Node_Process
begin

text \<open>
  The connection cache (\<open>connection/cache.rs\<close>): one QUIC connection per socket address, reused
  while it is open. Every new connection gets a task that waits for it to close and then evicts
  the cached connection of that address if that one is closed.

  \<open>cache_connect\<close> and \<open>force_remove\<close> are the operations, \<open>watch_closed\<close> is the end of such a
  task, and \<open>cache_step\<close> is the interleaving of all of them with each other and with the rest of
  the system.
\<close>

section \<open>Operations\<close>

text \<open>A new cache of a node: there is no connection yet, and no watcher task.\<close>

definition ConnectionCache_new :: "('r, 'q) process \<Rightarrow> ('r, 'q) process" where
  "ConnectionCache_new p = p\<lparr>connections := fmempty, watchers := []\<rparr>"

text \<open>A connection was established: it is cached and its watcher task is spawned.\<close>

definition cache_insert :: "SocketAddr \<Rightarrow> conn \<Rightarrow> ('r, 'q) process \<Rightarrow> ('r, 'q) process" where
  "cache_insert host result p =
     p\<lparr>connections := fmupd host result (connections p), watchers := (host, result) # watchers p\<rparr>"

definition cache_connect_new :: "('r, 'q) quinn \<Rightarrow> Node \<Rightarrow> (('r, 'q) process, Error, conn) io" where
  "cache_connect_new q node =
     io_bind (io_map_err (\<lambda>e. Err_Transport (TE_Connect e)) (q_connect q (node_addr node) (node_server_name node)))
       (\<lambda>connecting.
     io_bind (io_map_err (\<lambda>e. Err_Transport (TE_Connection e)) (q_connecting q connecting))
       (\<lambda>result p. (Inr result, cache_insert (node_addr node) result p)))"

definition cache_connect :: "('r, 'q) quinn \<Rightarrow> Node \<Rightarrow> (('r, 'q) process, Error, conn) io" where
  "cache_connect q node p =
     (case fmlookup (connections p) (node_addr node) of
        Some cached \<Rightarrow>
          (if q_close_reason q cached p = None then (Inr cached, p) else cache_connect_new q node p)
      | None \<Rightarrow> cache_connect_new q node p)"

definition force_remove :: "SocketAddr \<Rightarrow> ('r, 'q) process \<Rightarrow> ('r, 'q) process" where
  "force_remove host p = p\<lparr>connections := fmdrop host (connections p)\<rparr>"

text \<open>The watcher task after its connection closed: \<open>remove_if\<close>, and the task ends.\<close>

definition remove_if_closed :: "('r, 'q) quinn \<Rightarrow> SocketAddr \<Rightarrow> ('r, 'q) process \<Rightarrow> ('r, 'q) process" where
  "remove_if_closed q host p =
     (case fmlookup (connections p) host of
        Some old \<Rightarrow>
          (if q_close_reason q old p \<noteq> None then p\<lparr>connections := fmdrop host (connections p)\<rparr> else p)
      | None \<Rightarrow> p)"

definition watch_closed :: "('r, 'q) quinn \<Rightarrow> SocketAddr \<Rightarrow> conn \<Rightarrow> ('r, 'q) process \<Rightarrow> ('r, 'q) process" where
  "watch_closed q host result p =
     (remove_if_closed q host p)\<lparr>watchers := remove1 (host, result) (watchers p)\<rparr>"

section \<open>Interleaving\<close>

text \<open>
  A step of the node as the cache sees it: a connection attempt completes, a watcher runs, an
  address is evicted after a timeout, or anything else happens that leaves the cache alone. A
  closed connection stays closed.
\<close>

inductive cache_step :: "('r, 'q) quinn \<Rightarrow> ('r, 'q) process \<Rightarrow> ('r, 'q) process \<Rightarrow> bool" for q where
  connected: "cache_step q p (cache_insert host result p)"
| watcher: "(host, result) \<in> set (watchers p) \<Longrightarrow> q_close_reason q result p \<noteq> None \<Longrightarrow>
    cache_step q p (watch_closed q host result p)"
| evicted: "cache_step q p (force_remove host p)"
| other: "connections p' = connections p \<Longrightarrow> watchers p' = watchers p \<Longrightarrow>
    (\<And>c. q_close_reason q c p \<noteq> None \<Longrightarrow> q_close_reason q c p' \<noteq> None) \<Longrightarrow> cache_step q p p'"

inductive cache_reachable :: "('r, 'q) quinn \<Rightarrow> ('r, 'q) process \<Rightarrow> bool" for q where
  start: "connections p = fmempty \<Longrightarrow> watchers p = [] \<Longrightarrow> cache_reachable q p"
| step: "cache_reachable q p \<Longrightarrow> cache_step q p p' \<Longrightarrow> cache_reachable q p'"

inductive_cases cache_stepE: "cache_step q p p'"

text \<open>Every cached connection has a watcher for its address.\<close>

definition watched :: "('r, 'q) process \<Rightarrow> bool" where
  "watched p \<longleftrightarrow> (\<forall>host c. fmlookup (connections p) host = Some c \<longrightarrow> (host, c) \<in> set (watchers p))"

lemma connections_remove_if_closed:
  "fmlookup (connections (remove_if_closed q host p)) h = Some c \<Longrightarrow>
     fmlookup (connections p) h = Some c \<and> (h = host \<longrightarrow> q_close_reason q c p = None)"
  by (auto simp: remove_if_closed_def split: option.splits if_splits)

lemma watched_step: "cache_step q p p' \<Longrightarrow> watched p \<Longrightarrow> watched p'"
proof (induction rule: cache_step.induct)
  case (connected p host result)
  then show ?case by (simp add: watched_def cache_insert_def)
next
  case (watcher host result p)
  show ?case unfolding watched_def
  proof (intro allI impI)
    fix h c
    assume "fmlookup (connections (watch_closed q host result p)) h = Some c"
    then have c: "fmlookup (connections p) h = Some c" "h = host \<longrightarrow> q_close_reason q c p = None"
      using connections_remove_if_closed [of q host p h c] by (simp_all add: watch_closed_def)
    with watcher have "(h, c) \<in> set (watchers p)" "(h, c) \<noteq> (host, result)"
      by (auto simp: watched_def)
    then show "(h, c) \<in> set (watchers (watch_closed q host result p))"
      by (simp add: watch_closed_def in_set_remove1)
  qed
next
  case (evicted p host)
  then show ?case by (auto simp: watched_def force_remove_def split: if_splits)
next
  case (other p' p)
  then show ?case by (simp add: watched_def)
qed

lemma cache_reachable_watched: "cache_reachable q p \<Longrightarrow> watched p"
proof (induction rule: cache_reachable.induct)
  case (start p)
  then show ?case by (simp add: watched_def)
next
  case (step p p')
  then show ?case by (blast intro: watched_step)
qed

section \<open>Properties\<close>


text \<open>A quinn in which odd connections are closed, for the concrete instances.\<close>

definition odd_closed_quinn :: "(unit, unit) quinn" where
  "odd_closed_quinn = \<lparr>q_connect = (\<lambda>_ _ p. (Inr 0, p)), q_connecting = (\<lambda>_ p. (Inr 2, p)),
     q_close_reason = (\<lambda>c _. if odd c then Some TimedOut else None),
     q_open_bi = (\<lambda>_ p. (Inr 0, p)), q_write_all = (\<lambda>_ _ p. (Inr (), p)), q_finish = (\<lambda>_ p. p),
     q_read_to_end = (\<lambda>_ _ p. (Inr [], p)), q_close = (\<lambda>_ p. p)\<rparr>"

definition example_addr :: SocketAddr where
  "example_addr = SocketAddr_new (V4 127 0 0 1) 35000"

definition empty_process :: "(unit, unit) process" where
  "empty_process = \<lparr>raft_core = (), p_sm = StateMachine_default, p_monitor = HeartbeatMonitor_default,
     connections = fmempty, watchers = [], p_tasks = [], quic = ()\<rparr>"


text \<open>
  A watcher only evicts the connection of its own address, and only if
  that connection is closed; a connection opened in the meantime stays cached.
\<close>

lemma watcher_keeps_open:
  "fmlookup (connections (watch_closed q host result p)) h =
     (case fmlookup (connections p) h of
        Some c \<Rightarrow> if h = host \<and> q_close_reason q c p \<noteq> None then None else Some c
      | None \<Rightarrow> None)"
  by (auto simp: watch_closed_def remove_if_closed_def split: option.split)

text \<open>
  \<open>connect\<close> returns the cached connection unchanged if it is open; otherwise it
  dials the node, and on success the new connection is the cached one for the node's address and
  is watched, while on failure nothing is cached.
\<close>

lemma connect_spec:
  assumes "cache_connect q node p = (r, p')"
  shows "if \<exists>c. fmlookup (connections p) (node_addr node) = Some c \<and> q_close_reason q c p = None
    then r = Inr (the (fmlookup (connections p) (node_addr node))) \<and> p' = p
    else case r of
      Inr c \<Rightarrow> fmlookup (connections p') (node_addr node) = Some c \<and> (node_addr node, c) \<in> set (watchers p')
    | Inl e \<Rightarrow>
        (\<exists>ce. e = Err_Transport (TE_Connect ce) \<and>
           q_connect q (node_addr node) (node_server_name node) p = (Inl ce, p')) \<or>
        (\<exists>ce t p''. e = Err_Transport (TE_Connection ce) \<and>
           q_connect q (node_addr node) (node_server_name node) p = (Inr t, p'') \<and>
           q_connecting q t p'' = (Inl ce, p'))"
proof (cases "\<exists>c. fmlookup (connections p) (node_addr node) = Some c \<and> q_close_reason q c p = None")
  case True
  with assms show ?thesis by (auto simp: cache_connect_def)
next
  case False
  with assms have "cache_connect_new q node p = (r, p')"
    by (auto simp: cache_connect_def split: option.splits)
  with False show ?thesis
    by (auto simp: cache_connect_new_def io_defs cache_insert_def map_sum_eqs
        split: prod.splits sum.splits)
qed

end
