(* ===== verification/Client.thy ===== *)
theory Client
  imports Connection_Cache
begin

text \<open>
  The client side of a connection (\<open>connection/client.rs\<close>): sending a request to a node and
  following redirects to the leader.

  The number of redirects is not limited, so \<open>client_loop\<close> is a partial function: \<open>None\<close> means
  that the client follows redirects forever. One exchange of a request and a reply is
  \<open>client_exchange\<close>; the typed requests check that the reply has the expected shape.
\<close>

section \<open>The request loop\<close>

record Client =
  client_conn :: conn
  client_target_id :: "NodeId option"

definition Client_new :: "('r, 'q) quinn \<Rightarrow> Node \<Rightarrow> NodeId option \<Rightarrow> (('r, 'q) process, Error, Client) io" where
  "Client_new q node node_id =
     io_map (\<lambda>c. \<lparr>client_conn = c, client_target_id = node_id\<rparr>) (cache_connect q node)"

definition usize_max :: nat where
  "usize_max = 2 ^ 64 - 1"

text \<open>Open a stream, send the request, read the reply to the end and decode it.\<close>

definition client_exchange ::
  "('r, 'q) quinn \<Rightarrow> postcard \<Rightarrow> conn \<Rightarrow> Request \<Rightarrow> (('r, 'q) process, Error, reply) io" where
  "client_exchange q pc c msg =
     io_bind (io_map_err (\<lambda>e. Err_Transport (TE_Connection e)) (q_open_bi q c)) (\<lambda>stream.
     io_bind (io_result (map_sum Err_Serialization id (enc_request pc msg))) (\<lambda>request.
     io_bind (io_map_err (\<lambda>e. Err_Transport (TE_Write e)) (q_write_all q stream request)) (\<lambda>_.
     io_bind (\<lambda>p. (Inr (), q_finish q stream p)) (\<lambda>_.
     io_bind (io_map_err (\<lambda>e. Err_Transport (TE_Read e)) (q_read_to_end q usize_max stream)) (\<lambda>resp.
     io_result (map_sum (\<lambda>e. Err_Protocol (DeserializeResponse e)) id (dec_reply pc resp)))))))"

text \<open>The leader to forward to: only for a write that was refused with a complete leader address.\<close>

definition redirect_target :: "RemoteError \<Rightarrow> (NodeId \<times> Node) option" where
  "redirect_target e =
     (case e of
        RE_RaftWrite raft_error \<Rightarrow>
          (case forward_to_leader raft_error of
             Some ftl \<Rightarrow>
               (case ftl_leader_id ftl of
                  Some new_leader_id \<Rightarrow>
                    (case ftl_leader_node ftl of
                       Some new_leader \<Rightarrow> Some (new_leader_id, new_leader)
                     | None \<Rightarrow> None)
                | None \<Rightarrow> None)
           | None \<Rightarrow> None)
      | _ \<Rightarrow> None)"

text \<open>
  One round of the loop: \<open>Inl\<close> returns from the function, \<open>Inr\<close> continues with the connection to
  the new leader and the request addressed to it.
\<close>

definition client_step ::
  "('r, 'q) quinn \<Rightarrow> postcard \<Rightarrow> conn \<times> Request \<times> ('r, 'q) process \<Rightarrow>
     (Error + Response) \<times> ('r, 'q) process + conn \<times> Request \<times> ('r, 'q) process" where
  "client_step q pc = (\<lambda>(c, msg, p).
     case client_exchange q pc c msg p of
       (Inl e, p1) \<Rightarrow> Inl (Inl e, p1)
     | (Inr (Inr resp), p1) \<Rightarrow> Inl (Inr resp, p1)
     | (Inr (Inl e), p1) \<Rightarrow>
         (case redirect_target e of
            None \<Rightarrow> Inl (Inl (Err_Remote e), p1)
          | Some (new_id, leader) \<Rightarrow>
              (case cache_connect q leader p1 of
                 (Inl err, p2) \<Rightarrow> Inl (Inl err, p2)
               | (Inr c', p2) \<Rightarrow> Inr (c', msg\<lparr>req_target_id := Some new_id\<rparr>, p2))))"

partial_function (option) client_loop ::
  "('r, 'q) quinn \<Rightarrow> postcard \<Rightarrow> conn \<times> Request \<times> ('r, 'q) process \<Rightarrow>
     ((Error + Response) \<times> ('r, 'q) process) option" where
  "client_loop q pc s =
     (case client_step q pc s of Inl result \<Rightarrow> Some result | Inr s' \<Rightarrow> client_loop q pc s')"

definition client_request ::
  "('r, 'q) quinn \<Rightarrow> postcard \<Rightarrow> Client \<Rightarrow> RequestBody \<Rightarrow> (('r, 'q) process, Error, Response) aio" where
  "client_request q pc cl request p =
     client_loop q pc (client_conn cl, \<lparr>req_target_id = client_target_id cl, req_body = request\<rparr>, p)"

section \<open>Typed requests\<close>

abbreviation unknown_response :: "Error + 'a" where
  "unknown_response \<equiv> Inl (Err_Protocol UnknownResponse)"

definition add_learner ::
  "('r, 'q) quinn \<Rightarrow> postcard \<Rightarrow> Client \<Rightarrow> NodeId \<Rightarrow> Node \<Rightarrow> bool \<Rightarrow>
     (('r, 'q) process, Error, ClientWriteResponse) aio" where
  "add_learner q pc cl i node blocking =
     aio_bind (client_request q pc cl (ReqAddLearner i node blocking))
       (\<lambda>resp. aio_result (case resp of RAddLearner r \<Rightarrow> Inr r | _ \<Rightarrow> unknown_response))"

definition change_membership ::
  "('r, 'q) quinn \<Rightarrow> postcard \<Rightarrow> Client \<Rightarrow> ChangeMembers \<Rightarrow> bool \<Rightarrow>
     (('r, 'q) process, Error, ClientWriteResponse) aio" where
  "change_membership q pc cl members retain =
     aio_bind (client_request q pc cl (ReqChangeMembership members retain))
       (\<lambda>resp. aio_result (case resp of RClientWrite r \<Rightarrow> Inr r | _ \<Rightarrow> unknown_response))"

definition client_append_entries ::
  "('r, 'q) quinn \<Rightarrow> postcard \<Rightarrow> Client \<Rightarrow> AppendEntriesRequest \<Rightarrow>
     (('r, 'q) process, Error, AppendEntriesResponse) aio" where
  "client_append_entries q pc cl entries =
     aio_bind (client_request q pc cl (ReqAppend entries))
       (\<lambda>resp. aio_result (case resp of RAppend r \<Rightarrow> Inr r | _ \<Rightarrow> unknown_response))"

definition client_vote ::
  "('r, 'q) quinn \<Rightarrow> postcard \<Rightarrow> Client \<Rightarrow> VoteRequest \<Rightarrow> (('r, 'q) process, Error, VoteResponse) aio" where
  "client_vote q pc cl rpc =
     aio_bind (client_request q pc cl (ReqVote rpc))
       (\<lambda>resp. aio_result (case resp of RVote r \<Rightarrow> Inr r | _ \<Rightarrow> unknown_response))"

definition client_contains_key ::
  "('r, 'q) quinn \<Rightarrow> postcard \<Rightarrow> Client \<Rightarrow> string \<Rightarrow> bytes \<Rightarrow> ReadConsistency \<Rightarrow>
     (('r, 'q) process, Error, bool) aio" where
  "client_contains_key q pc cl m key consistency =
     aio_bind (client_request q pc cl (ReqContainsKey m key consistency))
       (\<lambda>resp. aio_result (case resp of RContainsKey response \<Rightarrow> Inr response | _ \<Rightarrow> unknown_response))"

definition client_insert ::
  "('r, 'q) quinn \<Rightarrow> postcard \<Rightarrow> Client \<Rightarrow> string \<Rightarrow> bytes \<Rightarrow> bytes \<Rightarrow>
     (('r, 'q) process, Error, bytes option) aio" where
  "client_insert q pc cl m key val =
     aio_bind (client_request q pc cl (ReqInsert m key val))
       (\<lambda>resp. aio_result (case resp of
            RClientWrite r \<Rightarrow> (case cw_data r of RespInsert old \<Rightarrow> Inr old | _ \<Rightarrow> unknown_response)
          | _ \<Rightarrow> unknown_response))"

definition client_insert_multi ::
  "('r, 'q) quinn \<Rightarrow> postcard \<Rightarrow> Client \<Rightarrow> string \<Rightarrow> bytes \<Rightarrow> bytes \<Rightarrow> (('r, 'q) process, Error, bool) aio" where
  "client_insert_multi q pc cl m key val =
     aio_bind (client_request q pc cl (ReqInsertMulti m key val))
       (\<lambda>resp. aio_result (case resp of
            RClientWrite r \<Rightarrow> (case cw_data r of RespInsertMulti inserted \<Rightarrow> Inr inserted | _ \<Rightarrow> unknown_response)
          | _ \<Rightarrow> unknown_response))"

definition client_get ::
  "('r, 'q) quinn \<Rightarrow> postcard \<Rightarrow> Client \<Rightarrow> string \<Rightarrow> bytes \<Rightarrow> ReadConsistency \<Rightarrow>
     (('r, 'q) process, Error, bytes option) aio" where
  "client_get q pc cl m key consistency =
     aio_bind (client_request q pc cl (ReqGet m key consistency))
       (\<lambda>resp. aio_result (case resp of RGet response \<Rightarrow> Inr response | _ \<Rightarrow> unknown_response))"

definition client_get_multi ::
  "('r, 'q) quinn \<Rightarrow> postcard \<Rightarrow> Client \<Rightarrow> string \<Rightarrow> bytes \<Rightarrow> ReadConsistency \<Rightarrow>
     (('r, 'q) process, Error, bytes list option) aio" where
  "client_get_multi q pc cl m key consistency =
     aio_bind (client_request q pc cl (ReqGetMulti m key consistency))
       (\<lambda>resp. aio_result (case resp of RGetMulti response \<Rightarrow> Inr response | _ \<Rightarrow> unknown_response))"

definition client_remove ::
  "('r, 'q) quinn \<Rightarrow> postcard \<Rightarrow> Client \<Rightarrow> string \<Rightarrow> bytes \<Rightarrow> (('r, 'q) process, Error, bytes option) aio" where
  "client_remove q pc cl m key =
     aio_bind (client_request q pc cl (ReqRemove m key))
       (\<lambda>resp. aio_result (case resp of RRemove response \<Rightarrow> Inr response | _ \<Rightarrow> unknown_response))"

definition client_remove_multi ::
  "('r, 'q) quinn \<Rightarrow> postcard \<Rightarrow> Client \<Rightarrow> string \<Rightarrow> bytes \<Rightarrow> bytes \<Rightarrow> (('r, 'q) process, Error, bool) aio" where
  "client_remove_multi q pc cl m key val =
     aio_bind (client_request q pc cl (ReqRemoveMulti m key val))
       (\<lambda>resp. aio_result (case resp of RRemoveMulti response \<Rightarrow> Inr response | _ \<Rightarrow> unknown_response))"

definition client_len ::
  "('r, 'q) quinn \<Rightarrow> postcard \<Rightarrow> Client \<Rightarrow> string \<Rightarrow> ReadConsistency \<Rightarrow>
     (('r, 'q) process, Error, nat option) aio" where
  "client_len q pc cl m consistency =
     aio_bind (client_request q pc cl (ReqLen m consistency))
       (\<lambda>resp. aio_result (case resp of RLen response \<Rightarrow> Inr response | _ \<Rightarrow> unknown_response))"

definition client_clear ::
  "('r, 'q) quinn \<Rightarrow> postcard \<Rightarrow> Client \<Rightarrow> string \<Rightarrow> (('r, 'q) process, Error, unit) aio" where
  "client_clear q pc cl m =
     aio_bind (client_request q pc cl (ReqClear m))
       (\<lambda>resp. aio_result (case resp of RClear \<Rightarrow> Inr () | _ \<Rightarrow> unknown_response))"

definition client_close :: "('r, 'q) quinn \<Rightarrow> Client \<Rightarrow> ('r, 'q) process \<Rightarrow> ('r, 'q) process" where
  "client_close q cl p = q_close q (client_conn cl) p"

section \<open>When the loop returns\<close>

text \<open>A redirect, and the rounds that lead to a result.\<close>

definition hop :: "('r, 'q) quinn \<Rightarrow> postcard \<Rightarrow> conn \<times> Request \<times> ('r, 'q) process \<Rightarrow>
    conn \<times> Request \<times> ('r, 'q) process \<Rightarrow> bool" where
  "hop q pc s s' \<longleftrightarrow> client_step q pc s = Inr s'"

inductive returns :: "('r, 'q) quinn \<Rightarrow> postcard \<Rightarrow> conn \<times> Request \<times> ('r, 'q) process \<Rightarrow>
    (Error + Response) \<times> ('r, 'q) process \<Rightarrow> bool" for q pc where
  final: "client_step q pc s = Inl r \<Longrightarrow> returns q pc s r"
| redirected: "hop q pc s s' \<Longrightarrow> returns q pc s' r \<Longrightarrow> returns q pc s r"

lemma hop_deterministic: "hop q pc s t \<Longrightarrow> hop q pc s t' \<Longrightarrow> t = t'"
  by (simp add: hop_def)

lemma client_loop_returns: "client_loop q pc s = Some r \<longleftrightarrow> returns q pc s r"
proof
  assume ret: "client_loop q pc s = Some r"
  show "returns q pc s r"
  proof (rule client_loop.raw_induct [where P = "\<lambda>q pc s r. returns q pc s r", OF _ ret])
    fix f q pc s r
    assume IH: "\<And>q pc s r. f q pc s = Some r \<Longrightarrow> returns q pc s r"
      and eq: "(case client_step q pc s of Inl result \<Rightarrow> Some result | Inr s' \<Rightarrow> f q pc s') = Some r"
    show "returns q pc s r"
    proof (cases "client_step q pc s")
      case (Inl x)
      with eq show ?thesis by (auto intro: returns.final)
    next
      case (Inr s')
      with eq have "f q pc s' = Some r" by simp
      then have "returns q pc s' r" by (rule IH)
      with Inr show ?thesis by (auto intro: returns.redirected simp: hop_def)
    qed
  qed
next
  assume "returns q pc s r"
  then show "client_loop q pc s = Some r"
    by (induction rule: returns.induct) (simp_all add: client_loop.simps [of q pc] hop_def)
qed

lemma returns_iff:
  "returns q pc s r \<longleftrightarrow> (\<exists>s'. (hop q pc)\<^sup>*\<^sup>* s s' \<and> client_step q pc s' = Inl r)"
proof
  assume "returns q pc s r"
  then show "\<exists>s'. (hop q pc)\<^sup>*\<^sup>* s s' \<and> client_step q pc s' = Inl r"
    by (induction rule: returns.induct) (auto intro: converse_rtranclp_into_rtranclp)
next
  assume "\<exists>s'. (hop q pc)\<^sup>*\<^sup>* s s' \<and> client_step q pc s' = Inl r"
  then obtain s' where "(hop q pc)\<^sup>*\<^sup>* s s'" "client_step q pc s' = Inl r" by blast
  then show "returns q pc s r"
    by (induction rule: converse_rtranclp_induct) (auto intro: returns.intros)
qed

lemma returns_acyclic: "returns q pc s r \<Longrightarrow> \<not> (hop q pc)\<^sup>+\<^sup>+ s s"
proof (induction rule: returns.induct)
  case (final s r)
  then show ?case by (auto simp: hop_def dest: tranclpD)
next
  case (redirected s s' r)
  show ?case
  proof
    assume "(hop q pc)\<^sup>+\<^sup>+ s s"
    then obtain t where "hop q pc s t" "(hop q pc)\<^sup>*\<^sup>* t s" by (blast dest: tranclpD)
    with redirected(1) have "(hop q pc)\<^sup>*\<^sup>* s' s" by (metis hop_deterministic)
    with redirected(1) have "(hop q pc)\<^sup>+\<^sup>+ s' s'" by simp
    with redirected.IH show False by contradiction
  qed
qed

section \<open>Which errors a client reports\<close>

text \<open>An error of the connection, the encoding, the protocol, or the remote node.\<close>

fun request_error :: "Error \<Rightarrow> bool" where
  "request_error (Err_Transport _) = True"
| "request_error (Err_Protocol _) = True"
| "request_error (Err_Remote _) = True"
| "request_error (Err_Serialization _) = True"
| "request_error _ = False"

lemma cache_connect_error: "cache_connect q node p = (Inl e, p') \<Longrightarrow> \<exists>te. e = Err_Transport te"
  by (auto simp: cache_connect_def cache_connect_new_def io_defs map_sum_eqs
      split: option.splits if_splits prod.splits sum.splits)

lemma client_exchange_error: "client_exchange q pc c msg p = (Inl e, p') \<Longrightarrow> request_error e"
  by (auto simp: client_exchange_def io_inversion)

lemma client_step_error: "client_step q pc s = Inl (Inl e, p') \<Longrightarrow> request_error e"
  by (auto simp: client_step_def dest!: client_exchange_error cache_connect_error
      split: prod.splits sum.splits option.splits)

lemma client_request_error:
  assumes "client_request q pc cl body p = Some (Inl e, p')"
  shows "request_error e"
proof -
  have "returns q pc s r \<Longrightarrow> fst r = Inl e \<Longrightarrow> request_error e" for s and r :: "(Error + Response) \<times> _"
    by (induction rule: returns.induct) (metis client_step_error prod.collapse)+
  with assms show ?thesis by (fastforce simp: client_request_def client_loop_returns)
qed

section \<open>Properties\<close>


text \<open>
  When redirects lead back to a state the client was in, the
  request never returns; there is no limit on the number of redirects.
\<close>

lemma redirect_cycle_never_returns:
  assumes "(hop q pc)\<^sup>+\<^sup>+ s s"
  shows "client_loop q pc s = None"
proof (cases "client_loop q pc s")
  case (Some r)
  then have "returns q pc s r" by (simp only: client_loop_returns)
  from returns_acyclic [OF this] assms show ?thesis by (rule notE)
qed

text \<open>A network in which every write is redirected to the node it was sent to.\<close>

definition redirecting_postcard :: "NodeId \<Rightarrow> Node \<Rightarrow> postcard" where
  "redirecting_postcard i node = \<lparr>enc_request = (\<lambda>_. Inr []), dec_request = (\<lambda>_. Inl 0),
     enc_reply = (\<lambda>_. Inl 0),
     dec_reply = (\<lambda>_. Inr (Inl (RE_RaftWrite (APIError (CW_ForwardToLeader
       \<lparr>ftl_leader_id = Some i, ftl_leader_node = Some node\<rparr>)))))\<rparr>"

text \<open>
  C27 (redirect_only_refused_writes): a redirect keeps the body of the request, addresses it to the
  new leader and goes to the leader's node; it happens only when a write was refused with the id
  and the node of the leader. Any other refusal is returned to the caller, even when the refused
  leadership check of a read names the leader.
\<close>

theorem redirect_only_refused_writes:
  assumes "client_exchange q pc c msg p = (Inr (Inl e), p1)"
  shows "(\<forall>c' msg' p'. hop q pc (c, msg, p) (c', msg', p') \<longrightarrow>
      (\<exists>i node. e = RE_RaftWrite (APIError (CW_ForwardToLeader
                  \<lparr>ftl_leader_id = Some i, ftl_leader_node = Some node\<rparr>)) \<and>
         req_body msg' = req_body msg \<and> req_target_id msg' = Some i \<and>
         cache_connect q node p1 = (Inr c', p'))) \<and>
    (\<forall>err. e = RE_RaftCheckIsLeader err \<longrightarrow> client_loop q pc (c, msg, p) = Some (Inl (Err_Remote e), p1))"
  using assms
  by (auto simp: hop_def client_step_def redirect_target_def forward_to_leader_Some client_loop.simps [of q pc]
      split: RemoteError.splits option.splits prod.splits sum.splits intro!: ForwardToLeader.equality)

theorem redirect_only_refused_writes_witness:
  "client_loop odd_closed_quinn
     ((redirecting_postcard 7 (Node_new example_addr ''localhost''))
        \<lparr>dec_reply := \<lambda>_. Inr (Inl (RE_RaftCheckIsLeader (Fatal 1)))\<rparr>)
     (2, \<lparr>req_target_id = None, req_body = ReqLen ''m'' ReadIndex\<rparr>, empty_process) =
   Some (Inl (Err_Remote (RE_RaftCheckIsLeader (Fatal 1))), empty_process)"
proof -
  let ?pc = "(redirecting_postcard 7 (Node_new example_addr ''localhost''))
        \<lparr>dec_reply := \<lambda>_. Inr (Inl (RE_RaftCheckIsLeader (Fatal 1)))\<rparr>"
  have "client_exchange odd_closed_quinn ?pc 2 \<lparr>req_target_id = None, req_body = ReqLen ''m'' ReadIndex\<rparr> empty_process =
      (Inr (Inl (RE_RaftCheckIsLeader (Fatal 1))), empty_process)"
    by (simp add: client_exchange_def io_defs redirecting_postcard_def odd_closed_quinn_def)
  from redirect_only_refused_writes [OF this] show ?thesis by simp
qed

end
