(* ===== verification/Network.thy ===== *)
theory Network
  imports Client
begin

text \<open>
  openraft's connection to one peer (\<open>raft/network.rs\<close>): raft messages are sent with the client,
  under a timeout, and the outcome is translated to openraft's errors.

  The clock and tokio's timer are parameters. \<open>deadline ttl p\<close> says what the timer does in a run:
  \<open>None\<close> if the operation completes in time, \<open>Some p'\<close> if the deadline passes first and leaves the
  node in state \<open>p'\<close>.
\<close>

section \<open>Sending raft messages\<close>

record Network =
  net_node_id :: NodeId
  net_node :: Node

datatype any_error = AnyError Error | Elapsed

datatype RPCError =
    RPC_Unreachable any_error
  | RPC_Network TransportError
  | RPC_RemoteError NodeId Node RaftFatal

definition Network_new :: "NodeId \<Rightarrow> Node \<Rightarrow> Network" where
  "Network_new node_id node = \<lparr>net_node_id = node_id, net_node = node\<rparr>"

definition NetworkFactory_new_client :: "NodeId \<Rightarrow> Node \<Rightarrow> Network" where
  "NetworkFactory_new_client target node = Network_new target node"

text \<open>The translation of errors at the end of \<open>perform_raft_action\<close>.\<close>

fun rpc_error :: "Network \<Rightarrow> Error \<Rightarrow> RPCError" where
  "rpc_error n (Err_Transport transport_error) = RPC_Network transport_error"
| "rpc_error n (Err_Raft raft_error) = RPC_RemoteError (net_node_id n) (net_node n) raft_error"
| "rpc_error n e = RPC_Unreachable (AnyError e)"

definition perform_raft_action ::
  "('r, 'q) quinn \<Rightarrow> (('r, 'q) process \<Rightarrow> instant) \<Rightarrow> (nat \<Rightarrow> ('r, 'q) process \<Rightarrow> ('r, 'q) process option) \<Rightarrow>
     Network \<Rightarrow> (Client \<Rightarrow> (('r, 'q) process, Error, 'a) aio) \<Rightarrow> nat \<Rightarrow> (('r, 'q) process, RPCError, 'a) aio" where
  "perform_raft_action q now deadline n operation ttl p =
     (case Client_new q (net_node n) (Some (net_node_id n)) p of
        (Inl e, p1) \<Rightarrow> Some (Inl (RPC_Unreachable (AnyError e)), p1)
      | (Inr client, p1) \<Rightarrow>
          (case deadline ttl p1 of
             Some p2 \<Rightarrow>
               Some (Inl (RPC_Unreachable Elapsed), force_remove (node_addr (net_node n)) p2)
           | None \<Rightarrow>
               (case operation client p1 of
                  None \<Rightarrow> None
                | Some (Inr result, p2) \<Rightarrow>
                    Some (Inr result, p2\<lparr>p_monitor := on_heartbeat (now p2) (net_node_id n) (p_monitor p2)\<rparr>)
                | Some (Inl e, p2) \<Rightarrow> Some (Inl (rpc_error n e), p2))))"

definition network_append_entries ::
  "('r, 'q) quinn \<Rightarrow> postcard \<Rightarrow> (('r, 'q) process \<Rightarrow> instant) \<Rightarrow>
     (nat \<Rightarrow> ('r, 'q) process \<Rightarrow> ('r, 'q) process option) \<Rightarrow> Network \<Rightarrow> AppendEntriesRequest \<Rightarrow> nat \<Rightarrow>
     (('r, 'q) process, RPCError, AppendEntriesResponse) aio" where
  "network_append_entries q pc now deadline n rpc ttl =
     perform_raft_action q now deadline n (\<lambda>client. client_append_entries q pc client rpc) ttl"

definition network_vote ::
  "('r, 'q) quinn \<Rightarrow> postcard \<Rightarrow> (('r, 'q) process \<Rightarrow> instant) \<Rightarrow>
     (nat \<Rightarrow> ('r, 'q) process \<Rightarrow> ('r, 'q) process option) \<Rightarrow> Network \<Rightarrow> VoteRequest \<Rightarrow> nat \<Rightarrow>
     (('r, 'q) process, RPCError, VoteResponse) aio" where
  "network_vote q pc now deadline n rpc ttl =
     perform_raft_action q now deadline n (\<lambda>client. client_vote q pc client rpc) ttl"

text \<open>\<open>todo!()\<close>: sending a snapshot panics.\<close>

definition network_install_snapshot :: "Network \<Rightarrow> token \<Rightarrow> nat \<Rightarrow> panic + 'a" where
  "network_install_snapshot n rpc ttl = Inl (Panic ''not yet implemented'')"

section \<open>Properties\<close>

lemma aio_result_error:
  assumes "aio_bind (client_request q pc cl body) (\<lambda>resp. aio_result (f resp)) p = Some (Inl e, p')"
    and "\<And>resp e. f resp = Inl e \<Longrightarrow> request_error e"
  shows "request_error e"
  using assms client_request_error by (auto simp: aio_bind_Some aio_result_def)

lemma client_append_error: "client_append_entries q pc cl rpc p = Some (Inl e, p') \<Longrightarrow> request_error e"
  unfolding client_append_entries_def
  by (rule aio_result_error) (auto split: Response.splits)

lemma client_vote_error: "client_vote q pc cl rpc p = Some (Inl e, p') \<Longrightarrow> request_error e"
  unfolding client_vote_def
  by (rule aio_result_error) (auto split: Response.splits)

lemma rpc_error_not_remote: "request_error e \<Longrightarrow> rpc_error n e \<noteq> RPC_RemoteError i node f"
  by (cases e) auto

lemma perform_not_remote:
  assumes "perform_raft_action q now deadline n operation ttl p = Some (Inl err, p')"
    and "\<And>client p1 e p2. operation client p1 = Some (Inl e, p2) \<Longrightarrow> request_error e"
  shows "err \<noteq> RPC_RemoteError i node f"
  using assms rpc_error_not_remote
  by (fastforce simp: perform_raft_action_def split: prod.splits sum.splits option.splits)

text \<open>
  C37 (raft_errors_reported_unreachable): the client wraps a peer's raft error as a remote error, so
  the translation that would report it to openraft as \<open>RPCError::RemoteError\<close> is never taken for an
  append-entries or a vote: a raft error of the peer is reported as \<open>Unreachable\<close>.
\<close>

theorem raft_errors_reported_unreachable:
  "(network_append_entries q pc now deadline n rpc ttl p = Some (Inl err, p') \<or>
    network_vote q pc now deadline n rpc ttl p = Some (Inl err, p') \<longrightarrow> err \<noteq> RPC_RemoteError i node f) \<and>
   rpc_error n (Err_Remote (RE_Raft fatal)) = RPC_Unreachable (AnyError (Err_Remote (RE_Raft fatal)))"
  unfolding network_append_entries_def network_vote_def
  using perform_not_remote client_append_error client_vote_error by (metis rpc_error.simps(4))

theorem raft_errors_reported_unreachable_witness:
  "network_vote odd_closed_quinn
     ((redirecting_postcard 7 Node_default)\<lparr>dec_reply := \<lambda>_. Inr (Inl (RE_Raft (RaftFatal 4)))\<rparr>)
     (\<lambda>_. 0) (\<lambda>_ _. None) (Network_new 7 (Node_new example_addr ''localhost'')) 0 10
     (cache_insert example_addr 2 empty_process) =
   Some (Inl (RPC_Unreachable (AnyError (Err_Remote (RE_Raft (RaftFatal 4))))), cache_insert example_addr 2 empty_process) \<and>
   RPC_Unreachable (AnyError (Err_Remote (RE_Raft (RaftFatal 4)))) \<noteq> RPC_RemoteError 7 Node_default (RaftFatal 4)"
proof -
  let ?pc = "(redirecting_postcard 7 Node_default)\<lparr>dec_reply := \<lambda>_. Inr (Inl (RE_Raft (RaftFatal 4)))\<rparr>"
  let ?n = "Network_new 7 (Node_new example_addr ''localhost'')" and ?p = "cache_insert example_addr 2 empty_process"
  have "network_vote odd_closed_quinn ?pc (\<lambda>_. 0) (\<lambda>_ _. None) ?n 0 10 ?p =
      Some (Inl (RPC_Unreachable (AnyError (Err_Remote (RE_Raft (RaftFatal 4))))), ?p)"
    by (simp add: network_vote_def perform_raft_action_def Client_new_def cache_connect_def cache_insert_def
        Network_new_def Node_new_def odd_closed_quinn_def client_vote_def client_request_def client_loop.simps
        client_step_def client_exchange_def io_defs redirecting_postcard_def redirect_target_def)
  with raft_errors_reported_unreachable [of odd_closed_quinn ?pc "\<lambda>_. 0" "\<lambda>_ _. None" ?n 0 10 ?p
      "RPC_Unreachable (AnyError (Err_Remote (RE_Raft (RaftFatal 4))))" ?p 7 Node_default "RaftFatal 4"]
  show ?thesis by blast
qed

text \<open>
  The heartbeat monitor records a contact with the peer exactly
  when the operation succeeded; after a timeout the connection to the peer is no longer cached and
  the monitor is as the timer left it.
\<close>

lemma heartbeat_on_success_only:
  assumes "Client_new q (net_node n) (Some (net_node_id n)) p = (Inr client, p1)"
    and "perform_raft_action q now deadline n operation ttl p = Some (r, p')"
  shows "case deadline ttl p1 of
      Some p2 \<Rightarrow> r = Inl (RPC_Unreachable Elapsed) \<and> p_monitor p' = p_monitor p2 \<and>
        fmlookup (connections p') (node_addr (net_node n)) = None
    | None \<Rightarrow> \<exists>res p2. operation client p1 = Some (res, p2) \<and>
        seen_at (p_monitor p') (net_node_id n) =
          (if isl res then seen_at (p_monitor p2) (net_node_id n) else Some (now p2)) \<and>
        (\<forall>i. i \<noteq> net_node_id n \<longrightarrow> seen_at (p_monitor p') i = seen_at (p_monitor p2) i) \<and>
        isl r = isl res"
proof (cases "deadline ttl p1")
  case None
  with assms obtain res p2 where op: "operation client p1 = Some (res, p2)"
    by (cases "operation client p1") (auto simp: perform_raft_action_def)
  with None assms show ?thesis
    by (cases res) (auto simp: perform_raft_action_def)
next
  case (Some p2)
  with assms show ?thesis by (auto simp: perform_raft_action_def force_remove_def)
qed

end
