(* ===== verification/Cluster_Server.thy ===== *)
theory Cluster_Server
  imports Connection_Cache
begin

text \<open>
  The server side of a node (\<open>cluster.rs\<close>: \<open>main_loop\<close>, \<open>ensure_consistency\<close>, \<open>handle_message\<close>).

  \<open>handle_message\<close> is a computation whose result is the reply sent to the client and whose state
  is the node. openraft is the parameter \<open>r\<close>; \<open>it\<close> is the order in which a \<open>HashSet\<close> is iterated.
\<close>

section \<open>Handling a message\<close>

definition srv_ensure_consistency ::
  "('r, 'q) openraft \<Rightarrow> ReadConsistency \<Rightarrow> (('r, 'q) process, RemoteError, unit) io" where
  "srv_ensure_consistency r consistency =
     (case consistency of
        Stale \<Rightarrow> io_return ()
      | LeaderStale \<Rightarrow> io_return ()
      | LeaseRead \<Rightarrow> io_map_err RE_RaftCheckIsLeader (r_ensure_linearizable r)
      | ReadIndex \<Rightarrow> io_map_err RE_RaftCheckIsLeader (r_ensure_linearizable r))"

definition handle_write ::
  "('r, 'q) openraft \<Rightarrow> RaftRequest \<Rightarrow> (('r, 'q) process, RemoteError, Response) io" where
  "handle_write r cr = io_map RClientWrite (io_map_err RE_RaftWrite (r_client_write r cr))"

fun handle_body ::
  "('r, 'q) openraft \<Rightarrow> (bytes fset \<Rightarrow> bytes list) \<Rightarrow> RequestBody \<Rightarrow>
     (('r, 'q) process, RemoteError, Response) io" where
  "handle_body r it (ReqAddLearner i peer blocking) p =
     (case List.find (\<lambda>(_, m). node_addr m = node_addr peer)
             (mem_nodes (membership (metrics_membership_config (r_metrics r p)))) of
        Some (other_id, other_node) \<Rightarrow> (Inl (RE_NodeExists other_id (node_addr other_node)), p)
      | None \<Rightarrow> io_map RAddLearner (io_map_err RE_RaftWrite (r_add_learner r i peer blocking)) p)"
| "handle_body r it (ReqChangeMembership members retain) p =
     io_map RClientWrite (io_map_err RE_RaftWrite (r_change_membership r members retain)) p"
| "handle_body r it (ReqAppend entries) p =
     io_map RAppend (io_map_err RE_Raft (r_append_entries r entries)) p"
| "handle_body r it (ReqVote rpc) p = io_map RVote (io_map_err RE_Raft (r_vote r rpc)) p"
| "handle_body r it (ReqContainsKey m key consistency) p =
     io_bind (srv_ensure_consistency r consistency)
       (\<lambda>_. io_get (\<lambda>p. RContainsKey (contains_key m key (p_sm p)))) p"
| "handle_body r it (ReqInsert m key val) p = handle_write r (RaftInsert m key val) p"
| "handle_body r it (ReqInsertMulti m key val) p = handle_write r (RaftInsertMulti m key val) p"
| "handle_body r it (ReqGet m key consistency) p =
     io_bind (srv_ensure_consistency r consistency)
       (\<lambda>_. io_get (\<lambda>p. RGet (get_with_lock m key (p_sm p)))) p"
| "handle_body r it (ReqGetMulti m key consistency) p =
     io_bind (srv_ensure_consistency r consistency)
       (\<lambda>_. io_get (\<lambda>p. RGetMulti (map_option it (get_with_lock_multi m key (p_sm p))))) p"
| "handle_body r it (ReqRemove m key) p =
     (case sm_remove m key (p_sm p) of (old, sm) \<Rightarrow> (Inr (RRemove old), p\<lparr>p_sm := sm\<rparr>))"
| "handle_body r it (ReqRemoveMulti m key val) p =
     (case remove_multi_value m key val (p_sm p) of
        (removed, sm) \<Rightarrow> (Inr (RRemoveMulti (unwrap_or False removed)), p\<lparr>p_sm := sm\<rparr>))"
| "handle_body r it (ReqLen m consistency) p =
     io_bind (srv_ensure_consistency r consistency)
       (\<lambda>_. io_get (\<lambda>p. RLen (map_len m (p_sm p)))) p"
| "handle_body r it (ReqClear m) p = handle_write r (RaftClear m) p"

definition handle_message ::
  "('r, 'q) openraft \<Rightarrow> (bytes fset \<Rightarrow> bytes list) \<Rightarrow> Request \<Rightarrow>
     (('r, 'q) process, RemoteError, Response) io" where
  "handle_message r it message p =
     (case req_target_id message of
        Some target \<Rightarrow>
          (let current_id = srv_id (r_server_metrics r p)
           in if target \<noteq> current_id then (Inl (RE_InvalidNode target current_id), p)
              else handle_body r it (req_body message) p)
      | None \<Rightarrow> handle_body r it (req_body message) p)"

section \<open>The main loop\<close>

text \<open>
  What the loop waits for: a message (\<open>None\<close> once the channel is closed, which disables that
  branch), or the shutdown signal. Between two of them, other tasks of the node may run.
\<close>

datatype ('r, 'q) loop_event =
    Received "Request option"
  | ShutdownReceived
  | Background "('r, 'q) process \<Rightarrow> ('r, 'q) process"

fun main_loop ::
  "('r, 'q) openraft \<Rightarrow> (bytes fset \<Rightarrow> bytes list) \<Rightarrow> ('r, 'q) loop_event list \<Rightarrow> ('r, 'q) process \<Rightarrow>
     reply list \<times> ('r, 'q) process" where
  "main_loop r it [] p = ([], p)"
| "main_loop r it (ShutdownReceived # _) p = ([], p)"
| "main_loop r it (Received None # evs) p = main_loop r it evs p"
| "main_loop r it (Received (Some message) # evs) p =
     (case handle_message r it message p of (reply, p') \<Rightarrow>
        (case main_loop r it evs p' of (replies, p'') \<Rightarrow> (reply # replies, p'')))"
| "main_loop r it (Background f # evs) p = main_loop r it evs (f p)"

section \<open>Specifications\<close>

text \<open>
  A node that stays the leader while no other client writes: a write succeeds and applies exactly
  its own entry, and the check for linearizable reads succeeds without changing the data.
\<close>

definition stable_leader :: "('r, 'q) openraft \<Rightarrow> bool" where
  "stable_leader r \<longleftrightarrow>
     (\<forall>req p. \<exists>resp p'. r_client_write r req p = (Inr resp, p') \<and>
        state_machine (p_sm p') =
          state_machine (snd (sm_apply [entry_of (cw_log_id resp) req] (p_sm p))) \<and>
        cw_data resp = fst (apply_request req (the_data (p_sm p)))) \<and>
     (\<forall>p. \<exists>p'. r_ensure_linearizable r p = (Inr (), p') \<and> state_machine (p_sm p') = state_machine (p_sm p))"

text \<open>The request for an operation on a map, with linearizable reads, and the output in a reply.\<close>

fun op_request :: "map_op \<Rightarrow> RequestBody" where
  "op_request (MInsert _ m k v) = ReqInsert m k v"
| "op_request (MRemove m k) = ReqRemove m k"
| "op_request (MClear _ m) = ReqClear m"
| "op_request (MGet m k) = ReqGet m k ReadIndex"
| "op_request (MContains m k) = ReqContainsKey m k ReadIndex"
| "op_request (MLen m) = ReqLen m ReadIndex"

fun reply_out :: "reply \<Rightarrow> map_out option" where
  "reply_out (Inr (RClientWrite resp)) =
     (case cw_data resp of RespInsert old \<Rightarrow> Some (OValue old) | RespClear \<Rightarrow> Some OUnit | _ \<Rightarrow> None)"
| "reply_out (Inr (RRemove old)) = Some (OValue old)"
| "reply_out (Inr (RGet val)) = Some (OValue val)"
| "reply_out (Inr (RContainsKey b)) = Some (OBool b)"
| "reply_out (Inr (RLen n)) = Some (OLen (unwrap_or 0 n))"
| "reply_out _ = None"

definition untargeted :: "RequestBody \<Rightarrow> Request" where
  "untargeted body = \<lparr>req_target_id = None, req_body = body\<rparr>"

text \<open>Requests that leave a given key of a map alone.\<close>

fun spares :: "string \<Rightarrow> bytes \<Rightarrow> RaftRequest \<Rightarrow> bool" where
  "spares m k (RaftInsert m' k' _) = (m' \<noteq> m \<or> k' \<noteq> k)"
| "spares m k (RaftClear m') = (m' \<noteq> m)"
| "spares m k (RaftInsertMulti _ _ _) = True"

lemma handle_untargeted: "handle_message r it (untargeted body) = handle_body r it body"
  by (rule ext) (simp add: handle_message_def untargeted_def)

lemma stable_leaderD:
  assumes "stable_leader r"
  obtains resp p' where "r_client_write r req p = (Inr resp, p')"
    "state_machine (p_sm p') = state_machine (snd (sm_apply [entry_of (cw_log_id resp) req] (p_sm p)))"
    "cw_data resp = fst (apply_request req (the_data (p_sm p)))"
  using assms unfolding stable_leader_def by blast

lemma stable_leader_read:
  assumes "stable_leader r"
  obtains p' where "r_ensure_linearizable r p = (Inr (), p')" "state_machine (p_sm p') = state_machine (p_sm p)"
  using assms unfolding stable_leader_def by blast

lemma state_machine_reads:
  assumes "state_machine sm = state_machine sm'"
  shows "get_with_lock m k sm = get_with_lock m k sm'" "contains_key m k sm = contains_key m k sm'"
    "map_len m sm = map_len m sm'" "map_view sm = map_view sm'"
  using assms by (simp_all add: get_with_lock_def contains_key_def map_len_def map_view_def)

lemma fold_spares:
  "\<forall>req \<in> set rs. spares m k req \<Longrightarrow>
     data_get m k (fold (\<lambda>r d. snd (apply_request r d)) rs d) = data_get m k d"
proof (induction rs arbitrary: d)
  case (Cons req rs)
  then have "data_get m k (snd (apply_request req d)) = data_get m k d"
    by (cases req) (auto simp: apply_request_store sm_map.get_insert sm_map.get_clear)
  with Cons show ?case by simp
qed simp

text \<open>One operation through the server is one step of the abstract maps.\<close>

lemma handle_simulates:
  assumes "stable_leader r" "handle_message r it (untargeted (op_request op)) p = (reply, p')"
  shows "reply_out reply = Some (fst (amap_step op (map_view (p_sm p)))) \<and>
         map_view (p_sm p') = snd (amap_step op (map_view (p_sm p)))"
proof -
  have body: "handle_body r it (op_request op) p = (reply, p')"
    using assms(2) by (simp add: handle_untargeted)
  show ?thesis
  proof (cases op)
    case (MInsert l m k v)
    obtain resp q where w: "r_client_write r (RaftInsert m k v) p = (Inr resp, q)"
      "state_machine (p_sm q) = state_machine (snd (sm_apply [entry_of (cw_log_id resp) (RaftInsert m k v)] (p_sm p)))"
      "cw_data resp = fst (apply_request (RaftInsert m k v) (the_data (p_sm p)))"
      by (rule stable_leaderD [OF assms(1)])
    with body MInsert show ?thesis
      by (auto simp: handle_write_def io_defs sm_apply_single apply_request_store map_view_data
          sm_map.insert_old sm_map.get_insert intro!: ext)
  next
    case (MClear l m)
    obtain resp q where w: "r_client_write r (RaftClear m) p = (Inr resp, q)"
      "state_machine (p_sm q) = state_machine (snd (sm_apply [entry_of (cw_log_id resp) (RaftClear m)] (p_sm p)))"
      "cw_data resp = fst (apply_request (RaftClear m) (the_data (p_sm p)))"
      by (rule stable_leaderD [OF assms(1)])
    with body MClear show ?thesis
      by (auto simp: handle_write_def io_defs sm_apply_single apply_request_store map_view_data
          sm_map.get_clear intro!: ext)
  next
    case (MRemove m k)
    with body sm_step_simulates [of "MRemove m k" "p_sm p"] show ?thesis
      by (auto split: prod.splits)
  next
    case (MGet m k)
    obtain q where "r_ensure_linearizable r p = (Inr (), q)" "state_machine (p_sm q) = state_machine (p_sm p)"
      by (rule stable_leader_read [OF assms(1)])
    with body MGet show ?thesis
      by (auto simp: srv_ensure_consistency_def io_defs map_view_def get_with_lock_def)
  next
    case (MContains m k)
    obtain q where q: "r_ensure_linearizable r p = (Inr (), q)" "state_machine (p_sm q) = state_machine (p_sm p)"
      by (rule stable_leader_read [OF assms(1)])
    from body MContains state_machine_reads [OF q(2)] q(1) show ?thesis
      by (auto simp: srv_ensure_consistency_def io_defs contains_key_get map_view_def)
  next
    case (MLen m)
    obtain q where q: "r_ensure_linearizable r p = (Inr (), q)" "state_machine (p_sm q) = state_machine (p_sm p)"
      by (rule stable_leader_read [OF assms(1)])
    from body MLen state_machine_reads [OF q(2)] q(1) sm_step_simulates [of "MLen m" "p_sm p"] show ?thesis
      by (auto simp: srv_ensure_consistency_def io_defs)
  qed
qed

text \<open>
  A one-node raft for the concrete instances: its own state is the next log index, it commits and
  applies every write at once, it accepts every member, and it is always the leader.
\<close>

definition solo_client_write ::
  "RaftRequest \<Rightarrow> ((u64, 'q) process, ClientWriteError RaftError, ClientWriteResponse) io" where
  "solo_client_write req p =
     (let l = LogId (LeaderId 1 7) (raft_core p);
          resp = fst (apply_request req (the_data (p_sm p)))
      in (Inr \<lparr>cw_log_id = l, cw_data = resp, cw_membership = None\<rparr>,
          p\<lparr>raft_core := raft_core p + 1, p_sm := snd (sm_apply [entry_of l req] (p_sm p))\<rparr>))"

definition solo_node :: Node where
  "solo_node = Node_new example_addr ''localhost''"

definition solo_metrics :: RaftMetrics where
  "solo_metrics = \<lparr>metrics_id = 7, metrics_state = Leader, metrics_current_leader = Some 7,
     metrics_membership_config = \<lparr>membership_log_id = Some (LogId (LeaderId 1 7) 0),
       membership = \<lparr>joint_config = [{|7|}], voter_ids = [7], learner_ids = [], mem_nodes = [(7, solo_node)]\<rparr>\<rparr>\<rparr>"

definition solo_accepted :: ClientWriteResponse where
  "solo_accepted = \<lparr>cw_log_id = LogId (LeaderId 1 7) 1, cw_data = RespNoop, cw_membership = None\<rparr>"

definition solo_raft :: "(u64, 'q) openraft" where
  "solo_raft = \<lparr>r_client_write = solo_client_write,
     r_add_learner = (\<lambda>_ _ _ p. (Inr solo_accepted, p)),
     r_change_membership = (\<lambda>_ _ p. (Inr solo_accepted, p)),
     r_append_entries = (\<lambda>_ p. (Inl (RaftFatal 0), p)),
     r_vote = (\<lambda>_ p. (Inl (RaftFatal 0), p)),
     r_ensure_linearizable = (\<lambda>p. (Inr (), p)),
     r_current_leader = (\<lambda>p. (Some 7, p)),
     r_metrics = (\<lambda>_. solo_metrics),
     r_server_metrics = (\<lambda>_. \<lparr>srv_id = 7, srv_state = Leader\<rparr>),
     r_shutdown = (\<lambda>p. (Inr (), p))\<rparr>"

definition solo_process :: "(u64, unit) process" where
  "solo_process = \<lparr>raft_core = 1, p_sm = StateMachine_default, p_monitor = HeartbeatMonitor_default,
     connections = fmempty, watchers = [], p_tasks = [], quic = ()\<rparr>"

definition no_order :: "bytes fset \<Rightarrow> bytes list" where
  "no_order s = []"

lemma solo_stable: "stable_leader solo_raft"
  by (simp add: stable_leader_def solo_raft_def solo_client_write_def Let_def)

lemma solo_applies: "client_write_applies solo_raft"
proof -
  have "apply_loop ([] @ entry_of l req # []) inner [] =
      apply_loop [entry_of l req] inner []" for l req inner by simp
  moreover have "state_machine (snd (sm_apply [entry_of l req] sm)) =
      snd (apply_loop [entry_of l req] (state_machine sm) [])" for l req sm
    by (simp add: sm_apply_eq del: apply_loop.simps)
  ultimately show ?thesis
    unfolding client_write_applies_def
    by (auto simp: solo_raft_def solo_client_write_def Let_def simp del: apply_loop.simps(2)
        intro!: exI [of _ "[]"])
qed

section \<open>Properties\<close>

text \<open>
  C3 (server_refines_maps): a node that is a stable leader answers any sequence of insert,
  remove, clear, get, contains and len requests as the abstract maps do: the replies carry the
  outputs of the dictionary operations, in order, and the maps end up equal.
\<close>

theorem server_refines_maps:
  assumes "stable_leader r"
    and "run_steps (\<lambda>op. handle_message r it (untargeted (op_request op))) ops p = (replies, p')"
  shows "run_steps amap_step ops (map_view (p_sm p)) = (map (the \<circ> reply_out) replies, map_view (p_sm p')) \<and>
         None \<notin> set (map reply_out replies)"
  using assms(2)
proof (induction ops arbitrary: p replies)
  case (Cons op ops)
  obtain reply q where h: "handle_message r it (untargeted (op_request op)) p = (reply, q)" by fastforce
  with Cons.prems obtain rest where rest: "replies = reply # rest"
    "run_steps (\<lambda>op. handle_message r it (untargeted (op_request op))) ops q = (rest, p')"
    by (auto split: prod.splits)
  from handle_simulates [OF assms(1) h] Cons.IH [OF rest(2)] rest(1) show ?case
    by (cases "amap_step op (map_view (p_sm p))") simp
qed simp

theorem server_refines_maps_witness:
  "map reply_out (fst (run_steps (\<lambda>op. handle_message solo_raft no_order (untargeted (op_request op)))
     [MInsert (LogId (LeaderId 1 7) 1) ''m'' [1] [2], MGet ''m'' [1], MRemove ''m'' [1], MLen ''m''] solo_process)) =
   [Some (OValue None), Some (OValue (Some [2])), Some (OValue (Some [2])), Some (OLen 0)]"
proof -
  let ?ops = "[MInsert (LogId (LeaderId 1 7) 1) ''m'' [1] [2], MGet ''m'' [1], MRemove ''m'' [1], MLen ''m'']"
  obtain replies p' where run: "run_steps (\<lambda>op. handle_message solo_raft no_order (untargeted (op_request op)))
      ?ops solo_process = (replies, p')" by fastforce
  have view: "map_view (p_sm solo_process) = (\<lambda>_. Map.empty)"
    by (simp add: fun_eq_iff map_view_data solo_process_def StateMachine_default_def data_get_def
        StateMachineData_default_def)
  have "map (the \<circ> reply_out) replies =
      [OValue None, OValue (Some [2]), OValue (Some [2]), OLen 0]" "None \<notin> set (map reply_out replies)"
    using server_refines_maps [OF solo_stable run] by (auto simp: view)
  then have "map reply_out replies = map Some [OValue None, OValue (Some [2]), OValue (Some [2]), OLen 0]"
    by (metis (no_types, lifting) comp_apply list.map_comp list.map_cong0 list.set_map map_idI
        image_eqI option.collapse)
  then show ?thesis by (simp only: run fst_conv) simp
qed

text \<open>
  C17 (insert_through_raft): when an insert request succeeds, the node has applied the insertion as a
  log entry, possibly among others: the reply carries the value the key had right before the
  entry, and the key has the new value on this node unless a request applied after the entry wrote
  to it.
\<close>

theorem insert_through_raft:
  assumes "client_write_applies r"
    and "handle_message r it (untargeted (ReqInsert m k v)) p = (Inr reply, p')"
  shows "\<exists>resp before after. reply = RClientWrite resp \<and>
    cw_data resp = RespInsert (get_with_lock m k (snd (sm_apply before (p_sm p)))) \<and>
    state_machine (p_sm p') = state_machine (snd (sm_apply
      (before @ entry_of (cw_log_id resp) (RaftInsert m k v) # after) (p_sm p))) \<and>
    ((\<forall>req \<in> set (requests after). spares m k req) \<longrightarrow> get_with_lock m k (p_sm p') = Some v)"
proof -
  obtain resp where w: "r_client_write r (RaftInsert m k v) p = (Inr resp, p')" and reply: "reply = RClientWrite resp"
    using assms(2) by (auto simp: handle_untargeted handle_write_def io_defs map_sum_eqs split: prod.splits)
  let ?e = "entry_of (cw_log_id resp) (RaftInsert m k v)"
  obtain bef aft where sm: "state_machine (p_sm p') = snd (apply_loop (bef @ ?e # aft) (state_machine (p_sm p)) [])"
    and cw: "cw_data resp = fst (apply_request (RaftInsert m k v)
      (sm_data (snd (apply_loop bef (state_machine (p_sm p)) []))))"
    using assms(1) w unfolding client_write_applies_def by blast
  have old: "cw_data resp = RespInsert (get_with_lock m k (snd (sm_apply bef (p_sm p))))"
    by (simp add: cw apply_request_store sm_map.insert_old get_with_lock_def sm_apply_eq)
  have pos: "state_machine (p_sm p') = state_machine (snd (sm_apply (bef @ ?e # aft) (p_sm p)))"
    by (simp add: sm sm_apply_eq del: apply_loop.simps)
  have "get_with_lock m k (p_sm p') = Some v" if "\<forall>req \<in> set (requests aft). spares m k req"
    using that by (simp add: get_with_lock_def sm apply_loop_data fold_spares entry_of_def
        apply_request_store sm_map.get_insert)
  with reply old pos show ?thesis by blast
qed

theorem insert_through_raft_witness:
  "fst (handle_message solo_raft no_order (untargeted (ReqInsert ''m'' [1] [2])) solo_process) =
     Inr (RClientWrite \<lparr>cw_log_id = LogId (LeaderId 1 7) 1, cw_data = RespInsert None, cw_membership = None\<rparr>) \<and>
   (\<exists>p' before after.
      handle_message solo_raft no_order (untargeted (ReqInsert ''m'' [1] [2])) solo_process =
        (Inr (RClientWrite \<lparr>cw_log_id = LogId (LeaderId 1 7) 1, cw_data = RespInsert None, cw_membership = None\<rparr>), p') \<and>
      RespInsert None = RespInsert (get_with_lock ''m'' [1] (snd (sm_apply before (p_sm solo_process)))) \<and>
      ((\<forall>req \<in> set (requests after). spares ''m'' [1] req) \<longrightarrow> get_with_lock ''m'' [1] (p_sm p') = Some [2]))"
proof -
  let ?resp = "\<lparr>cw_log_id = LogId (LeaderId 1 7) 1, cw_data = RespInsert None, cw_membership = None\<rparr>"
  obtain p' where h: "handle_message solo_raft no_order (untargeted (ReqInsert ''m'' [1] [2])) solo_process =
      (Inr (RClientWrite ?resp), p')"
    by (simp add: handle_untargeted handle_write_def io_defs solo_raft_def solo_client_write_def solo_process_def
        apply_request.simps StateMachine_default_def StateMachineData_default_def Let_def)
  from insert_through_raft [OF solo_applies h] h show ?thesis by auto
qed

text \<open>
  C31 (learner_address_unique): a node can only join with a socket address that no member uses: a
  request with the address of a member is refused with the id of a member at that address, and
  the cluster is not changed; otherwise the request goes to openraft.
\<close>

theorem learner_address_unique:
  fixes r :: "('r, 'q) openraft" and p :: "('r, 'q) process"
  defines "members \<equiv> mem_nodes (membership (metrics_membership_config (r_metrics r p)))"
  shows "if node_addr peer \<in> (node_addr \<circ> snd) ` set members
    then \<exists>i n. (i, n) \<in> set members \<and> node_addr n = node_addr peer \<and>
           handle_message r it (untargeted (ReqAddLearner new_id peer blocking)) p =
             (Inl (RE_NodeExists i (node_addr peer)), p)
    else handle_message r it (untargeted (ReqAddLearner new_id peer blocking)) p =
           io_map RAddLearner (io_map_err RE_RaftWrite (r_add_learner r new_id peer blocking)) p"
proof (cases "List.find (\<lambda>(_, m). node_addr m = node_addr peer) members")
  case None
  then have "node_addr peer \<notin> (node_addr \<circ> snd) ` set members"
    by (fastforce simp: find_None_iff)
  with None show ?thesis by (simp add: handle_untargeted members_def)
next
  case (Some x)
  then obtain i n where x: "x = (i, n)" "(i, n) \<in> set members" "node_addr n = node_addr peer"
    by (cases x) (auto simp: find_Some_iff dest: nth_mem)
  then have "node_addr peer \<in> (node_addr \<circ> snd) ` set members" by force
  moreover have "handle_message r it (untargeted (ReqAddLearner new_id peer blocking)) p =
      (Inl (RE_NodeExists i (node_addr peer)), p)"
    using Some x by (simp add: handle_untargeted members_def)
  ultimately show ?thesis using x by auto
qed

text \<open>
  C38 (remove_not_replicated): a remove request is not proposed to openraft. It only changes the
  state machine of the node that handles it and leaves its log position and openraft's state as
  they were. So when the key was present, a replica that had the same state before now disagrees
  about the key although both have applied the same log.
\<close>

theorem remove_not_replicated:
  assumes "get_with_lock m k (p_sm p) = Some v"
    and "state_machine (p_sm replica) = state_machine (p_sm p)"
    and "handle_message r it (untargeted (ReqRemove m k)) p = (reply, p')"
  shows "reply = Inr (RRemove (Some v)) \<and> raft_core p' = raft_core p \<and>
    applied_state (p_sm p') = applied_state (p_sm replica) \<and>
    get_with_lock m k (p_sm p') = None \<and> get_with_lock m k (p_sm replica) = Some v"
proof -
  obtain old d where d: "data_remove m k (the_data (p_sm p)) = (old, d)" by fastforce
  have p': "reply = Inr (RRemove old)" "p' = p\<lparr>p_sm := update_data (\<lambda>_. d) (p_sm p)\<rparr>"
    using assms(3) by (simp_all add: handle_untargeted sm_remove_def d)
  have "old = Some v" "data_get m k d = None"
    using sm_map.remove_old [of m k "the_data (p_sm p)"] sm_map.get_remove [of m k m k "the_data (p_sm p)"]
      assms(1) by (simp_all add: d get_with_lock_def)
  then show ?thesis
    using assms(1,2) by (simp add: p' applied_state_def get_with_lock_def)
qed

definition filled_process :: "(u64, unit) process" where
  "filled_process = snd (handle_message solo_raft no_order (untargeted (ReqInsert ''m'' [1] [2])) solo_process)"

lemma filled_process: "get_with_lock ''m'' [1] (p_sm filled_process) = Some [2]"
  by (simp add: filled_process_def handle_untargeted handle_write_def io_defs solo_raft_def
      solo_client_write_def Let_def sm_apply_single apply_request_store get_with_lock_def sm_map.get_insert)

theorem remove_not_replicated_witness:
  "get_with_lock ''m'' [1] (p_sm (snd (handle_message solo_raft no_order (untargeted (ReqRemove ''m'' [1])) filled_process))) = None"
proof -
  obtain reply p' where h: "handle_message solo_raft no_order (untargeted (ReqRemove ''m'' [1])) filled_process = (reply, p')"
    by fastforce
  from remove_not_replicated [OF filled_process refl h] h show ?thesis by simp
qed

text \<open>
  The main loop answers the messages it receives one after the
  other, each in the state the previous one left, and serves nothing after the shutdown signal.
\<close>

lemma main_loop_serves_in_order:
  "main_loop r it (map (Received \<circ> Some) msgs @ ShutdownReceived # rest) p =
     run_steps (handle_message r it) msgs p"
  by (induction msgs arbitrary: p) (auto split: prod.split)

end
