(* ===== verification/Request_Server.thy ===== *)
theory Request_Server
  imports Cluster_Server Client
begin

text \<open>
  The transport side of a node (\<open>connection/server.rs\<close>): accepting connections and streams, and
  turning the bytes of one stream into one message for the main loop and its reply back into
  bytes. The second part composes client, wire and server.
\<close>

section \<open>Accepting connections and streams\<close>

text \<open>
  An incoming connection whose address is not validated is answered with a retry packet; the
  result of \<open>retry\<close> is unwrapped. A panic ends the accepting task.
\<close>

datatype incoming = Validated conn | Unvalidated "token + unit"

datatype accept_action = HandleConnection conn | SentRetry

fun server_accept :: "incoming list \<Rightarrow> accept_action list \<times> panic option" where
  "server_accept [] = ([], None)"
| "server_accept (Validated c # rest) = apfst (Cons (HandleConnection c)) (server_accept rest)"
| "server_accept (Unvalidated (Inr _) # rest) = apfst (Cons SentRetry) (server_accept rest)"
| "server_accept (Unvalidated (Inl _) # _) = ([], Some (Panic ''retry''))"

text \<open>
  The loop over the streams of a connection: every stream is handed to a task of its own; the
  result is \<open>None\<close> as long as the connection stays open.
\<close>

fun accept_streams :: "(ConnectionError + stream) list \<Rightarrow> stream list \<times> (Error + unit) option" where
  "accept_streams [] = ([], None)"
| "accept_streams (Inr s # rest) = apfst (Cons s) (accept_streams rest)"
| "accept_streams (Inl (ApplicationClosed _) # _) = ([], Some (Inr ()))"
| "accept_streams (Inl TimedOut # _) = ([], Some (Inr ()))"
| "accept_streams (Inl LocallyClosed # _) = ([], Some (Inr ()))"
| "accept_streams (Inl e # _) = ([], Some (Inl (Err_Transport (TE_Connection e))))"

definition handle_connection ::
  "ConnectionError + conn \<Rightarrow> (ConnectionError + stream) list \<Rightarrow> stream list \<times> (Error + unit) option" where
  "handle_connection conn streams =
     (case conn of
        Inl e \<Rightarrow> ([], Some (Inl (Err_Transport (TE_Connection e))))
      | Inr _ \<Rightarrow> accept_streams streams)"

section \<open>Handling one request\<close>

text \<open>
  What becomes of a message sent to the main loop: the channel is closed, the loop ends without
  replying, or it replies.
\<close>

datatype delivery = SendFailed | ReplyDropped | Replied reply

datatype RequestError =
    ReadFailed ReadToEndError | RequestDecode PostcardError | ChannelClosed
  | ReplyEncode PostcardError | ReplyWriteFailed WriteError

definition max_request_size :: nat where
  "max_request_size = 64 * 1024"

text \<open>The two halves of the stream are the parameters \<open>recv\<close>, \<open>send\<close> and \<open>finish\<close>.\<close>

definition handle_request ::
  "(nat \<Rightarrow> ('w, ReadToEndError, bytes) io) \<Rightarrow> (bytes \<Rightarrow> ('w, WriteError, unit) io) \<Rightarrow> ('w \<Rightarrow> 'w) \<Rightarrow>
     postcard \<Rightarrow> (Request \<Rightarrow> 'w \<Rightarrow> delivery \<times> 'w) \<Rightarrow> ('w, RequestError, unit) io" where
  "handle_request recv send finish pc sender =
     io_bind (io_map_err ReadFailed (recv max_request_size)) (\<lambda>req.
     io_bind (io_result (map_sum RequestDecode id (dec_request pc req))) (\<lambda>message w.
       (case sender message w of
          (SendFailed, w1) \<Rightarrow> (Inl ChannelClosed, w1)
        | (ReplyDropped, w1) \<Rightarrow> (Inr (), finish w1)
        | (Replied reply, w1) \<Rightarrow>
            io_bind (io_result (map_sum ReplyEncode id (enc_reply pc reply))) (\<lambda>msg.
            io_bind (io_map_err ReplyWriteFailed (send msg)) (\<lambda>_ w2. (Inr (), finish w2))) w1)))"

section \<open>Client, wire and server together\<close>

text \<open>
  A stream in memory: it holds the request and collects the reply. \<open>read_to_end\<close> fails on more
  bytes than its limit.
\<close>

definition memory_recv :: "bytes \<Rightarrow> nat \<Rightarrow> ('p \<times> bytes, ReadToEndError, bytes) io" where
  "memory_recv b limit = (\<lambda>w. (if length b \<le> limit then Inr b else Inl 0, w))"

definition memory_send :: "bytes \<Rightarrow> ('p \<times> bytes, WriteError, unit) io" where
  "memory_send b = (\<lambda>(p, out). (Inr (), (p, out @ b)))"

definition main_loop_sender ::
  "('r, 'q) openraft \<Rightarrow> (bytes fset \<Rightarrow> bytes list) \<Rightarrow> Request \<Rightarrow> ('r, 'q) process \<times> bytes \<Rightarrow>
     delivery \<times> ('r, 'q) process \<times> bytes" where
  "main_loop_sender r it message = (\<lambda>(p, out).
     case handle_message r it message p of (reply, p') \<Rightarrow> (Replied reply, (p', out)))"

text \<open>The bytes a server with a running main loop sends back on a stream.\<close>

definition serve_bytes ::
  "('r, 'q) openraft \<Rightarrow> (bytes fset \<Rightarrow> bytes list) \<Rightarrow> postcard \<Rightarrow> bytes \<Rightarrow> ('r, 'q) process \<Rightarrow>
     bytes \<times> ('r, 'q) process" where
  "serve_bytes r it pc b p =
     prod.swap (snd (handle_request (memory_recv b) memory_send id pc (main_loop_sender r it) (p, [])))"

text \<open>
  A connection that leads to a server: a stream carries the bytes written to it to the server and the
  server's bytes back. The server runs on the node \<open>at p\<close>, which may be another one than the node that
  holds the connection. The transport does not change the data of the server's node.
\<close>

definition delivers ::
  "('r, 'q) quinn \<Rightarrow> conn \<Rightarrow> (('r, 'q) process \<Rightarrow> ('s, 't) process) \<Rightarrow>
     (bytes \<Rightarrow> ('s, 't) process \<Rightarrow> bytes \<times> ('s, 't) process) \<Rightarrow> bool" where
  "delivers q c at serve \<longleftrightarrow>
     (\<forall>p. \<exists>s p1. q_open_bi q c p = (Inr s, p1) \<and>
        (\<forall>b. \<exists>p2 n p3. q_write_all q s b p1 = (Inr (), p2) \<and> p_sm n = p_sm (at p) \<and>
           q_read_to_end q usize_max s (q_finish q s p2) = (Inr (fst (serve b n)), p3) \<and>
           at p3 = snd (serve b n)))"

text \<open>What postcard promises: what was encoded is decoded again, and no value is zero bytes long.\<close>

definition reply_codec_ok :: "postcard \<Rightarrow> bool" where
  "reply_codec_ok pc \<longleftrightarrow> (\<forall>reply. \<exists>b. enc_reply pc reply = Inr b \<and> dec_reply pc b = Inr reply) \<and>
     (\<exists>e. dec_reply pc [] = Inl e)"

definition request_encoded :: "postcard \<Rightarrow> Request \<Rightarrow> bytes \<Rightarrow> bool" where
  "request_encoded pc msg b \<longleftrightarrow> enc_request pc msg = Inr b \<and> dec_request pc b = Inr msg"

lemma serve_bytes_fits:
  assumes "request_encoded pc msg b" "length b \<le> max_request_size" "reply_codec_ok pc"
  shows "\<exists>out. serve_bytes r it pc b p = (out, snd (handle_message r it msg p)) \<and>
     dec_reply pc out = Inr (fst (handle_message r it msg p))"
proof -
  obtain reply p' where h: "handle_message r it msg p = (reply, p')" by fastforce
  obtain out where "enc_reply pc reply = Inr out" "dec_reply pc out = Inr reply"
    using assms(3) unfolding reply_codec_ok_def by blast
  with assms(1,2) h show ?thesis
    by (simp add: serve_bytes_def handle_request_def memory_recv_def memory_send_def main_loop_sender_def
        io_defs request_encoded_def)
qed

lemma serve_bytes_too_long:
  "max_request_size < length b \<Longrightarrow> serve_bytes r it pc b p = ([], p)"
  by (simp add: serve_bytes_def handle_request_def memory_recv_def io_defs)

lemma exchange_delivers:
  assumes "delivers q c at serve" "enc_request pc msg = Inr b"
  obtains n p' where "p_sm n = p_sm (at p)" "at p' = snd (serve b n)"
    "client_exchange q pc c msg p =
       (map_sum (\<lambda>e. Err_Protocol (DeserializeResponse e)) id (dec_reply pc (fst (serve b n))), p')"
proof -
  from assms(1) obtain s p1 where o: "q_open_bi q c p = (Inr s, p1)"
    and "\<forall>b. \<exists>p2 n p3. q_write_all q s b p1 = (Inr (), p2) \<and> p_sm n = p_sm (at p) \<and>
           q_read_to_end q usize_max s (q_finish q s p2) = (Inr (fst (serve b n)), p3) \<and> at p3 = snd (serve b n)"
    unfolding delivers_def by blast
  then obtain p2 n p3 where "q_write_all q s b p1 = (Inr (), p2)" "p_sm n = p_sm (at p)"
      "q_read_to_end q usize_max s (q_finish q s p2) = (Inr (fst (serve b n)), p3)" "at p3 = snd (serve b n)" by blast
  then show thesis
    by (intro that [of n p3]) (simp_all add: client_exchange_def io_defs o assms(2))
qed

lemma exchange_handled:
  assumes "delivers q c at (serve_bytes r it pc)" "reply_codec_ok pc"
    and "request_encoded pc msg b" "length b \<le> max_request_size"
  obtains n p' where "p_sm n = p_sm (at p)" "at p' = snd (handle_message r it msg n)"
    "client_exchange q pc c msg p = (Inr (fst (handle_message r it msg n)), p')"
proof -
  have enc: "enc_request pc msg = Inr b" using assms(3) by (simp add: request_encoded_def)
  obtain n p' where n: "p_sm n = p_sm (at p)" "at p' = snd (serve_bytes r it pc b n)"
    "client_exchange q pc c msg p =
       (map_sum (\<lambda>e. Err_Protocol (DeserializeResponse e)) id (dec_reply pc (fst (serve_bytes r it pc b n))), p')"
    by (rule exchange_delivers [OF assms(1) enc])
  moreover obtain out where "serve_bytes r it pc b n = (out, snd (handle_message r it msg n))"
     "dec_reply pc out = Inr (fst (handle_message r it msg n))"
    using serve_bytes_fits [OF assms(3,4,2)] by blast
  ultimately show thesis by (intro that [of n p']) simp_all
qed

text \<open>The one-node raft behind a transport that keeps the last bytes written.\<close>

definition loopback_quinn ::
  "(bytes \<Rightarrow> ('r, bytes) process \<Rightarrow> bytes \<times> ('r, bytes) process) \<Rightarrow> ('r, bytes) quinn" where
  "loopback_quinn serve = \<lparr>q_connect = (\<lambda>_ _ p. (Inr 0, p)), q_connecting = (\<lambda>_ p. (Inr 0, p)),
     q_close_reason = (\<lambda>_ _. None), q_open_bi = (\<lambda>_ p. (Inr 0, p)),
     q_write_all = (\<lambda>_ b p. (Inr (), p\<lparr>quic := b\<rparr>)), q_finish = (\<lambda>_ p. p),
     q_read_to_end = (\<lambda>_ _ p. apfst Inr (serve (quic p) p)), q_close = (\<lambda>_ p. p)\<rparr>"

definition listed_postcard :: "Request list \<Rightarrow> postcard" where
  "listed_postcard msgs =
     \<lparr>enc_request = (\<lambda>msg. case List.find (\<lambda>i. msgs ! i = msg) [0..<length msgs] of
          Some i \<Rightarrow> Inr (replicate i 0) | None \<Rightarrow> Inl 0),
      dec_request = (\<lambda>b. if length b < length msgs then Inr (msgs ! length b) else Inl 0),
      enc_reply = unary_enc, dec_reply = unary_dec\<rparr>"

lemma loopback_delivers: "delivers (loopback_quinn serve) c (\<lambda>p. p) serve"
proof -
  have "\<exists>p2 n p3. q_write_all (loopback_quinn serve) 0 b p = (Inr (), p2) \<and> p_sm n = p_sm p \<and>
      q_read_to_end (loopback_quinn serve) usize_max 0 (q_finish (loopback_quinn serve) 0 p2) =
        (Inr (fst (serve b n)), p3) \<and> p3 = snd (serve b n)" for b and p :: "('a, bytes) process"
    by (intro exI [of _ "p\<lparr>quic := b\<rparr>"] exI [of _ "snd (serve b (p\<lparr>quic := b\<rparr>))"])
      (simp add: loopback_quinn_def apfst_def map_prod_def split: prod.split)
  moreover have "q_open_bi (loopback_quinn serve) c p = (Inr 0, p)" for p
    by (simp add: loopback_quinn_def)
  ultimately show ?thesis unfolding delivers_def by blast
qed

lemma listed_reply_codec: "reply_codec_ok (listed_postcard msgs)"
  unfolding reply_codec_ok_def
  by (auto simp: listed_postcard_def unary_round_trip unary_dec_def intro!: exI)
    (auto simp: unary_enc_def)

lemma listed_request_encoded:
  assumes "i < length msgs" "\<forall>j < i. msgs ! j \<noteq> msgs ! i"
  shows "request_encoded (listed_postcard msgs) (msgs ! i) (replicate i 0)"
proof -
  have "List.find (\<lambda>j. msgs ! j = msgs ! i) [0..<length msgs] = Some i"
    using assms by (auto simp: find_Some_iff intro!: exI [of _ i])
  with assms(1) show ?thesis by (simp add: request_encoded_def listed_postcard_def)
qed

section \<open>Properties\<close>


definition loop_process :: "(u64, bytes) process" where
  "loop_process = \<lparr>raft_core = 1, p_sm = StateMachine_default, p_monitor = HeartbeatMonitor_default,
     connections = fmempty, watchers = [], p_tasks = [], quic = []\<rparr>"


end
