(* ===== verification/Collections.thy ===== *)
theory Collections
  imports Request_Server "HOL-Library.List_Lexorder"
begin

text \<open>
  What the distributed collections share (\<open>collections/mod.rs\<close>, \<open>ClusterRef\<close> in \<open>cluster.rs\<close>): the
  handle of the cluster, who the leader is, and when a read may use the local state.
\<close>

section \<open>The cluster handle\<close>

text \<open>
  The state machine and the connection cache of the handle are those of the node; the handles of
  the background tasks are not needed here.
\<close>

record ('r, 'q) ClusterRef =
  cr_node_id :: NodeId
  cr_raft :: "('r, 'q) openraft"
  cr_local_addr :: SocketAddr
  cr_public_addr :: SocketAddr

definition get_leader :: "('r, 'q) ClusterRef \<Rightarrow> ('r, 'q) process \<Rightarrow> (NodeId \<times> Node) option" where
  "get_leader cr p =
     (let metrics = r_metrics (cr_raft cr) p
      in case metrics_current_leader metrics of
           Some leader \<Rightarrow>
             (case get_node (membership (metrics_membership_config metrics)) leader of
                Some node \<Rightarrow> Some (leader, node)
              | None \<Rightarrow> None)
         | None \<Rightarrow> None)"

definition is_leader :: "('r, 'q) ClusterRef \<Rightarrow> ('r, 'q) process \<Rightarrow> bool \<times> ('r, 'q) process" where
  "is_leader cr p =
     (case r_current_leader (cr_raft cr) p of (leader, p') \<Rightarrow>
        (unwrap_or False (map_option (\<lambda>i. i = cr_node_id cr) leader), p'))"

section \<open>Reading locally or from the leader\<close>

definition ensure_consistency ::
  "ReadConsistency \<Rightarrow> ('r, 'q) openraft \<Rightarrow> (('r, 'q) process, CheckIsLeaderError RaftError, unit) io" where
  "ensure_consistency consistency r =
     (case consistency of
        Stale \<Rightarrow> io_return ()
      | LeaderStale \<Rightarrow> io_return ()
      | LeaseRead \<Rightarrow> io_map (\<lambda>_. ()) (r_ensure_linearizable r)
      | ReadIndex \<Rightarrow> io_map (\<lambda>_. ()) (r_ensure_linearizable r))"

definition should_read_stale ::
  "ReadConsistency \<Rightarrow> ('r, 'q) ClusterRef \<Rightarrow> (('r, 'q) process, Error, bool) io" where
  "should_read_stale consistency cr p =
     (if consistency = Stale then (Inr True, p)
      else case is_leader cr p of
        (False, p1) \<Rightarrow> (Inr False, p1)
      | (True, p1) \<Rightarrow>
          (case ensure_consistency consistency (cr_raft cr) p1 of
             (Inr _, p2) \<Rightarrow> (Inr True, p2)
           | (Inl (APIError (CL_ForwardToLeader _)), p2) \<Rightarrow> (Inr False, p2)
           | (Inl err, p2) \<Rightarrow> (Inl (Err_RaftCheckIsLeader err), p2)))"

text \<open>\<open>client_to_leader\<close>, which both collections have.\<close>

definition client_to_leader ::
  "('r, 'q) quinn \<Rightarrow> ('r, 'q) ClusterRef \<Rightarrow> (('r, 'q) process, Error, Client) aio" where
  "client_to_leader q cr p =
     (case get_leader cr p of
        None \<Rightarrow> Some (Inl Err_LeaderNotFound, p)
      | Some (leader, node) \<Rightarrow> Some (Client_new q node (Some leader) p))"

text \<open>The serialization of keys and values, and its errors.\<close>

record ('k, 'v) codec =
  enc_key :: "'k \<Rightarrow> PostcardError + bytes"
  enc_val :: "'v \<Rightarrow> PostcardError + bytes"
  dec_val :: "bytes \<Rightarrow> PostcardError + 'v"

abbreviation serialized :: "PostcardError + 'a \<Rightarrow> Error + 'a" where
  "serialized \<equiv> map_sum Err_Serialization id"

section \<open>A cluster with a leader\<close>

text \<open>
  The leader as seen from some node: its id, its openraft, and its process. For the leader itself the
  process is its own; for another node it is a part of the world outside its process.
\<close>

record ('r, 'q, 's, 't) leader_node =
  ld_id :: NodeId
  ld_raft :: "('s, 't) openraft"
  ld_process :: "('r, 'q) process \<Rightarrow> ('s, 't) process"

abbreviation leader_data :: "('r, 'q, 's, 't) leader_node \<Rightarrow> ('r, 'q) process \<Rightarrow> StateMachineData" where
  "leader_data ld p \<equiv> the_data (p_sm (ld_process ld p))"

text \<open>
  What holds on a node while the cluster has a stable leader: the metrics of the node name the leader,
  connecting succeeds, connections lead to the leader's server, and openraft takes the node itself for
  the leader only if it is: then its state machine is the leader's and it confirms a linearizable read.
\<close>

definition connects :: "('r, 'q) quinn \<Rightarrow> (('r, 'q) process \<Rightarrow> ('s, 't) process) \<Rightarrow> bool" where
  "connects q at \<longleftrightarrow>
     (\<forall>addr name p. \<exists>tok p1 c p2. q_connect q addr name p = (Inr tok, p1) \<and>
        q_connecting q tok p1 = (Inr c, p2) \<and> p_sm (at p2) = p_sm (at p)) \<and>
     (\<forall>addr c p. p_sm (at (cache_insert addr c p)) = p_sm (at p))"

definition knows_if_leading :: "('r, 'q) ClusterRef \<Rightarrow> ('r, 'q, 's, 't) leader_node \<Rightarrow> bool" where
  "knows_if_leading cr ld \<longleftrightarrow>
     (\<forall>p l p1. r_current_leader (cr_raft cr) p = (l, p1) \<longrightarrow>
        leader_data ld p1 = leader_data ld p \<and>
        (l = Some (cr_node_id cr) \<longrightarrow>
           the_data (p_sm p1) = leader_data ld p1 \<and>
           (\<exists>p2. r_ensure_linearizable (cr_raft cr) p1 = (Inr (), p2) \<and>
              leader_data ld p2 = leader_data ld p1 \<and> the_data (p_sm p2) = leader_data ld p2)))"

definition reaches_leader ::
  "('r, 'q) ClusterRef \<Rightarrow> ('r, 'q, 's, 't) leader_node \<Rightarrow> (bytes fset \<Rightarrow> bytes list) \<Rightarrow> ('r, 'q) quinn \<Rightarrow> postcard \<Rightarrow> bool" where
  "reaches_leader cr ld it q pc \<longleftrightarrow>
     stable_leader (ld_raft ld) \<and> connects q (ld_process ld) \<and>
     (\<forall>c. delivers q c (ld_process ld) (serve_bytes (ld_raft ld) it pc)) \<and> reply_codec_ok pc \<and>
     (\<forall>p. \<exists>node. get_leader cr p = Some (ld_id ld, node)) \<and>
     (\<forall>p. srv_id (r_server_metrics (ld_raft ld) p) = ld_id ld) \<and>
     knows_if_leading cr ld"

text \<open>A request that is small enough for the leader's server.\<close>

definition fits :: "NodeId \<Rightarrow> postcard \<Rightarrow> RequestBody \<Rightarrow> bool" where
  "fits leader pc body \<longleftrightarrow> (\<exists>b. request_encoded pc \<lparr>req_target_id = Some leader, req_body = body\<rparr> b \<and>
     length b \<le> max_request_size)"

section \<open>What the leader answers\<close>

text \<open>
  The contract of a leader for the requests of the collections: the response, and the data of its
  state machine before and after.
\<close>

fun answers ::
  "(bytes fset \<Rightarrow> bytes list) \<Rightarrow> RequestBody \<Rightarrow> StateMachineData \<Rightarrow> Response \<Rightarrow> StateMachineData \<Rightarrow> bool" where
  "answers it (ReqInsert m k v) d resp d' =
     (\<exists>r. resp = RClientWrite r \<and> cw_data r = RespInsert (data_get m k d) \<and> d' = snd (data_insert m k v d))"
| "answers it (ReqInsertMulti m k v) d resp d' =
     (\<exists>r. resp = RClientWrite r \<and> cw_data r = RespInsertMulti (v |\<notin>| data_vals m k d) \<and>
        d' = snd (data_insert_multi m k v d))"
| "answers it (ReqClear m) d resp d' = (\<exists>r. resp = RClientWrite r \<and> cw_data r = RespClear \<and> d' = data_clear m d)"
| "answers it (ReqRemove m k) d resp d' = (resp = RRemove (data_get m k d) \<and> d' = snd (data_remove m k d))"
| "answers it (ReqRemoveMulti m k v) d resp d' =
     (resp = RRemoveMulti (v |\<in>| data_vals m k d) \<and> d' = snd (data_remove_multi m k v d))"
| "answers it (ReqGet m k c) d resp d' = (resp = RGet (data_get m k d) \<and> d' = d)"
| "answers it (ReqContainsKey m k c) d resp d' = (resp = RContainsKey (data_get m k d \<noteq> None) \<and> d' = d)"
| "answers it (ReqLen m c) d resp d' = (\<exists>n. resp = RLen n \<and> unwrap_or 0 n = data_len m d \<and> d' = d)"
| "answers it (ReqGetMulti m k c) d resp d' =
     (\<exists>s. resp = RGetMulti (map_option it s) \<and> unwrap_or {||} s = data_vals m k d \<and> d' = d)"
| "answers it _ d resp d' = False"

fun asks_data :: "RequestBody \<Rightarrow> bool" where
  "asks_data (ReqAddLearner _ _ _) = False"
| "asks_data (ReqChangeMembership _ _) = False"
| "asks_data (ReqAppend _) = False"
| "asks_data (ReqVote _) = False"
| "asks_data _ = True"

lemma stable_writes:
  assumes "stable_leader r"
  obtains resp p' where "handle_write r req p = (Inr (RClientWrite resp), p')"
    "the_data (p_sm p') = snd (apply_request req (the_data (p_sm p)))"
    "cw_data resp = fst (apply_request req (the_data (p_sm p)))"
proof -
  obtain resp p' where "r_client_write r req p = (Inr resp, p')"
    "state_machine (p_sm p') = state_machine (snd (sm_apply [entry_of (cw_log_id resp) req] (p_sm p)))"
    "cw_data resp = fst (apply_request req (the_data (p_sm p)))"
    by (rule stable_leaderD [OF assms])
  then show thesis
    by (intro that [of resp p']) (simp_all add: handle_write_def io_defs sm_apply_single)
qed

lemma stable_consistency:
  assumes "stable_leader r"
  obtains p' where "srv_ensure_consistency r consistency p = (Inr (), p')" "the_data (p_sm p') = the_data (p_sm p)"
proof -
  obtain p' where "r_ensure_linearizable r p = (Inr (), p')" "state_machine (p_sm p') = state_machine (p_sm p)"
    by (rule stable_leader_read [OF assms])
  then show thesis using that by (cases consistency) (auto simp: srv_ensure_consistency_def io_defs)
qed

lemma stable_leader_answers:
  assumes "stable_leader r" "asks_data body"
  shows "\<exists>resp p'. handle_body r it body p = (Inr resp, p') \<and>
    answers it body (the_data (p_sm p)) resp (the_data (p_sm p'))"
proof -
  have writes: ?thesis
    if "handle_body r it body p = handle_write r req p"
      "\<And>resp d'. answers it body (the_data (p_sm p)) (RClientWrite resp) d' \<longleftrightarrow>
         (cw_data resp, d') = apply_request req (the_data (p_sm p))" for req
    by (rule stable_writes [OF assms(1), of req p]) (use that in force)
  have reads: ?thesis
    if "\<And>p. handle_body r it body p = io_bind (srv_ensure_consistency r consistency) (\<lambda>_. io_get f) p"
      "\<And>p. answers it body (the_data (p_sm p)) (f p) (the_data (p_sm p))" for consistency f
  proof -
    obtain p' where p': "srv_ensure_consistency r consistency p = (Inr (), p')" "the_data (p_sm p') = the_data (p_sm p)"
      by (rule stable_consistency [OF assms(1)])
    have "handle_body r it body p = (Inr (f p'), p')" using that(1) p'(1) by (simp add: io_defs)
    moreover have "answers it body (the_data (p_sm p)) (f p') (the_data (p_sm p'))"
      using that(2) [of p'] p'(2) by simp
    ultimately show ?thesis by blast
  qed
  show ?thesis
  proof (cases body)
    case (ReqRemove m k)
    then show ?thesis
      using sm_map.remove_old [of m k "the_data (p_sm p)"] by (auto simp: sm_remove_def split: prod.split)
  next
    case (ReqRemoveMulti m k v)
    then show ?thesis
      using sm_multi.remove_present [of m k v "the_data (p_sm p)"]
      by (auto simp: remove_multi_value_def data_remove_multi_def split: prod.split)
  next
    case (ReqInsert m k v)
    then show ?thesis
      by (intro writes [of "RaftInsert m k v"])
        (auto simp: apply_request_store sm_map.insert_old prod_eq_iff)
  next
    case (ReqInsertMulti m k v)
    then show ?thesis
      by (intro writes [of "RaftInsertMulti m k v"])
        (auto simp: apply_request_store sm_multi.insert_new prod_eq_iff)
  next
    case (ReqClear m)
    then show ?thesis
      by (intro writes [of "RaftClear m"]) (auto simp: apply_request_store prod_eq_iff)
  next
    case (ReqGet m k c)
    then show ?thesis
      by (intro reads [of c "\<lambda>p. RGet (get_with_lock m k (p_sm p))"]) (simp_all add: get_with_lock_def)
  next
    case (ReqContainsKey m k c)
    then show ?thesis
      by (intro reads [of c "\<lambda>p. RContainsKey (contains_key m k (p_sm p))"]) (simp_all add: contains_key_get get_with_lock_def)
  next
    case (ReqLen m c)
    then show ?thesis
      by (intro reads [of c "\<lambda>p. RLen (map_len m (p_sm p))"]) (simp_all add: map_len_data)
  next
    case (ReqGetMulti m k c)
    then show ?thesis
      by (intro reads [of c "\<lambda>p. RGetMulti (map_option it (get_with_lock_multi m k (p_sm p)))"])
        (auto simp: get_with_lock_multi_vals)
  qed (use assms(2) in simp_all)
qed

section \<open>Reaching the leader\<close>

lemma connects_connect:
  assumes "connects q at"
  obtains c p' where "cache_connect q node p = (Inr c, p')" "p_sm (at p') = p_sm (at p)"
proof (cases "\<exists>c. fmlookup (connections p) (node_addr node) = Some c \<and> q_close_reason q c p = None")
  case True
  then show thesis using that by (auto simp: cache_connect_def)
next
  case False
  then have new: "cache_connect q node p = cache_connect_new q node p"
    by (auto simp: cache_connect_def split: option.split)
  obtain tok p1 c p2 where "q_connect q (node_addr node) (node_server_name node) p = (Inr tok, p1)"
    "q_connecting q tok p1 = (Inr c, p2)" "p_sm (at p2) = p_sm (at p)"
    using assms unfolding connects_def by blast
  then show thesis using assms
    by (intro that [of c "cache_insert (node_addr node) c p2"])
      (simp_all add: new cache_connect_new_def io_defs connects_def)
qed

lemma leader_client:
  assumes "reaches_leader cr ld it q pc"
  obtains client p' where "client_to_leader q cr p = Some (Inr client, p')"
    "p_sm (ld_process ld p') = p_sm (ld_process ld p)" "client_target_id client = Some (ld_id ld)"
proof -
  obtain node where l: "get_leader cr p = Some (ld_id ld, node)"
    using assms unfolding reaches_leader_def by blast
  have "connects q (ld_process ld)" using assms by (simp add: reaches_leader_def)
  then obtain c p' where "cache_connect q node p = (Inr c, p')" "p_sm (ld_process ld p') = p_sm (ld_process ld p)"
    by (rule connects_connect)
  then show thesis
    by (intro that [of "\<lparr>client_conn = c, client_target_id = Some (ld_id ld)\<rparr>" p'])
      (simp_all add: client_to_leader_def l Client_new_def io_defs)
qed

text \<open>A request of a collection reaches the leader and is answered by it.\<close>

lemma leader_answers:
  assumes "reaches_leader cr ld it q pc" "fits (ld_id ld) pc body" "asks_data body"
  obtains client p1 resp p' where "client_to_leader q cr p = Some (Inr client, p1)"
    "client_request q pc client body p1 = Some (Inr resp, p')"
    "answers it body (leader_data ld p) resp (leader_data ld p')"
proof -
  let ?msg = "\<lparr>req_target_id = Some (ld_id ld), req_body = body\<rparr>" and ?r = "ld_raft ld"
  obtain client p1 where c: "client_to_leader q cr p = Some (Inr client, p1)"
    "p_sm (ld_process ld p1) = p_sm (ld_process ld p)" "client_target_id client = Some (ld_id ld)"
    by (rule leader_client [OF assms(1)])
  obtain b where b: "request_encoded pc ?msg b" "length b \<le> max_request_size"
    using assms(2) unfolding fits_def by blast
  have l: "delivers q (client_conn client) (ld_process ld) (serve_bytes ?r it pc)" "reply_codec_ok pc" "stable_leader ?r"
      "\<And>p. srv_id (r_server_metrics ?r p) = ld_id ld"
    using assms(1) by (simp_all add: reaches_leader_def)
  obtain n p' where n: "p_sm n = p_sm (ld_process ld p1)" "ld_process ld p' = snd (handle_message ?r it ?msg n)"
      "client_exchange q pc (client_conn client) ?msg p1 = (Inr (fst (handle_message ?r it ?msg n)), p')"
    by (rule exchange_handled [OF l(1,2) b])
  obtain resp n' where h: "handle_body ?r it body n = (Inr resp, n')"
    "answers it body (the_data (p_sm n)) resp (the_data (p_sm n'))"
    using stable_leader_answers [OF l(3) assms(3)] by blast
  have "client_request q pc client body p1 = Some (Inr resp, p')"
    using n(3) h(1)
    by (simp add: client_request_def c(3) client_loop.simps [of q pc] client_step_def handle_message_def l(4))
  moreover have "ld_process ld p' = n'" using n(2) h(1) by (simp add: handle_message_def l(4))
  ultimately show thesis using c h(2) n(1) by (intro that [of client p1 resp p']) simp_all
qed

lemma leader_read:
  assumes "reaches_leader cr ld it q pc" "consistency \<noteq> Stale"
  obtains stale p' where "should_read_stale consistency cr p = (Inr stale, p')" "leader_data ld p' = leader_data ld p"
    "stale \<longrightarrow> the_data (p_sm p') = leader_data ld p"
proof -
  obtain l p1 where l: "r_current_leader (cr_raft cr) p = (l, p1)" by fastforce
  have k: "knows_if_leading cr ld" using assms(1) by (simp add: reaches_leader_def)
  then have d: "leader_data ld p1 = leader_data ld p" using l unfolding knows_if_leading_def by blast
  show thesis
  proof (cases "l = Some (cr_node_id cr)")
    case False
    then have "is_leader cr p = (False, p1)" using l by (cases l) (simp_all add: is_leader_def)
    with d assms(2) show thesis by (intro that [of False p1]) (simp_all add: should_read_stale_def)
  next
    case True
    with k l obtain p2 where "r_ensure_linearizable (cr_raft cr) p1 = (Inr (), p2)" "the_data (p_sm p1) = leader_data ld p1"
      "leader_data ld p2 = leader_data ld p1" "the_data (p_sm p2) = leader_data ld p2"
      unfolding knows_if_leading_def by metis
    with True l d assms(2) show thesis
      by (intro that [of True "if consistency = LeaderStale then p1 else p2"]; cases consistency)
        (simp_all add: should_read_stale_def is_leader_def ensure_consistency_def io_defs)
  qed
qed

section \<open>A cluster of one node\<close>

text \<open>The leader as seen from itself, and the one-node raft behind its own transport.\<close>

definition self_leader :: "('r, 'q) ClusterRef \<Rightarrow> ('r, 'q, 'r, 'q) leader_node" where
  "self_leader cr = \<lparr>ld_id = cr_node_id cr, ld_raft = cr_raft cr, ld_process = (\<lambda>p. p)\<rparr>"

definition solo_cluster :: "(u64, bytes) ClusterRef" where
  "solo_cluster = \<lparr>cr_node_id = 7, cr_raft = solo_raft, cr_local_addr = example_addr, cr_public_addr = example_addr\<rparr>"

definition solo_quinn :: "postcard \<Rightarrow> (u64, bytes) quinn" where
  "solo_quinn pc = loopback_quinn (serve_bytes solo_raft sorted_list_of_fset pc)"

definition solo_postcard :: "RequestBody list \<Rightarrow> postcard" where
  "solo_postcard bodies = listed_postcard (map (\<lambda>b. \<lparr>req_target_id = Some 7, req_body = b\<rparr>) bodies)"

lemma solo_reply_codec: "reply_codec_ok (solo_postcard bodies)"
  by (simp add: solo_postcard_def listed_reply_codec)

lemma solo_leader:
  "reaches_leader solo_cluster (self_leader solo_cluster) sorted_list_of_fset
     (solo_quinn (solo_postcard bodies)) (solo_postcard bodies)"
proof -
  have "get_leader solo_cluster p = Some (7, solo_node)" for p
    by (simp add: get_leader_def solo_cluster_def solo_raft_def solo_metrics_def get_node_def)
  moreover have "connects (solo_quinn (solo_postcard bodies)) (\<lambda>p. p)"
    by (simp add: connects_def solo_quinn_def loopback_quinn_def cache_insert_def)
  moreover have "knows_if_leading solo_cluster (self_leader solo_cluster)"
    by (simp add: knows_if_leading_def self_leader_def solo_cluster_def) (simp add: solo_raft_def)
  ultimately show ?thesis
    by (simp add: reaches_leader_def self_leader_def solo_cluster_def solo_stable solo_quinn_def loopback_delivers
        solo_reply_codec)
      (simp add: solo_raft_def)
qed

lemma listed_encoded:
  assumes "distinct msgs" "length msgs \<le> max_request_size" "msg \<in> set msgs"
  obtains b where "request_encoded (listed_postcard msgs) msg b" "length b \<le> max_request_size"
proof -
  from assms(3) obtain i where i: "i < length msgs" "msg = msgs ! i" by (auto simp: in_set_conv_nth)
  with assms(1) have "\<forall>j < i. msgs ! j \<noteq> msgs ! i" by (auto simp: nth_eq_iff_index_eq)
  from listed_request_encoded [OF i(1) this] i assms(2) show thesis by (intro that [of "replicate i 0"]) simp_all
qed

lemma solo_fits_all:
  assumes "distinct bodies" "length bodies \<le> max_request_size" "body \<in> set bodies"
  shows "fits 7 (solo_postcard bodies) body"
proof -
  let ?msgs = "map (\<lambda>b. \<lparr>req_target_id = Some 7, req_body = b\<rparr>) bodies :: Request list"
  have "distinct ?msgs" "length ?msgs \<le> max_request_size" using assms(1,2) by (auto simp: distinct_map inj_on_def)
  moreover have "\<lparr>req_target_id = Some 7, req_body = body\<rparr> \<in> set ?msgs" using assms(3) by simp
  ultimately show ?thesis unfolding fits_def solo_postcard_def by (rule listed_encoded) blast
qed

end
