(* ===== verification/DMap.thy ===== *)
theory DMap
  imports Collections
begin

text \<open>
  The distributed map (\<open>collections/dmap.rs\<close>). The serialization of keys and values is the
  parameter \<open>cd\<close>; a borrowed form of a key serializes as the key does. Writes go through a client to
  the leader; reads use the local state if the consistency level allows it.
\<close>

section \<open>Operations\<close>

record ('r, 'q) DMap =
  dm_name :: string
  dm_cluster :: "('r, 'q) ClusterRef"

definition DMap_new :: "string \<Rightarrow> ('r, 'q) ClusterRef \<Rightarrow> ('r, 'q) DMap" where
  "DMap_new name cluster = \<lparr>dm_name = name, dm_cluster = cluster\<rparr>"

definition dmap_client_to_leader ::
  "('r, 'q) quinn \<Rightarrow> ('r, 'q) DMap \<Rightarrow> (('r, 'q) process, Error, Client) aio" where
  "dmap_client_to_leader q dm = client_to_leader q (dm_cluster dm)"

definition contains_key_stale ::
  "('k, 'v) codec \<Rightarrow> ('r, 'q) DMap \<Rightarrow> 'k \<Rightarrow> (('r, 'q) process, Error, bool) aio" where
  "contains_key_stale cd dm key =
     aio_bind (aio_result (serialized (enc_key cd key))) (\<lambda>key.
     aio_lift (io_get (\<lambda>p. contains_key (dm_name dm) key (p_sm p))))"

definition contains_key_with ::
  "('r, 'q) quinn \<Rightarrow> postcard \<Rightarrow> ('k, 'v) codec \<Rightarrow> ('r, 'q) DMap \<Rightarrow> 'k \<Rightarrow> ReadConsistency \<Rightarrow>
     (('r, 'q) process, Error, bool) aio" where
  "contains_key_with q pc cd dm key consistency =
     aio_bind (aio_lift (should_read_stale consistency (dm_cluster dm))) (\<lambda>stale.
       if stale then contains_key_stale cd dm key
       else aio_bind (dmap_client_to_leader q dm) (\<lambda>client.
            aio_bind (aio_result (serialized (enc_key cd key))) (\<lambda>key.
            client_contains_key q pc client (dm_name dm) key consistency)))"

definition dmap_contains_key ::
  "('r, 'q) quinn \<Rightarrow> postcard \<Rightarrow> ('k, 'v) codec \<Rightarrow> ('r, 'q) DMap \<Rightarrow> 'k \<Rightarrow>
     (('r, 'q) process, Error, bool) aio" where
  "dmap_contains_key q pc cd dm key = contains_key_with q pc cd dm key ReadIndex"

definition dmap_insert ::
  "('r, 'q) quinn \<Rightarrow> postcard \<Rightarrow> ('k, 'v) codec \<Rightarrow> ('r, 'q) DMap \<Rightarrow> 'k \<Rightarrow> 'v \<Rightarrow>
     (('r, 'q) process, Error, 'v option) aio" where
  "dmap_insert q pc cd dm key val =
     aio_bind (dmap_client_to_leader q dm) (\<lambda>client.
     aio_bind (aio_result (serialized (enc_key cd key))) (\<lambda>key.
     aio_bind (aio_result (serialized (enc_val cd val))) (\<lambda>val.
     aio_bind (client_insert q pc client (dm_name dm) key val) (\<lambda>old.
     aio_result (transpose_result (map_option (\<lambda>val. serialized (dec_val cd val)) old))))))"

definition get_stale ::
  "('k, 'v) codec \<Rightarrow> ('r, 'q) DMap \<Rightarrow> 'k \<Rightarrow> (('r, 'q) process, Error, 'v option) aio" where
  "get_stale cd dm key =
     aio_bind (aio_result (serialized (enc_key cd key))) (\<lambda>key p.
     aio_result (transpose_result
       (map_option (\<lambda>val. serialized (dec_val cd val)) (get_with_lock (dm_name dm) key (p_sm p)))) p)"

definition get_with ::
  "('r, 'q) quinn \<Rightarrow> postcard \<Rightarrow> ('k, 'v) codec \<Rightarrow> ('r, 'q) DMap \<Rightarrow> 'k \<Rightarrow> ReadConsistency \<Rightarrow>
     (('r, 'q) process, Error, 'v option) aio" where
  "get_with q pc cd dm key consistency =
     aio_bind (aio_lift (should_read_stale consistency (dm_cluster dm))) (\<lambda>stale.
       if stale then get_stale cd dm key
       else aio_bind (dmap_client_to_leader q dm) (\<lambda>client.
            aio_bind (aio_result (serialized (enc_key cd key))) (\<lambda>key.
            aio_bind (client_get q pc client (dm_name dm) key consistency) (\<lambda>res.
            aio_result (transpose_result (map_option (\<lambda>val. serialized (dec_val cd val)) res))))))"

definition dmap_get ::
  "('r, 'q) quinn \<Rightarrow> postcard \<Rightarrow> ('k, 'v) codec \<Rightarrow> ('r, 'q) DMap \<Rightarrow> 'k \<Rightarrow>
     (('r, 'q) process, Error, 'v option) aio" where
  "dmap_get q pc cd dm key = get_with q pc cd dm key ReadIndex"

definition dmap_remove ::
  "('r, 'q) quinn \<Rightarrow> postcard \<Rightarrow> ('k, 'v) codec \<Rightarrow> ('r, 'q) DMap \<Rightarrow> 'k \<Rightarrow>
     (('r, 'q) process, Error, 'v option) aio" where
  "dmap_remove q pc cd dm key =
     aio_bind (dmap_client_to_leader q dm) (\<lambda>client.
     aio_bind (aio_result (serialized (enc_key cd key))) (\<lambda>key.
     aio_bind (client_remove q pc client (dm_name dm) key) (\<lambda>old.
     aio_result (transpose_result (map_option (\<lambda>val. serialized (dec_val cd val)) old)))))"

definition len_stale :: "('r, 'q) DMap \<Rightarrow> ('r, 'q) process \<Rightarrow> nat" where
  "len_stale dm p = unwrap_or 0 (map_len (dm_name dm) (p_sm p))"

definition len_with ::
  "('r, 'q) quinn \<Rightarrow> postcard \<Rightarrow> ('r, 'q) DMap \<Rightarrow> ReadConsistency \<Rightarrow> (('r, 'q) process, Error, nat) aio" where
  "len_with q pc dm consistency =
     aio_bind (aio_lift (should_read_stale consistency (dm_cluster dm))) (\<lambda>stale.
       if stale then aio_lift (io_get (len_stale dm))
       else aio_bind (dmap_client_to_leader q dm) (\<lambda>client.
            aio_bind (client_len q pc client (dm_name dm) consistency) (\<lambda>result.
            aio_result (Inr (unwrap_or 0 result)))))"

definition dmap_len ::
  "('r, 'q) quinn \<Rightarrow> postcard \<Rightarrow> ('r, 'q) DMap \<Rightarrow> (('r, 'q) process, Error, nat) aio" where
  "dmap_len q pc dm = len_with q pc dm ReadIndex"

definition is_empty_stale :: "('r, 'q) DMap \<Rightarrow> ('r, 'q) process \<Rightarrow> bool" where
  "is_empty_stale dm p = (len_stale dm p = 0)"

definition is_empty_with ::
  "('r, 'q) quinn \<Rightarrow> postcard \<Rightarrow> ('r, 'q) DMap \<Rightarrow> ReadConsistency \<Rightarrow> (('r, 'q) process, Error, bool) aio" where
  "is_empty_with q pc dm consistency =
     aio_bind (len_with q pc dm consistency) (\<lambda>n. aio_result (Inr (n = 0)))"

definition dmap_is_empty ::
  "('r, 'q) quinn \<Rightarrow> postcard \<Rightarrow> ('r, 'q) DMap \<Rightarrow> (('r, 'q) process, Error, bool) aio" where
  "dmap_is_empty q pc dm = aio_bind (dmap_len q pc dm) (\<lambda>n. aio_result (Inr (n = 0)))"

definition dmap_clear ::
  "('r, 'q) quinn \<Rightarrow> postcard \<Rightarrow> ('r, 'q) DMap \<Rightarrow> (('r, 'q) process, Error, unit) aio" where
  "dmap_clear q pc dm =
     aio_bind (dmap_client_to_leader q dm) (\<lambda>client. client_clear q pc client (dm_name dm))"

text \<open>\<open>Cluster::get_map\<close>.\<close>

definition get_map :: "('r, 'q) ClusterRef \<Rightarrow> string \<Rightarrow> ('r, 'q) DMap" where
  "get_map cluster name = DMap_new name cluster"

section \<open>The map as a dictionary\<close>

text \<open>
  What the serialization has to provide: every key and value has an encoding, equal encodings mean
  equal keys, and values are decoded from their encoding.
\<close>

definition typed_codec :: "('k, 'v) codec \<Rightarrow> bool" where
  "typed_codec cd \<longleftrightarrow>
     (\<forall>k. \<exists>b. enc_key cd k = Inr b) \<and> (\<forall>k k'. enc_key cd k = enc_key cd k' \<longrightarrow> k = k') \<and>
     (\<forall>v. \<exists>b. enc_val cd v = Inr b \<and> dec_val cd b = Inr v)"

definition key_bytes :: "('k, 'v) codec \<Rightarrow> 'k \<Rightarrow> bytes" where
  "key_bytes cd k = projr (enc_key cd k)"

definition val_bytes :: "('k, 'v) codec \<Rightarrow> 'v \<Rightarrow> bytes" where
  "val_bytes cd v = projr (enc_val cd v)"

text \<open>The dictionary that the named map of a node stands for.\<close>

definition dict_view :: "('k, 'v) codec \<Rightarrow> string \<Rightarrow> StateMachineData \<Rightarrow> ('k \<rightharpoonup> 'v)" where
  "dict_view cd name d = (\<lambda>k. map_option (\<lambda>b. projr (dec_val cd b)) (data_get name (key_bytes cd k) d))"

text \<open>The map holds only encodings of keys and values of its types.\<close>

definition well_typed :: "('k, 'v) codec \<Rightarrow> string \<Rightarrow> StateMachineData \<Rightarrow> bool" where
  "well_typed cd name d \<longleftrightarrow>
     (\<forall>kb vb. data_get name kb d = Some vb \<longrightarrow> (\<exists>k v. kb = key_bytes cd k \<and> vb = val_bytes cd v))"

datatype ('k, 'v) dmap_op = DInsert 'k 'v | DRemove 'k | DGet 'k | DContains 'k | DLen | DIsEmpty

datatype 'v dmap_out = DValue "'v option" | DBool bool | DNat nat

fun dict_step :: "('k, 'v) dmap_op \<Rightarrow> ('k \<rightharpoonup> 'v) \<Rightarrow> 'v dmap_out \<times> ('k \<rightharpoonup> 'v)" where
  "dict_step (DInsert k v) d = (DValue (d k), d(k \<mapsto> v))"
| "dict_step (DRemove k) d = (DValue (d k), d(k := None))"
| "dict_step (DGet k) d = (DValue (d k), d)"
| "dict_step (DContains k) d = (DBool (k \<in> dom d), d)"
| "dict_step DLen d = (DNat (card (dom d)), d)"
| "dict_step DIsEmpty d = (DBool (d = Map.empty), d)"

definition aio_map :: "('a \<Rightarrow> 'b) \<Rightarrow> ('w, 'e, 'a) aio \<Rightarrow> ('w, 'e, 'b) aio" where
  [io_defs]: "aio_map f m = aio_bind m (\<lambda>a. aio_result (Inr (f a)))"

fun dmap_exec ::
  "('r, 'q) quinn \<Rightarrow> postcard \<Rightarrow> ('k, 'v) codec \<Rightarrow> ('r, 'q) DMap \<Rightarrow> ('k, 'v) dmap_op \<Rightarrow>
     (('r, 'q) process, Error, 'v dmap_out) aio" where
  "dmap_exec q pc cd dm (DInsert k v) = aio_map DValue (dmap_insert q pc cd dm k v)"
| "dmap_exec q pc cd dm (DRemove k) = aio_map DValue (dmap_remove q pc cd dm k)"
| "dmap_exec q pc cd dm (DGet k) = aio_map DValue (dmap_get q pc cd dm k)"
| "dmap_exec q pc cd dm (DContains k) = aio_map DBool (dmap_contains_key q pc cd dm k)"
| "dmap_exec q pc cd dm DLen = aio_map DNat (dmap_len q pc dm)"
| "dmap_exec q pc cd dm DIsEmpty = aio_map DBool (dmap_is_empty q pc dm)"

text \<open>The request an operation sends to the leader; a node that leads reads without one.\<close>

fun dmap_request :: "('k, 'v) codec \<Rightarrow> string \<Rightarrow> ('k, 'v) dmap_op \<Rightarrow> RequestBody" where
  "dmap_request cd name (DInsert k v) = ReqInsert name (key_bytes cd k) (val_bytes cd v)"
| "dmap_request cd name (DRemove k) = ReqRemove name (key_bytes cd k)"
| "dmap_request cd name (DGet k) = ReqGet name (key_bytes cd k) ReadIndex"
| "dmap_request cd name (DContains k) = ReqContainsKey name (key_bytes cd k) ReadIndex"
| "dmap_request cd name DLen = ReqLen name ReadIndex"
| "dmap_request cd name DIsEmpty = ReqLen name ReadIndex"

lemma typed_codecD:
  assumes "typed_codec cd"
  shows "enc_key cd k = Inr (key_bytes cd k)" "enc_val cd v = Inr (val_bytes cd v)"
    "dec_val cd (val_bytes cd v) = Inr v" "key_bytes cd k = key_bytes cd k' \<longleftrightarrow> k = k'"
proof -
  show k: "enc_key cd k = Inr (key_bytes cd k)" for k
    using assms unfolding typed_codec_def key_bytes_def by (metis sum.sel(2))
  show "enc_val cd v = Inr (val_bytes cd v)" "dec_val cd (val_bytes cd v) = Inr v"
    using assms unfolding typed_codec_def val_bytes_def by (metis sum.sel(2))+
  show "key_bytes cd k = key_bytes cd k' \<longleftrightarrow> k = k'"
    using assms k unfolding typed_codec_def by metis
qed

text \<open>Decoding what the map holds.\<close>

lemma decode_stored:
  assumes "typed_codec cd" "well_typed cd name d"
  shows "transpose_result (map_option (\<lambda>b. serialized (dec_val cd b)) (data_get name (key_bytes cd k) d)) =
    Inr (dict_view cd name d k)"
proof (cases "data_get name (key_bytes cd k) d")
  case (Some b)
  then obtain v where "b = val_bytes cd v" using assms(2) unfolding well_typed_def by blast
  with Some typed_codecD(3) [OF assms(1)] show ?thesis by (simp add: dict_view_def)
qed (simp add: dict_view_def)

lemma dict_insert:
  assumes "typed_codec cd"
  shows "dict_view cd name (snd (data_insert name (key_bytes cd k) (val_bytes cd v) d)) = (dict_view cd name d)(k \<mapsto> v)"
    and "well_typed cd name d \<Longrightarrow> well_typed cd name (snd (data_insert name (key_bytes cd k) (val_bytes cd v) d))"
  using typed_codecD [OF assms]
  by (auto simp: dict_view_def well_typed_def sm_map.get_insert intro!: ext)

lemma dict_remove:
  assumes "typed_codec cd"
  shows "dict_view cd name (snd (data_remove name (key_bytes cd k) d)) = (dict_view cd name d)(k := None)"
    and "well_typed cd name d \<Longrightarrow> well_typed cd name (snd (data_remove name (key_bytes cd k) d))"
  using typed_codecD [OF assms]
  by (auto simp: dict_view_def well_typed_def sm_map.get_remove intro!: ext)

lemma dict_dom: "k \<in> dom (dict_view cd name d) \<longleftrightarrow> data_get name (key_bytes cd k) d \<noteq> None"
  by (simp add: dict_view_def dom_def)

lemma dict_card:
  assumes "typed_codec cd" "well_typed cd name d"
  shows "data_len name d = card (dom (dict_view cd name d))"
proof -
  have "dom (dict_view cd name d) = {k. data_get name (key_bytes cd k) d \<noteq> None}"
    by (auto simp: dict_view_def dom_def)
  then have "{kb. data_get name kb d \<noteq> None} = key_bytes cd ` dom (dict_view cd name d)"
    using assms(2) unfolding well_typed_def by fastforce
  moreover have "inj (key_bytes cd)" using typed_codecD(4) [OF assms(1)] by (simp add: inj_def)
  ultimately show ?thesis
    by (simp add: sm_map.len_card card_image inj_on_subset [of _ UNIV] del: not_None_eq)
qed

lemma dict_empty:
  assumes "typed_codec cd" "well_typed cd name d"
  shows "data_len name d = 0 \<longleftrightarrow> dict_view cd name d = Map.empty"
proof
  assume "data_len name d = 0"
  then show "dict_view cd name d = Map.empty"
    by (auto simp: sm_map.empty_iff dict_view_def intro!: ext)
next
  assume "dict_view cd name d = Map.empty"
  then show "data_len name d = 0" by (simp add: dict_card [OF assms])
qed

section \<open>Operations in a cluster with a leader\<close>

lemma leader_insert:
  assumes "reaches_leader (dm_cluster dm) ld it q pc" "typed_codec cd" "well_typed cd (dm_name dm) (leader_data ld p)"
    and "fits (ld_id ld) pc (ReqInsert (dm_name dm) (key_bytes cd k) (val_bytes cd v))"
  obtains p' where "dmap_insert q pc cd dm k v p = Some (Inr (dict_view cd (dm_name dm) (leader_data ld p) k), p')"
    "leader_data ld p' = snd (data_insert (dm_name dm) (key_bytes cd k) (val_bytes cd v) (leader_data ld p))"
  by (rule leader_answers [OF assms(1,4), of p])
    (auto intro!: that simp: dmap_insert_def dmap_client_to_leader_def client_insert_def io_defs
      typed_codecD [OF assms(2)] decode_stored [OF assms(2,3)])

lemma leader_remove:
  assumes "reaches_leader (dm_cluster dm) ld it q pc" "typed_codec cd" "well_typed cd (dm_name dm) (leader_data ld p)"
    and "fits (ld_id ld) pc (ReqRemove (dm_name dm) (key_bytes cd k))"
  obtains p' where "dmap_remove q pc cd dm k p = Some (Inr (dict_view cd (dm_name dm) (leader_data ld p) k), p')"
    "leader_data ld p' = snd (data_remove (dm_name dm) (key_bytes cd k) (leader_data ld p))"
  by (rule leader_answers [OF assms(1,4), of p])
    (auto intro!: that simp: dmap_remove_def dmap_client_to_leader_def client_remove_def io_defs
      typed_codecD [OF assms(2)] decode_stored [OF assms(2,3)])

lemma leader_get:
  assumes "reaches_leader (dm_cluster dm) ld it q pc" "typed_codec cd" "well_typed cd (dm_name dm) (leader_data ld p)"
    and "fits (ld_id ld) pc (ReqGet (dm_name dm) (key_bytes cd k) consistency)" "consistency \<noteq> Stale"
  obtains p' where "get_with q pc cd dm k consistency p = Some (Inr (dict_view cd (dm_name dm) (leader_data ld p) k), p')"
    "leader_data ld p' = leader_data ld p"
proof -
  obtain stale p1 where p1: "should_read_stale consistency (dm_cluster dm) p = (Inr stale, p1)"
    "leader_data ld p1 = leader_data ld p" "stale \<longrightarrow> the_data (p_sm p1) = leader_data ld p"
    by (rule leader_read [OF assms(1,5)])
  show thesis
  proof (cases stale)
    case True
    with p1 show thesis
      by (intro that [of p1]) (simp_all add: get_with_def get_stale_def io_defs typed_codecD [OF assms(2)]
          get_with_lock_def decode_stored [OF assms(2,3)])
  next
    case False
    with p1 show thesis
      by (rule_tac leader_answers [OF assms(1,4), of p1])
        (auto intro!: that simp: get_with_def dmap_client_to_leader_def client_get_def io_defs
          typed_codecD [OF assms(2)] decode_stored [OF assms(2,3)])
  qed
qed

lemma leader_contains_key:
  assumes "reaches_leader (dm_cluster dm) ld it q pc" "typed_codec cd"
    and "fits (ld_id ld) pc (ReqContainsKey (dm_name dm) (key_bytes cd k) consistency)" "consistency \<noteq> Stale"
  obtains p' where "contains_key_with q pc cd dm k consistency p =
       Some (Inr (k \<in> dom (dict_view cd (dm_name dm) (leader_data ld p))), p')"
    "leader_data ld p' = leader_data ld p"
proof -
  obtain stale p1 where p1: "should_read_stale consistency (dm_cluster dm) p = (Inr stale, p1)"
    "leader_data ld p1 = leader_data ld p" "stale \<longrightarrow> the_data (p_sm p1) = leader_data ld p"
    by (rule leader_read [OF assms(1,4)])
  show thesis
  proof (cases stale)
    case True
    with p1 show thesis
      by (intro that [of p1]) (simp_all add: contains_key_with_def contains_key_stale_def io_defs
          typed_codecD [OF assms(2)] contains_key_get get_with_lock_def dict_dom)
  next
    case False
    with p1 show thesis
      by (rule_tac leader_answers [OF assms(1,3), of p1])
        (auto intro!: that simp: contains_key_with_def dmap_client_to_leader_def client_contains_key_def io_defs
          typed_codecD [OF assms(2)] dict_dom)
  qed
qed

lemma leader_len:
  assumes "reaches_leader (dm_cluster dm) ld it q pc" "typed_codec cd" "well_typed cd (dm_name dm) (leader_data ld p)"
    and "fits (ld_id ld) pc (ReqLen (dm_name dm) consistency)" "consistency \<noteq> Stale"
  obtains p' where "len_with q pc dm consistency p = Some (Inr (card (dom (dict_view cd (dm_name dm) (leader_data ld p)))), p')"
    "leader_data ld p' = leader_data ld p"
proof -
  obtain stale p1 where p1: "should_read_stale consistency (dm_cluster dm) p = (Inr stale, p1)"
    "leader_data ld p1 = leader_data ld p" "stale \<longrightarrow> the_data (p_sm p1) = leader_data ld p"
    by (rule leader_read [OF assms(1,5)])
  show thesis
  proof (cases stale)
    case True
    with p1 show thesis
      by (intro that [of p1])
        (simp_all add: len_with_def len_stale_def io_defs map_len_data dict_card [OF assms(2,3)])
  next
    case False
    with p1 show thesis
      by (rule_tac leader_answers [OF assms(1,4), of p1])
        (auto intro!: that simp: len_with_def dmap_client_to_leader_def client_len_def io_defs dict_card [OF assms(2,3)])
  qed
qed

lemma exec_refines:
  assumes "reaches_leader (dm_cluster dm) ld it q pc" "typed_codec cd" "well_typed cd (dm_name dm) (leader_data ld p)"
    and "fits (ld_id ld) pc (dmap_request cd (dm_name dm) op)"
  shows "\<exists>out p'. dmap_exec q pc cd dm op p = Some (Inr out, p') \<and>
    dict_step op (dict_view cd (dm_name dm) (leader_data ld p)) = (out, dict_view cd (dm_name dm) (leader_data ld p')) \<and>
    well_typed cd (dm_name dm) (leader_data ld p')"
proof (cases op)
  case (DInsert k v)
  with assms(4) have "fits (ld_id ld) pc (ReqInsert (dm_name dm) (key_bytes cd k) (val_bytes cd v))" by simp
  from leader_insert [OF assms(1-3) this] obtain p' where
    "dmap_insert q pc cd dm k v p = Some (Inr (dict_view cd (dm_name dm) (leader_data ld p) k), p')"
    "leader_data ld p' = snd (data_insert (dm_name dm) (key_bytes cd k) (val_bytes cd v) (leader_data ld p))" .
  with DInsert assms(3) dict_insert [OF assms(2)] show ?thesis by (simp add: io_defs)
next
  case (DRemove k)
  with assms(4) have "fits (ld_id ld) pc (ReqRemove (dm_name dm) (key_bytes cd k))" by simp
  from leader_remove [OF assms(1-3) this] obtain p' where
    "dmap_remove q pc cd dm k p = Some (Inr (dict_view cd (dm_name dm) (leader_data ld p) k), p')"
    "leader_data ld p' = snd (data_remove (dm_name dm) (key_bytes cd k) (leader_data ld p))" .
  with DRemove assms(3) dict_remove [OF assms(2)] show ?thesis by (simp add: io_defs)
next
  case (DGet k)
  with assms(4) have "fits (ld_id ld) pc (ReqGet (dm_name dm) (key_bytes cd k) ReadIndex)" by simp
  from leader_get [OF assms(1-3) this] obtain p' where "leader_data ld p' = leader_data ld p"
    "get_with q pc cd dm k ReadIndex p = Some (Inr (dict_view cd (dm_name dm) (leader_data ld p) k), p')" by blast
  with DGet assms(3) show ?thesis by (simp add: dmap_get_def io_defs)
next
  case (DContains k)
  with assms(4) have "fits (ld_id ld) pc (ReqContainsKey (dm_name dm) (key_bytes cd k) ReadIndex)" by simp
  from leader_contains_key [OF assms(1,2) this, of p] obtain p' where "leader_data ld p' = leader_data ld p"
    "contains_key_with q pc cd dm k ReadIndex p =
       Some (Inr (k \<in> dom (dict_view cd (dm_name dm) (leader_data ld p))), p')" by blast
  with DContains assms(3) show ?thesis by (simp add: dmap_contains_key_def io_defs)
next
  case DLen
  with assms(4) have "fits (ld_id ld) pc (ReqLen (dm_name dm) ReadIndex)" by simp
  from leader_len [OF assms(1-3) this] obtain p' where "leader_data ld p' = leader_data ld p"
    "len_with q pc dm ReadIndex p = Some (Inr (card (dom (dict_view cd (dm_name dm) (leader_data ld p)))), p')" by blast
  with DLen assms(3) show ?thesis by (simp add: dmap_len_def io_defs)
next
  case DIsEmpty
  with assms(4) have "fits (ld_id ld) pc (ReqLen (dm_name dm) ReadIndex)" by simp
  from leader_len [OF assms(1-3) this] obtain p' where "leader_data ld p' = leader_data ld p"
    "len_with q pc dm ReadIndex p = Some (Inr (card (dom (dict_view cd (dm_name dm) (leader_data ld p)))), p')" by blast
  with DIsEmpty assms(3) dict_empty [OF assms(2,3)] dict_card [OF assms(2,3)] show ?thesis
    by (simp add: dmap_is_empty_def dmap_len_def io_defs)
qed

lemma dmap_run:
  assumes "reaches_leader (dm_cluster dm) ld it q pc" "typed_codec cd"
    and "well_typed cd (dm_name dm) (leader_data ld p)"
    and "\<forall>op \<in> set ops. fits (ld_id ld) pc (dmap_request cd (dm_name dm) op)"
  shows "\<exists>outs p'. run_ok (dmap_exec q pc cd dm) ops p = Some (outs, p') \<and>
    run_steps dict_step ops (dict_view cd (dm_name dm) (leader_data ld p)) =
      (outs, dict_view cd (dm_name dm) (leader_data ld p')) \<and>
    well_typed cd (dm_name dm) (leader_data ld p')"
  using run_ok_refines [where ok = "\<lambda>p. well_typed cd (dm_name dm) (leader_data ld p)" and good = "\<lambda>_. True"
      and obs = "\<lambda>out. out" and view = "\<lambda>p. dict_view cd (dm_name dm) (leader_data ld p)"
      and exec = "dmap_exec q pc cd dm" and step = dict_step, OF assms(3)]
    exec_refines [OF assms(1,2)] assms(4) unfolding list.map_ident by blast

section \<open>Properties\<close>

text \<open>A map from bytes to bytes on the one-node cluster.\<close>

definition byte_codec :: "(u8, u8) codec" where
  "byte_codec = \<lparr>enc_key = (\<lambda>k. Inr [k]), enc_val = (\<lambda>v. Inr [v]),
     dec_val = (\<lambda>b. case b of [v] \<Rightarrow> Inr v | _ \<Rightarrow> Inl 0)\<rparr>"

definition unary_codec :: "('k :: countable, 'v :: countable) codec" where
  "unary_codec = \<lparr>enc_key = unary_enc, enc_val = unary_enc, dec_val = unary_dec\<rparr>"

lemma unary_codec_typed: "typed_codec unary_codec"
  by (auto simp: typed_codec_def unary_codec_def unary_enc_def unary_dec_def)

lemma unary_bytes: "val_bytes unary_codec v = val_bytes unary_codec w \<longleftrightarrow> v = w"
  by (auto simp: val_bytes_def unary_codec_def unary_enc_def replicate_eq_replicate)

definition example_map :: "(u64, bytes) DMap" where
  "example_map = DMap_new ''m'' solo_cluster"

definition example_bodies :: "RequestBody list" where
  "example_bodies = [ReqInsert ''m'' [1] [2], ReqRemove ''m'' [1], ReqClear ''m'', ReqGet ''m'' [1] ReadIndex, ReqLen ''m'' ReadIndex]"

lemma byte_codec_typed: "typed_codec byte_codec"
  by (simp add: typed_codec_def byte_codec_def)

lemma byte_codec_bytes: "key_bytes byte_codec k = [k]" "val_bytes byte_codec v = [v]"
  by (simp_all add: key_bytes_def val_bytes_def byte_codec_def)

lemma example_fits: "body \<in> set example_bodies \<Longrightarrow> fits 7 (solo_postcard example_bodies) body"
  by (rule solo_fits_all) (simp_all add: example_bodies_def max_request_size_def)

lemma loop_process_empty: "data_get m k (the_data (p_sm loop_process)) = None"
  by (simp add: loop_process_def StateMachine_default_def StateMachineData_default_def data_get_def)

text \<open>
  C40 (dmap_clear_misreported): clearing a distributed map while the cluster has a stable leader
  removes every entry and then reports the protocol error \<open>UnknownResponse\<close>: the client waits for \<open>Response::Clear\<close> and
  the server answers with \<open>Response::ClientWrite\<close>.
\<close>

theorem dmap_clear_misreported:
  assumes "reaches_leader (dm_cluster dm) ld it q pc" "fits (ld_id ld) pc (ReqClear (dm_name dm))"
  shows "\<exists>p'. dmap_clear q pc dm p = Some (Inl (Err_Protocol UnknownResponse), p') \<and>
    (\<forall>k. data_get (dm_name dm) k (leader_data ld p') = None)"
  by (rule leader_answers [OF assms, of p])
    (auto simp: dmap_clear_def dmap_client_to_leader_def client_clear_def io_defs sm_map.get_clear)

theorem dmap_clear_misreported_witness:
  "\<exists>p'. dmap_clear (solo_quinn (solo_postcard example_bodies)) (solo_postcard example_bodies) example_map loop_process =
     Some (Inl (Err_Protocol UnknownResponse), p')"
proof -
  have "reaches_leader (dm_cluster example_map) (self_leader solo_cluster) sorted_list_of_fset
      (solo_quinn (solo_postcard example_bodies)) (solo_postcard example_bodies)"
    "fits (ld_id (self_leader solo_cluster)) (solo_postcard example_bodies) (ReqClear (dm_name example_map))"
    using solo_leader example_fits
    by (simp_all add: example_map_def DMap_new_def example_bodies_def self_leader_def solo_cluster_def)
  from dmap_clear_misreported [OF this, of loop_process] show ?thesis by blast
qed



end
