(* ===== verification/DMultiMap.thy ===== *)
theory DMultiMap
  imports DMap
begin

text \<open>
  The distributed multi-map (\<open>collections/dmultimap.rs\<close>). \<open>it\<close> is the order in which a \<open>HashSet\<close> of
  values is iterated.
\<close>

section \<open>Operations\<close>

record ('r, 'q) DMultiMap =
  dmm_name :: string
  dmm_cluster :: "('r, 'q) ClusterRef"

definition DMultiMap_new :: "string \<Rightarrow> ('r, 'q) ClusterRef \<Rightarrow> ('r, 'q) DMultiMap" where
  "DMultiMap_new name cluster = \<lparr>dmm_name = name, dmm_cluster = cluster\<rparr>"

definition dmm_client_to_leader ::
  "('r, 'q) quinn \<Rightarrow> ('r, 'q) DMultiMap \<Rightarrow> (('r, 'q) process, Error, Client) aio" where
  "dmm_client_to_leader q dmm = client_to_leader q (dmm_cluster dmm)"

definition dmm_insert ::
  "('r, 'q) quinn \<Rightarrow> postcard \<Rightarrow> ('k, 'v) codec \<Rightarrow> ('r, 'q) DMultiMap \<Rightarrow> 'k \<Rightarrow> 'v \<Rightarrow>
     (('r, 'q) process, Error, bool) aio" where
  "dmm_insert q pc cd dmm key val =
     aio_bind (dmm_client_to_leader q dmm) (\<lambda>client.
     aio_bind (aio_result (serialized (enc_key cd key))) (\<lambda>key.
     aio_bind (aio_result (serialized (enc_val cd val))) (\<lambda>val.
     client_insert_multi q pc client (dmm_name dmm) key val)))"

definition decode_all :: "('k, 'v) codec \<Rightarrow> bytes list option \<Rightarrow> Error + 'v list" where
  "decode_all cd vals =
     map_sum id (unwrap_or []) (transpose_result
       (map_option (\<lambda>set. collect_results (map (\<lambda>v. serialized (dec_val cd v)) set)) vals))"

definition dmm_get_stale ::
  "('k, 'v) codec \<Rightarrow> (bytes fset \<Rightarrow> bytes list) \<Rightarrow> ('r, 'q) DMultiMap \<Rightarrow> 'k \<Rightarrow>
     (('r, 'q) process, Error, 'v list) aio" where
  "dmm_get_stale cd it dmm key =
     aio_bind (aio_result (serialized (enc_key cd key))) (\<lambda>key p.
     aio_result (decode_all cd (map_option it (get_with_lock_multi (dmm_name dmm) key (p_sm p)))) p)"

definition dmm_get_with ::
  "('r, 'q) quinn \<Rightarrow> postcard \<Rightarrow> ('k, 'v) codec \<Rightarrow> (bytes fset \<Rightarrow> bytes list) \<Rightarrow> ('r, 'q) DMultiMap \<Rightarrow> 'k \<Rightarrow>
     ReadConsistency \<Rightarrow> (('r, 'q) process, Error, 'v list) aio" where
  "dmm_get_with q pc cd it dmm key consistency =
     aio_bind (aio_lift (should_read_stale consistency (dmm_cluster dmm))) (\<lambda>stale.
       if stale then dmm_get_stale cd it dmm key
       else aio_bind (dmm_client_to_leader q dmm) (\<lambda>client.
            aio_bind (aio_result (serialized (enc_key cd key))) (\<lambda>key.
            aio_bind (client_get_multi q pc client (dmm_name dmm) key consistency) (\<lambda>res.
            aio_result (decode_all cd res)))))"

definition dmm_get ::
  "('r, 'q) quinn \<Rightarrow> postcard \<Rightarrow> ('k, 'v) codec \<Rightarrow> (bytes fset \<Rightarrow> bytes list) \<Rightarrow> ('r, 'q) DMultiMap \<Rightarrow> 'k \<Rightarrow>
     (('r, 'q) process, Error, 'v list) aio" where
  "dmm_get q pc cd it dmm key = dmm_get_with q pc cd it dmm key ReadIndex"

definition dmm_remove ::
  "('r, 'q) quinn \<Rightarrow> postcard \<Rightarrow> ('k, 'v) codec \<Rightarrow> ('r, 'q) DMultiMap \<Rightarrow> 'k \<Rightarrow> 'v \<Rightarrow>
     (('r, 'q) process, Error, bool) aio" where
  "dmm_remove q pc cd dmm key val =
     aio_bind (dmm_client_to_leader q dmm) (\<lambda>client.
     aio_bind (aio_result (serialized (enc_key cd key))) (\<lambda>key.
     aio_bind (aio_result (serialized (enc_val cd val))) (\<lambda>val.
     client_remove_multi q pc client (dmm_name dmm) key val)))"

text \<open>\<open>Cluster::get_multi_map\<close>.\<close>

definition get_multi_map :: "('r, 'q) ClusterRef \<Rightarrow> string \<Rightarrow> ('r, 'q) DMultiMap" where
  "get_multi_map cluster name = DMultiMap_new name cluster"

section \<open>The multi-map as sets of values\<close>

definition iterates :: "(bytes fset \<Rightarrow> bytes list) \<Rightarrow> bool" where
  "iterates it \<longleftrightarrow> (\<forall>s. set (it s) = fset s \<and> distinct (it s))"

definition multi_view :: "('k, 'v) codec \<Rightarrow> string \<Rightarrow> StateMachineData \<Rightarrow> 'k \<Rightarrow> 'v set" where
  "multi_view cd name d = (\<lambda>k. {v. val_bytes cd v |\<in>| data_vals name (key_bytes cd k) d})"

definition multi_typed :: "('k, 'v) codec \<Rightarrow> string \<Rightarrow> StateMachineData \<Rightarrow> bool" where
  "multi_typed cd name d \<longleftrightarrow> (\<forall>kb vb. vb |\<in>| data_vals name kb d \<longrightarrow> (\<exists>v. vb = val_bytes cd v))"

datatype ('k, 'v) multi_op = MuInsert 'k 'v | MuRemove 'k 'v | MuGet 'k

datatype 'v multi_out = MuBool bool | MuValues 'v

text \<open>On sets of values: an insert tells if the value is new, a remove tells if it was there.\<close>

fun multi_step :: "('k, 'v) multi_op \<Rightarrow> ('k \<Rightarrow> 'v set) \<Rightarrow> 'v set multi_out \<times> ('k \<Rightarrow> 'v set)" where
  "multi_step (MuInsert k v) d = (MuBool (v \<notin> d k), d(k := insert v (d k)))"
| "multi_step (MuRemove k v) d = (MuBool (v \<in> d k), d(k := d k - {v}))"
| "multi_step (MuGet k) d = (MuValues (d k), d)"

fun multi_exec ::
  "('r, 'q) quinn \<Rightarrow> postcard \<Rightarrow> ('k, 'v) codec \<Rightarrow> (bytes fset \<Rightarrow> bytes list) \<Rightarrow> ('r, 'q) DMultiMap \<Rightarrow>
     ('k, 'v) multi_op \<Rightarrow> (('r, 'q) process, Error, 'v list multi_out) aio" where
  "multi_exec q pc cd it dmm (MuInsert k v) = aio_map MuBool (dmm_insert q pc cd dmm k v)"
| "multi_exec q pc cd it dmm (MuRemove k v) = aio_map MuBool (dmm_remove q pc cd dmm k v)"
| "multi_exec q pc cd it dmm (MuGet k) = aio_map MuValues (dmm_get q pc cd it dmm k)"

fun multi_request :: "('k, 'v) codec \<Rightarrow> string \<Rightarrow> ('k, 'v) multi_op \<Rightarrow> RequestBody" where
  "multi_request cd name (MuInsert k v) = ReqInsertMulti name (key_bytes cd k) (val_bytes cd v)"
| "multi_request cd name (MuRemove k v) = ReqRemoveMulti name (key_bytes cd k) (val_bytes cd v)"
| "multi_request cd name (MuGet k) = ReqGetMulti name (key_bytes cd k) ReadIndex"

text \<open>No value is returned twice.\<close>

fun no_repeats :: "'v list multi_out \<Rightarrow> bool" where
  "no_repeats (MuBool _) = True"
| "no_repeats (MuValues vs) = distinct vs"

lemma map_multi_out_eq:
  "MuBool b = map_multi_out f x \<longleftrightarrow> x = MuBool b"
  "MuValues s = map_multi_out f x \<longleftrightarrow> (\<exists>vs. x = MuValues vs \<and> s = f vs)"
  by (cases x; auto)+

lemma val_bytes_inj: "typed_codec cd \<Longrightarrow> val_bytes cd v = val_bytes cd v' \<longleftrightarrow> v = v'"
  by (metis typed_codecD(3) sum.inject(2))

lemma multi_insert:
  assumes "typed_codec cd"
  shows "multi_view cd name (snd (data_insert_multi name (key_bytes cd k) (val_bytes cd v) d)) =
      (multi_view cd name d)(k := insert v (multi_view cd name d k))"
    and "multi_typed cd name d \<Longrightarrow> multi_typed cd name (snd (data_insert_multi name (key_bytes cd k) (val_bytes cd v) d))"
  using typed_codecD(4) [OF assms] val_bytes_inj [OF assms]
  by (auto simp: multi_view_def multi_typed_def sm_multi.vals_insert intro!: ext split: if_splits)

lemma multi_remove:
  assumes "typed_codec cd"
  shows "multi_view cd name (snd (data_remove_multi name (key_bytes cd k) (val_bytes cd v) d)) =
      (multi_view cd name d)(k := multi_view cd name d k - {v})"
    and "multi_typed cd name d \<Longrightarrow> multi_typed cd name (snd (data_remove_multi name (key_bytes cd k) (val_bytes cd v) d))"
  using typed_codecD(4) [OF assms] val_bytes_inj [OF assms]
  by (auto simp: multi_view_def multi_typed_def sm_multi.vals_remove intro!: ext split: if_splits)

lemma decode_all_stored:
  assumes "typed_codec cd" "iterates it" "\<forall>vb. vb |\<in>| unwrap_or {||} s \<longrightarrow> (\<exists>v. vb = val_bytes cd v)"
  shows "\<exists>vs. decode_all cd (map_option it s) = Inr vs \<and> set vs = {v. val_bytes cd v |\<in>| unwrap_or {||} s} \<and> distinct vs"
proof (cases s)
  case None
  then show ?thesis by (simp add: decode_all_def)
next
  case (Some s')
  let ?dec = "\<lambda>b. projr (dec_val cd b)"
  have it: "set (it s') = fset s'" "distinct (it s')" using assms(2) by (simp_all add: iterates_def)
  have stored: "\<exists>v. b = val_bytes cd v" if "b \<in> set (it s')" for b using assms(3) Some that it(1) by simp
  have "map (\<lambda>v. serialized (dec_val cd v)) (it s') = map (\<lambda>b. Inr (?dec b)) (it s')"
    using stored typed_codecD(3) [OF assms(1)] by (intro map_cong) (auto, force)
  then have "collect_results (map (\<lambda>v. serialized (dec_val cd v)) (it s')) = Inr (map ?dec (it s'))"
    by (simp only: collect_results_Inr)
  then have "decode_all cd (map_option it s) = Inr (map ?dec (it s'))" by (simp add: decode_all_def Some)
  moreover have "v \<in> ?dec ` set (it s') \<longleftrightarrow> val_bytes cd v |\<in>| s'" for v
    using stored typed_codecD(3) [OF assms(1)] it(1) by (metis (no_types, lifting) image_iff sum.sel(2))
  then have "set (map ?dec (it s')) = {v. val_bytes cd v |\<in>| s'}" by auto
  moreover have "inj_on ?dec (set (it s'))"
    using stored typed_codecD(3) [OF assms(1)] by (intro inj_onI) (metis sum.sel(2))
  ultimately show ?thesis using it(2) Some by (simp add: distinct_map)
qed

section \<open>Operations in a cluster with a leader\<close>

lemma leader_insert_multi:
  assumes "reaches_leader (dmm_cluster dmm) ld it q pc" "typed_codec cd"
    and "fits (ld_id ld) pc (ReqInsertMulti (dmm_name dmm) (key_bytes cd k) (val_bytes cd v))"
  obtains p' where "dmm_insert q pc cd dmm k v p =
      Some (Inr (v \<notin> multi_view cd (dmm_name dmm) (leader_data ld p) k), p')"
    "leader_data ld p' = snd (data_insert_multi (dmm_name dmm) (key_bytes cd k) (val_bytes cd v) (leader_data ld p))"
  by (rule leader_answers [OF assms(1,3), of p])
    (auto intro!: that simp: dmm_insert_def dmm_client_to_leader_def client_insert_multi_def io_defs
      typed_codecD [OF assms(2)] multi_view_def)

lemma leader_remove_multi:
  assumes "reaches_leader (dmm_cluster dmm) ld it q pc" "typed_codec cd"
    and "fits (ld_id ld) pc (ReqRemoveMulti (dmm_name dmm) (key_bytes cd k) (val_bytes cd v))"
  obtains p' where "dmm_remove q pc cd dmm k v p =
      Some (Inr (v \<in> multi_view cd (dmm_name dmm) (leader_data ld p) k), p')"
    "leader_data ld p' = snd (data_remove_multi (dmm_name dmm) (key_bytes cd k) (val_bytes cd v) (leader_data ld p))"
  by (rule leader_answers [OF assms(1,3), of p])
    (auto intro!: that simp: dmm_remove_def dmm_client_to_leader_def client_remove_multi_def io_defs
      typed_codecD [OF assms(2)] multi_view_def)

lemma leader_get_multi:
  assumes "reaches_leader (dmm_cluster dmm) ld it q pc" "typed_codec cd" "iterates it" "iterates it'"
    "multi_typed cd (dmm_name dmm) (leader_data ld p)"
    and "fits (ld_id ld) pc (ReqGetMulti (dmm_name dmm) (key_bytes cd k) ReadIndex)"
  obtains p' vs where "dmm_get q pc cd it' dmm k p = Some (Inr vs, p')" "leader_data ld p' = leader_data ld p"
    "set vs = multi_view cd (dmm_name dmm) (leader_data ld p) k" "distinct vs"
proof -
  let ?vals = "data_vals (dmm_name dmm) (key_bytes cd k) (leader_data ld p)"
  have decode: "\<exists>vs. decode_all cd (map_option i s) = Inr vs \<and> set vs = multi_view cd (dmm_name dmm) (leader_data ld p) k \<and> distinct vs"
    if "iterates i" "unwrap_or {||} s = ?vals" for i s
    using decode_all_stored [OF assms(2) that(1), of s] assms(5) that(2) by (simp add: multi_typed_def multi_view_def)
  have "ReadIndex \<noteq> Stale" by simp
  then obtain stale p1 where p1: "should_read_stale ReadIndex (dmm_cluster dmm) p = (Inr stale, p1)"
    "leader_data ld p1 = leader_data ld p" "stale \<longrightarrow> the_data (p_sm p1) = leader_data ld p"
    by (rule leader_read [OF assms(1)])
  show thesis
  proof (cases stale)
    case True
    with p1(3) have "unwrap_or {||} (get_with_lock_multi (dmm_name dmm) (key_bytes cd k) (p_sm p1)) = ?vals"
      by (simp add: get_with_lock_multi_vals)
    from decode [OF assms(4) this] True p1 that show thesis
      by (auto simp: dmm_get_def dmm_get_with_def dmm_get_stale_def io_defs typed_codecD [OF assms(2)])
  next
    case False
    obtain client p2 resp p' where c: "client_to_leader q (dmm_cluster dmm) p1 = Some (Inr client, p2)"
      "client_request q pc client (ReqGetMulti (dmm_name dmm) (key_bytes cd k) ReadIndex) p2 = Some (Inr resp, p')"
      "answers it (ReqGetMulti (dmm_name dmm) (key_bytes cd k) ReadIndex) (leader_data ld p1) resp (leader_data ld p')"
      by (rule leader_answers [OF assms(1,6)]) simp
    then obtain s where s: "resp = RGetMulti (map_option it s)" "unwrap_or {||} s = ?vals"
      "leader_data ld p' = leader_data ld p" using p1(2) by auto
    from decode [OF assms(3) s(2)] False c(1,2) s(1,3) p1(1) that show thesis
      by (auto simp: dmm_get_def dmm_get_with_def dmm_client_to_leader_def client_get_multi_def io_defs
          typed_codecD [OF assms(2)])
  qed
qed

lemma multi_exec_refines:
  assumes "reaches_leader (dmm_cluster dmm) ld it q pc" "typed_codec cd" "iterates it" "iterates it'"
    "multi_typed cd (dmm_name dmm) (leader_data ld p)"
    and "fits (ld_id ld) pc (multi_request cd (dmm_name dmm) op)"
  shows "\<exists>out p'. multi_exec q pc cd it' dmm op p = Some (Inr out, p') \<and> no_repeats out \<and>
    multi_step op (multi_view cd (dmm_name dmm) (leader_data ld p)) =
       (map_multi_out set out, multi_view cd (dmm_name dmm) (leader_data ld p')) \<and>
    multi_typed cd (dmm_name dmm) (leader_data ld p')"
proof (cases op)
  case (MuInsert k v)
  with assms(6) have "fits (ld_id ld) pc (ReqInsertMulti (dmm_name dmm) (key_bytes cd k) (val_bytes cd v))" by simp
  then obtain p' where "dmm_insert q pc cd dmm k v p =
      Some (Inr (v \<notin> multi_view cd (dmm_name dmm) (leader_data ld p) k), p')"
    "leader_data ld p' = snd (data_insert_multi (dmm_name dmm) (key_bytes cd k) (val_bytes cd v) (leader_data ld p))"
    by (rule leader_insert_multi [OF assms(1,2)])
  with MuInsert multi_insert [OF assms(2)] assms(5) show ?thesis by (simp add: io_defs)
next
  case (MuRemove k v)
  with assms(6) have "fits (ld_id ld) pc (ReqRemoveMulti (dmm_name dmm) (key_bytes cd k) (val_bytes cd v))" by simp
  then obtain p' where "dmm_remove q pc cd dmm k v p =
      Some (Inr (v \<in> multi_view cd (dmm_name dmm) (leader_data ld p) k), p')"
    "leader_data ld p' = snd (data_remove_multi (dmm_name dmm) (key_bytes cd k) (val_bytes cd v) (leader_data ld p))"
    by (rule leader_remove_multi [OF assms(1,2)])
  with MuRemove multi_remove [OF assms(2)] assms(5) show ?thesis by (simp add: io_defs)
next
  case (MuGet k)
  with assms(6) have "fits (ld_id ld) pc (ReqGetMulti (dmm_name dmm) (key_bytes cd k) ReadIndex)" by simp
  then obtain p' vs where "dmm_get q pc cd it' dmm k p = Some (Inr vs, p')" "leader_data ld p' = leader_data ld p"
    "set vs = multi_view cd (dmm_name dmm) (leader_data ld p) k" "distinct vs"
    by (rule leader_get_multi [OF assms(1-5)])
  with MuGet assms(5) show ?thesis by (simp add: io_defs)
qed

lemma multi_run:
  assumes "reaches_leader (dmm_cluster dmm) ld it q pc" "typed_codec cd" "iterates it" "iterates it'"
    and "multi_typed cd (dmm_name dmm) (leader_data ld p)"
    and "\<forall>op \<in> set ops. fits (ld_id ld) pc (multi_request cd (dmm_name dmm) op)"
  shows "\<exists>outs p'. run_ok (multi_exec q pc cd it' dmm) ops p = Some (outs, p') \<and> list_all no_repeats outs \<and>
    run_steps multi_step ops (multi_view cd (dmm_name dmm) (leader_data ld p)) =
      (map (map_multi_out set) outs, multi_view cd (dmm_name dmm) (leader_data ld p'))"
  using run_ok_refines [where ok = "\<lambda>p. multi_typed cd (dmm_name dmm) (leader_data ld p)" and good = no_repeats
      and obs = "map_multi_out set" and view = "\<lambda>p. multi_view cd (dmm_name dmm) (leader_data ld p)"
      and exec = "multi_exec q pc cd it' dmm" and step = multi_step, OF assms(5)]
    multi_exec_refines [OF assms(1-4)] assms(6) by blast

section \<open>Properties\<close>

definition multi_bodies :: "RequestBody list" where
  "multi_bodies = [ReqInsertMulti ''m'' [1] [2], ReqInsertMulti ''m'' [1] [3], ReqGetMulti ''m'' [1] ReadIndex]"

lemma multi_fits: "body \<in> set multi_bodies \<Longrightarrow> fits 7 (solo_postcard multi_bodies) body"
  by (rule solo_fits_all) (simp_all add: multi_bodies_def max_request_size_def)

lemma sorted_iterates: "iterates sorted_list_of_fset"
  by (simp add: iterates_def sorted_list_of_fset.rep_eq)

end
