(* ===== verification/Forwarding.thy ===== *)
theory Forwarding
  imports Collections
begin

text \<open>
  Writes that are sent to a node that does not lead. The node refuses the write and names the leader it
  knows, which may be out of date; the client follows (\<open>Client::request\<close>) until a node accepts the write.
  This composes client, connection cache, wire and the message handlers of several nodes.
\<close>

section \<open>Nodes and connections\<close>

text \<open>
  The nodes are known by their addresses: their ids, their openraft and their processes, which are
  part of the world outside the client's process. A connection leads to one address.
\<close>

record ('r, 'q, 's, 't) mesh =
  mesh_peer :: "conn \<Rightarrow> SocketAddr"
  mesh_id :: "SocketAddr \<Rightarrow> NodeId"
  mesh_raft :: "SocketAddr \<Rightarrow> ('s, 't) openraft"
  mesh_at :: "SocketAddr \<Rightarrow> ('r, 'q) process \<Rightarrow> ('s, 't) process"

definition same_data :: "('r, 'q, 's, 't) mesh \<Rightarrow> ('r, 'q) process \<Rightarrow> ('r, 'q) process \<Rightarrow> bool" where
  "same_data net p p' \<longleftrightarrow> (\<forall>a. p_sm (mesh_at net a p') = p_sm (mesh_at net a p))"

text \<open>The connection cache holds connections to the right addresses.\<close>

definition routed :: "('r, 'q, 's, 't) mesh \<Rightarrow> ('r, 'q) process \<Rightarrow> bool" where
  "routed net p \<longleftrightarrow> (\<forall>a c. fmlookup (connections p) a = Some c \<longrightarrow> mesh_peer net c = a)"

text \<open>What an exchange over a stream keeps.\<close>

definition stream_keeps ::
  "('r, 'q) quinn \<Rightarrow> conn \<Rightarrow> (('r, 'q) process \<Rightarrow> ('r, 'q) process \<Rightarrow> bool) \<Rightarrow> bool" where
  "stream_keeps q c R \<longleftrightarrow>
     (\<forall>p s p1 b p2 out p3. q_open_bi q c p = (Inr s, p1) \<longrightarrow> q_write_all q s b p1 = (Inr (), p2) \<longrightarrow>
        q_read_to_end q usize_max s (q_finish q s p2) = (Inr out, p3) \<longrightarrow> R p p3)"

text \<open>
  The network: connecting succeeds and leads to the address, streams carry requests to the server at
  the other end, the other tasks of the client keep the cache right, and only a write that the server
  accepts changes data.
\<close>

definition meshed ::
  "('r, 'q, 's, 't) mesh \<Rightarrow> (bytes fset \<Rightarrow> bytes list) \<Rightarrow> ('r, 'q) quinn \<Rightarrow> postcard \<Rightarrow> bool" where
  "meshed net it q pc \<longleftrightarrow> reply_codec_ok pc \<and>
     (\<forall>c. delivers q c (mesh_at net (mesh_peer net c)) (serve_bytes (mesh_raft net (mesh_peer net c)) it pc)) \<and>
     (\<forall>c. stream_keeps q c (\<lambda>p p'. (routed net p \<longrightarrow> routed net p') \<and>
        (p_sm (mesh_at net (mesh_peer net c) p') = p_sm (mesh_at net (mesh_peer net c) p) \<longrightarrow> same_data net p p'))) \<and>
     (\<forall>addr name p. \<exists>tok p1 c p2. q_connect q addr name p = (Inr tok, p1) \<and> q_connecting q tok p1 = (Inr c, p2) \<and>
        mesh_peer net c = addr \<and> (routed net p \<longrightarrow> routed net p2) \<and> same_data net p p2) \<and>
     (\<forall>addr c p. same_data net p (cache_insert addr c p)) \<and>
     (\<forall>a p. srv_id (r_server_metrics (mesh_raft net a) p) = mesh_id net a)"

text \<open>openraft of a node that refuses writes and takes the node at an address for the leader.\<close>

definition forwards :: "('s, 't) openraft \<Rightarrow> NodeId \<Rightarrow> Node \<Rightarrow> bool" where
  "forwards r i node \<longleftrightarrow> (\<forall>req p. \<exists>p'. r_client_write r req p =
     (Inl (APIError (CW_ForwardToLeader \<lparr>ftl_leader_id = Some i, ftl_leader_node = Some node\<rparr>)), p') \<and> p_sm p' = p_sm p)"

definition points :: "('r, 'q, 's, 't) mesh \<Rightarrow> SocketAddr \<Rightarrow> SocketAddr \<Rightarrow> bool" where
  "points net a a' \<longleftrightarrow> (\<exists>node. node_addr node = a' \<and> forwards (mesh_raft net a) (mesh_id net a') node)"

fun data_write :: "RequestBody \<Rightarrow> RaftRequest option" where
  "data_write (ReqInsert m k v) = Some (RaftInsert m k v)"
| "data_write (ReqInsertMulti m k v) = Some (RaftInsertMulti m k v)"
| "data_write (ReqClear m) = Some (RaftClear m)"
| "data_write _ = None"

lemma data_write_handled:
  assumes "data_write body = Some req"
  shows "handle_body r it body p = handle_write r req p" "asks_data body"
  using assms by (cases body; simp)+

lemma refused_write:
  assumes "data_write body = Some req" "forwards r i node"
  obtains p' where "handle_body r it body p = (Inl (RE_RaftWrite (APIError (CW_ForwardToLeader
      \<lparr>ftl_leader_id = Some i, ftl_leader_node = Some node\<rparr>))), p')" "p_sm p' = p_sm p"
proof -
  obtain p' where "r_client_write r req p = (Inl (APIError (CW_ForwardToLeader
      \<lparr>ftl_leader_id = Some i, ftl_leader_node = Some node\<rparr>)), p')" "p_sm p' = p_sm p"
    using assms(2) unfolding forwards_def by blast
  then show thesis
    by (intro that [of p']) (simp_all add: data_write_handled [OF assms(1)] handle_write_def io_defs)
qed

section \<open>Connecting and exchanging\<close>

lemma exchange_keeps:
  assumes "stream_keeps q c R" "client_exchange q pc c msg p = (Inr reply, p')"
  shows "R p p'"
  using assms unfolding stream_keeps_def client_exchange_def by (auto simp: io_inversion)

lemma meshed_connect:
  assumes "meshed net it q pc" "routed net p"
  obtains c p' where "cache_connect q node p = (Inr c, p')" "mesh_peer net c = node_addr node" "routed net p'"
    "same_data net p p'"
proof (cases "\<exists>c. fmlookup (connections p) (node_addr node) = Some c \<and> q_close_reason q c p = None")
  case True
  then obtain c where "fmlookup (connections p) (node_addr node) = Some c" "q_close_reason q c p = None" by blast
  with assms(2) that show thesis by (auto simp: cache_connect_def routed_def same_data_def)
next
  case False
  then have new: "cache_connect q node p = cache_connect_new q node p"
    by (auto simp: cache_connect_def split: option.split)
  obtain tok p1 c p2 where c: "q_connect q (node_addr node) (node_server_name node) p = (Inr tok, p1)"
    "q_connecting q tok p1 = (Inr c, p2)" "mesh_peer net c = node_addr node" "routed net p2" "same_data net p p2"
    using assms unfolding meshed_def by meson
  have "same_data net p2 (cache_insert (node_addr node) c p2)" using assms(1) by (simp add: meshed_def)
  with c show thesis
    by (intro that [of c "cache_insert (node_addr node) c p2"])
      (auto simp: new cache_connect_new_def io_defs routed_def same_data_def cache_insert_def)
qed

lemma meshed_exchange:
  assumes "meshed net it q pc" "routed net p" "mesh_peer net c = a"
    and "req_target_id msg = None \<or> req_target_id msg = Some (mesh_id net a)"
    and "request_encoded pc msg b" "length b \<le> max_request_size"
  obtains n p' where "p_sm n = p_sm (mesh_at net a p)" "routed net p'"
    "mesh_at net a p' = snd (handle_body (mesh_raft net a) it (req_body msg) n)"
    "client_exchange q pc c msg p = (Inr (fst (handle_body (mesh_raft net a) it (req_body msg) n)), p')"
    "p_sm (mesh_at net a p') = p_sm (mesh_at net a p) \<longrightarrow> same_data net p p'"
proof -
  have m: "delivers q c (mesh_at net a) (serve_bytes (mesh_raft net a) it pc)" "reply_codec_ok pc"
    "stream_keeps q c (\<lambda>p p'. (routed net p \<longrightarrow> routed net p') \<and>
        (p_sm (mesh_at net a p') = p_sm (mesh_at net a p) \<longrightarrow> same_data net p p'))"
    "\<And>p. srv_id (r_server_metrics (mesh_raft net a) p) = mesh_id net a"
    using assms(1) unfolding meshed_def assms(3) [symmetric] by blast+
  have h: "handle_message (mesh_raft net a) it msg n = handle_body (mesh_raft net a) it (req_body msg) n" for n
    using assms(4) m(4) by (auto simp: handle_message_def)
  obtain n p' where n: "p_sm n = p_sm (mesh_at net a p)" "mesh_at net a p' = snd (handle_message (mesh_raft net a) it msg n)"
    "client_exchange q pc c msg p = (Inr (fst (handle_message (mesh_raft net a) it msg n)), p')"
    by (rule exchange_handled [OF m(1,2) assms(5,6)])
  from exchange_keeps [OF m(3) n(3)] assms(2) n show thesis by (intro that [of n p']) (simp_all add: h)
qed

text \<open>One redirect: from a node that refuses to the node it names.\<close>

lemma meshed_hop:
  assumes "meshed net it q pc" "routed net p" "points net (mesh_peer net c) a'" "data_write (req_body msg) = Some req"
    and "req_target_id msg = None \<or> req_target_id msg = Some (mesh_id net (mesh_peer net c))"
    and "request_encoded pc msg b" "length b \<le> max_request_size"
  obtains c' p' where "hop q pc (c, msg, p) (c', msg\<lparr>req_target_id := Some (mesh_id net a')\<rparr>, p')"
    "mesh_peer net c' = a'" "routed net p'" "same_data net p p'"
proof -
  let ?a = "mesh_peer net c"
  obtain node where node: "node_addr node = a'" "forwards (mesh_raft net ?a) (mesh_id net a') node"
    using assms(3) unfolding points_def by blast
  obtain n p1 where n: "p_sm n = p_sm (mesh_at net ?a p)" "routed net p1"
    "mesh_at net ?a p1 = snd (handle_body (mesh_raft net ?a) it (req_body msg) n)"
    "client_exchange q pc c msg p = (Inr (fst (handle_body (mesh_raft net ?a) it (req_body msg) n)), p1)"
    "p_sm (mesh_at net ?a p1) = p_sm (mesh_at net ?a p) \<longrightarrow> same_data net p p1"
    by (rule meshed_exchange [OF assms(1,2) refl assms(5-7)])
  let ?e = "RE_RaftWrite (APIError (CW_ForwardToLeader
    \<lparr>ftl_leader_id = Some (mesh_id net a'), ftl_leader_node = Some node\<rparr>))"
  obtain n' where "handle_body (mesh_raft net ?a) it (req_body msg) n = (Inl ?e, n')" "p_sm n' = p_sm n"
    by (rule refused_write [OF assms(4) node(2)])
  with n have x: "client_exchange q pc c msg p = (Inr (Inl ?e), p1)" "same_data net p p1" by simp_all
  obtain c' p' where "cache_connect q node p1 = (Inr c', p')" "mesh_peer net c' = node_addr node" "routed net p'"
    "same_data net p1 p'"
    by (rule meshed_connect [OF assms(1) n(2)])
  with x node(1) show thesis
    by (intro that [of c' p']) (simp_all add: hop_def client_step_def redirect_target_def same_data_def)
qed

section \<open>Properties\<close>

text \<open>
  C9 (write_follows_redirects): a write that is sent to any node is answered by the leader, as long as
  the nodes that refuse it point, directly or through each other, to the leader: the client follows the
  redirects and returns with the answer of the leader for the data the leader had. The redirected
  request is addressed to the node it is sent to, so no node rejects it as meant for another one.
\<close>

theorem write_follows_redirects:
  assumes "meshed net it q pc" "routed net p" "(points net)\<^sup>*\<^sup>* (mesh_peer net c) leader"
    and "stable_leader (mesh_raft net leader)" "data_write body = Some req"
    and "target = None \<or> target = Some (mesh_id net (mesh_peer net c))"
    and "\<exists>b. request_encoded pc \<lparr>req_target_id = target, req_body = body\<rparr> b \<and> length b \<le> max_request_size"
    and "\<forall>a. fits (mesh_id net a) pc body"
  shows "\<exists>resp p'. client_request q pc \<lparr>client_conn = c, client_target_id = target\<rparr> body p = Some (Inr resp, p') \<and>
    answers it body (the_data (p_sm (mesh_at net leader p))) resp (the_data (p_sm (mesh_at net leader p')))"
proof -
  have "\<exists>resp p'. client_loop q pc (c, \<lparr>req_target_id = target, req_body = body\<rparr>, p) = Some (Inr resp, p') \<and>
    answers it body (the_data (p_sm (mesh_at net leader p))) resp (the_data (p_sm (mesh_at net leader p')))"
    if "a = mesh_peer net c" for a
    using assms(3) [folded that] assms(2,6,7) that
  proof (induction arbitrary: c target p rule: converse_rtranclp_induct)
    case base
    then obtain b where b: "request_encoded pc \<lparr>req_target_id = target, req_body = body\<rparr> b" "length b \<le> max_request_size"
      by blast
    let ?msg = "\<lparr>req_target_id = target, req_body = body\<rparr>"
    have t: "req_target_id ?msg = None \<or> req_target_id ?msg = Some (mesh_id net leader)" using base by auto
    have c: "mesh_peer net c = leader" using base by simp
    obtain n p' where n: "p_sm n = p_sm (mesh_at net leader p)"
      "mesh_at net leader p' = snd (handle_body (mesh_raft net leader) it (req_body ?msg) n)"
      "client_exchange q pc c ?msg p = (Inr (fst (handle_body (mesh_raft net leader) it (req_body ?msg) n)), p')"
      by (rule meshed_exchange [OF assms(1) base(1) c t b])
    obtain resp n' where "handle_body (mesh_raft net leader) it body n = (Inr resp, n')"
      "answers it body (the_data (p_sm n)) resp (the_data (p_sm n'))"
      using stable_leader_answers [OF assms(4) data_write_handled(2) [OF assms(5)]] by blast
    with n show ?case
      by (intro exI [of _ resp] exI [of _ p']) (simp add: client_loop.simps [of q pc] client_step_def)
  next
    case (step a a')
    then obtain b where b: "request_encoded pc \<lparr>req_target_id = target, req_body = body\<rparr> b" "length b \<le> max_request_size"
      by blast
    have pt: "points net (mesh_peer net c) a'" using step by simp
    obtain c' p' where h: "hop q pc (c, \<lparr>req_target_id = target, req_body = body\<rparr>, p)
        (c', \<lparr>req_target_id = Some (mesh_id net a'), req_body = body\<rparr>, p')"
      "mesh_peer net c' = a'" "routed net p'" "same_data net p p'"
      by (rule meshed_hop [OF assms(1) step.prems(1) pt _ _ b]) (use assms(5) step.prems(2) in auto)
    have "\<exists>b. request_encoded pc \<lparr>req_target_id = Some (mesh_id net a'), req_body = body\<rparr> b \<and> length b \<le> max_request_size"
      using assms(8) unfolding fits_def by blast
    from step.IH [OF h(3) _ this, of c'] h(2) obtain resp p'' where
      "client_loop q pc (c', \<lparr>req_target_id = Some (mesh_id net a'), req_body = body\<rparr>, p') = Some (Inr resp, p'')"
      "answers it body (the_data (p_sm (mesh_at net leader p'))) resp (the_data (p_sm (mesh_at net leader p'')))"
      by blast
    with h(1,4) show ?case by (auto simp: client_loop.simps [of q pc "(c, _)"] hop_def same_data_def)
  qed
  then show ?thesis by (simp add: client_request_def)
qed

text \<open>
  C35 (no_leader_never_returns): a write that is sent to a group of nodes each of which takes another one
  of the group for the leader never returns: there is no limit on the number of redirects, no timeout,
  and no error.
\<close>

theorem no_leader_never_returns:
  assumes "meshed net it q pc" "routed net p" "mesh_peer net c \<in> addrs" "\<forall>a \<in> addrs. \<exists>a' \<in> addrs. points net a a'"
    and "data_write body = Some req" "target = None \<or> target = Some (mesh_id net (mesh_peer net c))"
    and "\<exists>b. request_encoded pc \<lparr>req_target_id = target, req_body = body\<rparr> b \<and> length b \<le> max_request_size"
    and "\<forall>a. fits (mesh_id net a) pc body"
  shows "client_request q pc \<lparr>client_conn = c, client_target_id = target\<rparr> body p = None"
proof -
  define waiting where "waiting = (\<lambda>(c, msg, p). routed net p \<and> mesh_peer net c \<in> addrs \<and> req_body msg = body \<and>
    (req_target_id msg = None \<or> req_target_id msg = Some (mesh_id net (mesh_peer net c))) \<and>
    (\<exists>b. request_encoded pc msg b \<and> length b \<le> max_request_size))"
  have step: "\<exists>s'. hop q pc s s' \<and> waiting s'" if s: "waiting s" for s
  proof -
    obtain c msg p where cmp: "s = (c, msg, p)" by (cases s)
    with s obtain a' b where a': "a' \<in> addrs" "points net (mesh_peer net c) a'"
      and b: "request_encoded pc msg b" "length b \<le> max_request_size"
      using assms(4) unfolding waiting_def by blast
    have r: "routed net p" "data_write (req_body msg) = Some req"
      "req_target_id msg = None \<or> req_target_id msg = Some (mesh_id net (mesh_peer net c))"
      using s cmp assms(5) by (auto simp: waiting_def)
    obtain c' p' where h: "hop q pc (c, msg, p) (c', msg\<lparr>req_target_id := Some (mesh_id net a')\<rparr>, p')"
      "mesh_peer net c' = a'" "routed net p'"
      by (rule meshed_hop [OF assms(1) r(1) a'(2) r(2,3) b])
    have "msg\<lparr>req_target_id := Some (mesh_id net a')\<rparr> = \<lparr>req_target_id = Some (mesh_id net a'), req_body = body\<rparr>"
      using s cmp by (simp add: waiting_def)
    with h a'(1) assms(8) cmp show ?thesis
      by (intro exI [of _ "(c', msg\<lparr>req_target_id := Some (mesh_id net a')\<rparr>, p')"]) (auto simp: waiting_def fits_def)
  qed
  have "returns q pc s r \<Longrightarrow> \<not> waiting s" for s r
    by (induction rule: returns.induct) (metis step hop_def hop_deterministic Inl_Inr_False)+
  moreover have "waiting (c, \<lparr>req_target_id = target, req_body = body\<rparr>, p)"
    using assms(2,3,6,7) by (simp add: waiting_def)
  ultimately have "\<nexists>r. client_loop q pc (c, \<lparr>req_target_id = target, req_body = body\<rparr>, p) = Some r"
    by (simp only: client_loop_returns) blast
  then show ?thesis unfolding client_request_def by (metis Client.select_convs(1,2) not_Some_eq)
qed

section \<open>A leader and a node that refuses\<close>

text \<open>
  A network with the one-node raft at one address. At every other address there is one further node,
  which refuses all writes and takes a given node for the leader.
\<close>

type_synonym hub_state = "(u64, unit) process \<times> (u64, unit) process \<times> bytes"

definition refusing_raft :: "NodeId \<Rightarrow> Node \<Rightarrow> (u64, unit) openraft" where
  "refusing_raft i node = solo_raft\<lparr>r_client_write := \<lambda>_ p. (Inl (APIError (CW_ForwardToLeader
       \<lparr>ftl_leader_id = Some i, ftl_leader_node = Some node\<rparr>)), p),
     r_server_metrics := \<lambda>_. \<lparr>srv_id = 8, srv_state = Follower\<rparr>\<rparr>"

definition hub :: "NodeId \<Rightarrow> Node \<Rightarrow> (unit, hub_state, u64, unit) mesh" where
  "hub i node = \<lparr>mesh_peer = from_nat, mesh_id = (\<lambda>a. if a = example_addr then 7 else 8),
     mesh_raft = (\<lambda>a. if a = example_addr then solo_raft else refusing_raft i node),
     mesh_at = (\<lambda>a p. if a = example_addr then fst (quic p) else fst (snd (quic p)))\<rparr>"

definition hub_put :: "SocketAddr \<Rightarrow> (u64, unit) process \<Rightarrow> (unit, hub_state) process \<Rightarrow> (unit, hub_state) process" where
  "hub_put a n p = (case quic p of (l, f, b) \<Rightarrow> p\<lparr>quic := if a = example_addr then (n, f, b) else (l, n, b)\<rparr>)"

definition hub_quinn :: "NodeId \<Rightarrow> Node \<Rightarrow> postcard \<Rightarrow> (unit, hub_state) quinn" where
  "hub_quinn i node pc = \<lparr>q_connect = (\<lambda>a _ p. (Inr (to_nat a), p)), q_connecting = (\<lambda>tok p. (Inr tok, p)),
     q_close_reason = (\<lambda>_ _. None), q_open_bi = (\<lambda>c p. (Inr c, p)),
     q_write_all = (\<lambda>_ b p. (Inr (), p\<lparr>quic := (fst (quic p), fst (snd (quic p)), b)\<rparr>)), q_finish = (\<lambda>_ p. p),
     q_read_to_end = (\<lambda>_ s p. case serve_bytes (mesh_raft (hub i node) (from_nat s)) sorted_list_of_fset pc
         (snd (snd (quic p))) (mesh_at (hub i node) (from_nat s) p) of (out, n) \<Rightarrow> (Inr out, hub_put (from_nat s) n p)),
     q_close = (\<lambda>_ p. p)\<rparr>"

definition hub_process :: "(unit, hub_state) process" where
  "hub_process = \<lparr>raft_core = (), p_sm = StateMachine_default, p_monitor = HeartbeatMonitor_default,
     connections = fmempty, watchers = [], p_tasks = [], quic = (solo_process, solo_process, [])\<rparr>"

definition other_addr :: SocketAddr where
  "other_addr = SocketAddr_new (V4 10 0 0 9) 9"

lemma hub_at_simps [simp]:
  "mesh_at (hub i node) a (hub_put a n p) = n"
  "connections (hub_put a n p) = connections p" "mesh_at (hub i node) a (cache_insert addr c p) = mesh_at (hub i node) a p"
  "mesh_at (hub i node) a (p\<lparr>quic := (fst (quic p), fst (snd (quic p)), b)\<rparr>) = mesh_at (hub i node) a p"
  by (simp_all add: hub_def hub_put_def cache_insert_def split: prod.split)

lemma hub_put_other:
  "p_sm n = p_sm (mesh_at (hub i node) a p) \<Longrightarrow> same_data (hub i node) p (hub_put a n p)"
  by (auto simp: same_data_def hub_def hub_put_def split: prod.split)

lemma hub_delivers:
  "delivers (hub_quinn i node pc) c (mesh_at (hub i node) (from_nat c))
     (serve_bytes (mesh_raft (hub i node) (from_nat c)) sorted_list_of_fset pc)"
proof -
  let ?q = "hub_quinn i node pc" and ?at = "mesh_at (hub i node) (from_nat c)"
  let ?serve = "serve_bytes (mesh_raft (hub i node) (from_nat c)) sorted_list_of_fset pc"
  have "\<exists>p2 n p3. q_write_all ?q c b p = (Inr (), p2) \<and> p_sm n = p_sm (?at p) \<and>
      q_read_to_end ?q usize_max c (q_finish ?q c p2) = (Inr (fst (?serve b n)), p3) \<and> ?at p3 = snd (?serve b n)" for b p
    by (intro exI [of _ "p\<lparr>quic := (fst (quic p), fst (snd (quic p)), b)\<rparr>"] exI [of _ "?at p"]
        exI [of _ "hub_put (from_nat c) (snd (?serve b (?at p))) (p\<lparr>quic := (fst (quic p), fst (snd (quic p)), b)\<rparr>)"])
      (simp add: hub_quinn_def split: prod.split)
  moreover have "q_open_bi ?q c p = (Inr c, p)" for p by (simp add: hub_quinn_def)
  ultimately show ?thesis unfolding delivers_def by blast
qed

lemma hub_meshed:
  assumes "reply_codec_ok pc"
  shows "meshed (hub i node) sorted_list_of_fset (hub_quinn i node pc) pc"
proof -
  let ?q = "hub_quinn i node pc" and ?net = "hub i node"
  have peer: "mesh_peer ?net = from_nat" by (simp add: hub_def)
  have "stream_keeps ?q c (\<lambda>p p'. (routed ?net p \<longrightarrow> routed ?net p') \<and>
      (p_sm (mesh_at ?net (from_nat c) p') = p_sm (mesh_at ?net (from_nat c) p) \<longrightarrow> same_data ?net p p'))" for c
    using hub_put_other [of _ i node "from_nat c"]
    by (auto simp: stream_keeps_def hub_quinn_def routed_def same_data_def split: prod.splits)
  moreover have "srv_id (r_server_metrics (mesh_raft ?net a) p) = mesh_id ?net a" for a p
    by (simp add: hub_def refusing_raft_def solo_raft_def)
  moreover have "\<exists>tok p1 c p2. q_connect ?q a name p = (Inr tok, p1) \<and> q_connecting ?q tok p1 = (Inr c, p2) \<and>
        from_nat c = a \<and> (routed ?net p \<longrightarrow> routed ?net p2) \<and> same_data ?net p p2" for a name p
    by (simp add: hub_quinn_def same_data_def)
  ultimately show ?thesis using assms hub_delivers by (simp add: meshed_def peer same_data_def)
qed

lemma hub_process_routed: "routed (hub i node) hub_process"
  by (simp add: routed_def hub_process_def)

definition hub_postcard :: "RequestBody \<Rightarrow> postcard" where
  "hub_postcard body = listed_postcard [\<lparr>req_target_id = None, req_body = body\<rparr>, \<lparr>req_target_id = Some 7, req_body = body\<rparr>,
     \<lparr>req_target_id = Some 8, req_body = body\<rparr>]"

lemma hub_fits:
  "\<exists>b. request_encoded (hub_postcard body) \<lparr>req_target_id = None, req_body = body\<rparr> b \<and> length b \<le> max_request_size"
  "\<forall>a. fits (mesh_id (hub i node) a) (hub_postcard body) body"
proof -
  let ?msgs = "[\<lparr>req_target_id = None, req_body = body\<rparr>, \<lparr>req_target_id = Some 7, req_body = body\<rparr>,
     \<lparr>req_target_id = Some 8, req_body = body\<rparr>]"
  show "\<exists>b. request_encoded (hub_postcard body) \<lparr>req_target_id = None, req_body = body\<rparr> b \<and> length b \<le> max_request_size"
    using listed_request_encoded [of 0 ?msgs] by (auto simp: hub_postcard_def)
  have "fits 7 (hub_postcard body) body" "fits 8 (hub_postcard body) body"
    unfolding fits_def hub_postcard_def
    using listed_request_encoded [of 1 ?msgs] listed_request_encoded [of 2 ?msgs]
    by (auto simp: less_Suc_eq numeral_2_eq_2 max_request_size_def intro!: exI)
  then show "\<forall>a. fits (mesh_id (hub i node) a) (hub_postcard body) body" by (simp add: hub_def)
qed

lemma hub_postcard_ok: "reply_codec_ok (hub_postcard body)"
  by (simp add: hub_postcard_def listed_reply_codec)

lemma hub_points: "other_addr \<noteq> example_addr \<Longrightarrow> a = node_addr node \<Longrightarrow> i = mesh_id (hub i node) a \<Longrightarrow>
    points (hub i node) other_addr a"
  by (auto simp: points_def forwards_def hub_def refusing_raft_def)

lemma other_addr_neq: "other_addr \<noteq> example_addr"
  by (simp add: other_addr_def example_addr_def SocketAddr_new_def)

theorem write_follows_redirects_witness:
  "\<exists>resp p'. client_request (hub_quinn 7 solo_node (hub_postcard (ReqInsert ''m'' [1] [2]))) (hub_postcard (ReqInsert ''m'' [1] [2]))
     \<lparr>client_conn = to_nat other_addr, client_target_id = None\<rparr> (ReqInsert ''m'' [1] [2]) hub_process = Some (Inr resp, p') \<and>
   data_get ''m'' [1] (the_data (p_sm (mesh_at (hub 7 solo_node) example_addr p'))) = Some [2]"
proof -
  let ?body = "ReqInsert ''m'' [1] [2]" and ?net = "hub 7 solo_node"
  have peer: "mesh_peer ?net (to_nat other_addr) = other_addr" by (simp add: hub_def)
  have "points ?net other_addr example_addr"
    by (rule hub_points [OF other_addr_neq]) (simp_all add: solo_node_def Node_new_def hub_def)
  then have pts: "(points ?net)\<^sup>*\<^sup>* (mesh_peer ?net (to_nat other_addr)) example_addr" unfolding peer by blast
  have l: "stable_leader (mesh_raft ?net example_addr)" using solo_stable by (simp add: hub_def)
  have w: "data_write ?body = Some (RaftInsert ''m'' [1] [2])" by simp
  from write_follows_redirects [OF hub_meshed [OF hub_postcard_ok] hub_process_routed pts l w _ hub_fits] show ?thesis
    by (auto simp: sm_map.get_insert)
qed

theorem no_leader_never_returns_witness:
  "client_request (hub_quinn 8 (Node_new other_addr ''localhost'') (hub_postcard (ReqClear ''m''))) (hub_postcard (ReqClear ''m''))
     \<lparr>client_conn = to_nat other_addr, client_target_id = None\<rparr> (ReqClear ''m'') hub_process = None"
proof -
  let ?node = "Node_new other_addr ''localhost''" let ?net = "hub 8 ?node"
  have peer: "mesh_peer ?net (to_nat other_addr) \<in> {other_addr}" by (simp add: hub_def)
  have "points ?net other_addr other_addr"
    by (rule hub_points [OF other_addr_neq]) (simp_all add: Node_new_def hub_def other_addr_neq)
  then have pts: "\<forall>a \<in> {other_addr}. \<exists>a' \<in> {other_addr}. points ?net a a'" by simp
  have w: "data_write (ReqClear ''m'') = Some (RaftClear ''m'')" by simp
  from no_leader_never_returns [OF hub_meshed [OF hub_postcard_ok] hub_process_routed peer pts w _ hub_fits]
  show ?thesis by simp
qed

end
