(* ===== verification/Store_Typing.thy ===== *)
theory Store_Typing
  imports DMultiMap Forwarding
begin

text \<open>
  Types of the stored collections. The state machine, the log, the snapshots and the messages carry
  byte strings; a \<open>DMap<K, V>\<close> or \<open>DMultiMap<K, V>\<close> reads them back at its own types. This theory
  shows that a cluster whose clients agree on the types of each collection only ever holds and returns
  byte strings of these types, on every node, whatever openraft does with leaders, logs and snapshots.
\<close>

section \<open>Types of collections\<close>

text \<open>For every map and multi-map, by name, the pairs of encoded keys and values it may hold.\<close>

record store_type =
  st_map :: "string \<Rightarrow> bytes \<Rightarrow> bytes \<Rightarrow> bool"
  st_multi :: "string \<Rightarrow> bytes \<Rightarrow> bytes \<Rightarrow> bool"

text \<open>The entries of a collection with the given types of keys and values.\<close>

definition entries_of :: "('k, 'v) codec \<Rightarrow> bytes \<Rightarrow> bytes \<Rightarrow> bool" where
  "entries_of cd kb vb \<longleftrightarrow> (\<exists>k v. kb = key_bytes cd k \<and> vb = val_bytes cd v)"

definition data_typed :: "store_type \<Rightarrow> StateMachineData \<Rightarrow> bool" where
  "data_typed T d \<longleftrightarrow> (\<forall>m k v. data_get m k d = Some v \<longrightarrow> st_map T m k v) \<and>
     (\<forall>m k v. v |\<in>| data_vals m k d \<longrightarrow> st_multi T m k v)"

fun request_typed :: "store_type \<Rightarrow> RaftRequest \<Rightarrow> bool" where
  "request_typed T (RaftInsert m k v) = st_map T m k v"
| "request_typed T (RaftInsertMulti m k v) = st_multi T m k v"
| "request_typed T (RaftClear m) = True"

fun response_typed :: "store_type \<Rightarrow> RaftRequest \<Rightarrow> RaftResponse \<Rightarrow> bool" where
  "response_typed T (RaftInsert m k _) (RespInsert old) = pred_option (st_map T m k) old"
| "response_typed T (RaftInsertMulti _ _ _) (RespInsertMulti _) = True"
| "response_typed T (RaftClear _) RespClear = True"
| "response_typed T _ _ = False"

text \<open>The answers to a request: of the kind the request asks for, with values of the collection.\<close>

fun answer_typed :: "store_type \<Rightarrow> RequestBody \<Rightarrow> Response \<Rightarrow> bool" where
  "answer_typed T (ReqAddLearner _ _ _) resp = (\<exists>r. resp = RAddLearner r)"
| "answer_typed T (ReqChangeMembership _ _) resp = (\<exists>r. resp = RClientWrite r)"
| "answer_typed T (ReqAppend _) resp = (\<exists>r. resp = RAppend r)"
| "answer_typed T (ReqVote _) resp = (\<exists>r. resp = RVote r)"
| "answer_typed T (ReqContainsKey _ _ _) resp = (\<exists>b. resp = RContainsKey b)"
| "answer_typed T (ReqGet m k _) resp = (\<exists>v. resp = RGet v \<and> pred_option (st_map T m k) v)"
| "answer_typed T (ReqGetMulti m k _) resp = (\<exists>vs. resp = RGetMulti vs \<and> pred_option (list_all (st_multi T m k)) vs)"
| "answer_typed T (ReqRemove m k) resp = (\<exists>v. resp = RRemove v \<and> pred_option (st_map T m k) v)"
| "answer_typed T (ReqRemoveMulti _ _ _) resp = (\<exists>b. resp = RRemoveMulti b)"
| "answer_typed T (ReqLen _ _) resp = (\<exists>n. resp = RLen n)"
| "answer_typed T body resp =
     (\<exists>r. resp = RClientWrite r \<and> pred_option (\<lambda>req. response_typed T req (cw_data r)) (data_write body))"

definition reply_typed :: "store_type \<Rightarrow> RequestBody \<Rightarrow> reply \<Rightarrow> bool" where
  "reply_typed T body reply = (case reply of Inl _ \<Rightarrow> True | Inr resp \<Rightarrow> answer_typed T body resp)"

definition snapshot_typed :: "store_type \<Rightarrow> (bytes \<Rightarrow> PostcardError + StateMachineData) \<Rightarrow> StoredSnapshot \<Rightarrow> bool" where
  "snapshot_typed T dec ss \<longleftrightarrow> (\<forall>d. dec (snap_data ss) = Inr d \<longrightarrow> data_typed T d)"

definition sm_typed :: "store_type \<Rightarrow> (bytes \<Rightarrow> PostcardError + StateMachineData) \<Rightarrow> StateMachine \<Rightarrow> bool" where
  "sm_typed T dec sm \<longleftrightarrow> data_typed T (the_data sm) \<and> pred_option (snapshot_typed T dec) (current_snapshot sm)"

section \<open>Every operation of the state machine keeps the types\<close>

lemma data_typed_get: "data_typed T d \<Longrightarrow> pred_option (st_map T m k) (data_get m k d)"
  by (simp add: data_typed_def pred_option_def)

lemma data_typed_apply:
  assumes "data_typed T d" "request_typed T req"
  shows "data_typed T (snd (apply_request req d))" "response_typed T req (fst (apply_request req d))"
  using assms unfolding data_typed_def
  by (cases req; auto simp: apply_request_store sm_map.get_insert sm_map.get_clear sm_map.insert_old sm_multi.vals_insert
      pred_option_def split: if_splits)+

lemma data_remove_frame [simp]:
  "data_vals m' k' (snd (data_remove m k d)) = data_vals m' k' d"
  "data_get m' k' (snd (data_remove_multi m k v d)) = data_get m' k' d"
  by (simp_all add: data_remove_def data_remove_multi_def data_remove_multi_value_def data_vals_def data_get_def
      split: option.split)

lemma data_typed_remove:
  assumes "data_typed T d"
  shows "data_typed T (snd (data_remove m k d))" "data_typed T (snd (data_remove_multi m k v d))"
  using assms unfolding data_typed_def
  by (auto simp: sm_map.get_remove sm_multi.vals_remove split: if_splits)

lemma data_typed_fold:
  "data_typed T d \<Longrightarrow> \<forall>req \<in> set rs. request_typed T req \<Longrightarrow>
     data_typed T (fold (\<lambda>r d. snd (apply_request r d)) rs d)"
  by (induction rs arbitrary: d) (simp_all add: data_typed_apply)

lemma sm_typed_apply:
  "sm_typed T dec sm \<Longrightarrow> \<forall>req \<in> set (requests es). request_typed T req \<Longrightarrow> sm_typed T dec (snd (sm_apply es sm))"
  by (simp add: sm_typed_def sm_apply_eq apply_loop_data data_typed_fold)

lemma sm_typed_build:
  assumes "codec_ok enc dec" "sm_typed T dec sm"
  shows "sm_typed T dec (snd (build_snapshot enc show_leader sm))"
  using assms
  by (auto simp: sm_typed_def build_snapshot_def Let_def codec_ok_def snapshot_typed_def split: sum.split)

lemma sm_typed_install:
  assumes "snapshot_typed T dec ss" "sm_typed T dec sm"
  shows "sm_typed T dec (snd (install_snapshot dec (snap_meta ss) (snap_data ss) sm))"
  using assms by (auto simp: sm_typed_def install_snapshot_def Let_def snapshot_typed_def split: sum.split)

lemma sm_typed_removals:
  assumes "sm_typed T dec sm"
  shows "sm_typed T dec (snd (sm_remove m k sm))" "sm_typed T dec (snd (remove_multi_value m k v sm))"
  using assms data_typed_remove [of T "the_data sm" m k]
  by (simp_all add: sm_typed_def sm_remove_def remove_multi_value_def data_remove_multi_def case_prod_unfold)

section \<open>What openraft does with the state machine\<close>

text \<open>
  openraft changes the state machine only through its storage interface: it applies log entries, which
  hold requests that were written by a client, builds snapshots, and installs snapshots that were built
  in the cluster.
\<close>

inductive drives ::
  "(StateMachineData \<Rightarrow> PostcardError + bytes) \<Rightarrow> (bytes \<Rightarrow> PostcardError + StateMachineData) \<Rightarrow> (LeaderId \<Rightarrow> string) \<Rightarrow>
     RaftRequest set \<Rightarrow> StoredSnapshot set \<Rightarrow> StateMachine \<Rightarrow> StateMachine \<Rightarrow> bool"
  for enc dec show_leader written snaps where
  drives_nothing: "drives enc dec show_leader written snaps sm sm"
| drives_apply: "set (requests es) \<subseteq> written \<Longrightarrow> drives enc dec show_leader written snaps sm sm' \<Longrightarrow>
     drives enc dec show_leader written snaps sm (snd (sm_apply es sm'))"
| drives_build: "drives enc dec show_leader written snaps sm sm' \<Longrightarrow>
     drives enc dec show_leader written snaps sm (snd (build_snapshot enc show_leader sm'))"
| drives_install: "ss \<in> snaps \<Longrightarrow> drives enc dec show_leader written snaps sm sm' \<Longrightarrow>
     drives enc dec show_leader written snaps sm (snd (install_snapshot dec (snap_meta ss) (snap_data ss) sm'))"

lemma drives_typed:
  assumes "drives enc dec show_leader written snaps sm sm'" "codec_ok enc dec" "sm_typed T dec sm"
    and "\<forall>req \<in> written. request_typed T req" "\<forall>ss \<in> snaps. snapshot_typed T dec ss"
  shows "sm_typed T dec sm'"
  using assms by (induction rule: drives.induct) (auto intro!: sm_typed_apply sm_typed_build sm_typed_install)

text \<open>
  The calls of the API. A write that succeeds returns what the state machine answered when its entry
  was applied.
\<close>

definition raft_within ::
  "(StateMachine \<Rightarrow> StateMachine \<Rightarrow> bool) \<Rightarrow> RaftRequest set \<Rightarrow> ('r, 'q) openraft \<Rightarrow> bool" where
  "raft_within D written r \<longleftrightarrow>
     (\<forall>req \<in> written. \<forall>p res p'. r_client_write r req p = (res, p') \<longrightarrow> D (p_sm p) (p_sm p') \<and>
        (\<forall>resp. res = Inr resp \<longrightarrow>
           (\<exists>sm. D (p_sm p) sm \<and> cw_data resp = fst (apply_request req (the_data sm))))) \<and>
     (\<forall>i n b p. D (p_sm p) (p_sm (snd (r_add_learner r i n b p)))) \<and>
     (\<forall>c b p. D (p_sm p) (p_sm (snd (r_change_membership r c b p)))) \<and>
     (\<forall>rpc p. D (p_sm p) (p_sm (snd (r_append_entries r rpc p)))) \<and>
     (\<forall>rpc p. D (p_sm p) (p_sm (snd (r_vote r rpc p)))) \<and>
     (\<forall>p. D (p_sm p) (p_sm (snd (r_ensure_linearizable r p))))"

lemma raft_withinD:
  assumes "raft_within D written r"
  shows "r_client_write r req p = (res, p') \<Longrightarrow> req \<in> written \<Longrightarrow> D (p_sm p) (p_sm p')"
    and "r_client_write r req p = (Inr resp, p') \<Longrightarrow> req \<in> written \<Longrightarrow>
      \<exists>sm. D (p_sm p) sm \<and> cw_data resp = fst (apply_request req (the_data sm))"
    and "D (p_sm p) (p_sm (snd (r_add_learner r i n b p)))"
    and "D (p_sm p) (p_sm (snd (r_change_membership r c b p)))"
    and "D (p_sm p) (p_sm (snd (r_append_entries r rpc p)))"
    and "D (p_sm p) (p_sm (snd (r_vote r rpc' p)))"
    and "D (p_sm p) (p_sm (snd (r_ensure_linearizable r p)))"
  using assms unfolding raft_within_def by blast+

section \<open>The message handler\<close>

lemma io_map_reply:
  "io_map f (io_map_err g m) p = (reply, p') \<Longrightarrow> p' = snd (m p) \<and> (\<forall>resp. reply = Inr resp \<longrightarrow> (\<exists>x. resp = f x))"
  by (auto simp: io_defs map_sum_eqs split: prod.splits)

text \<open>A read answers from a state machine that openraft may have driven on before.\<close>

lemma read_reply:
  assumes "raft_within D written r" "\<And>sm. D sm sm"
    and "io_bind (srv_ensure_consistency r c) (\<lambda>_. io_get (\<lambda>p. f (p_sm p))) p = (reply, p')"
  shows "D (p_sm p) (p_sm p') \<and> (\<forall>resp. reply = Inr resp \<longrightarrow> resp = f (p_sm p'))"
  using assms(2,3) raft_withinD(7) [OF assms(1), of p]
  by (cases c) (auto simp: srv_ensure_consistency_def io_defs split: prod.splits sum.splits)

lemma write_reply:
  assumes "raft_within D written r" "req \<in> written" "handle_write r req p = (reply, p')"
  shows "D (p_sm p) (p_sm p') \<and> (\<forall>resp. reply = Inr resp \<longrightarrow>
    (\<exists>cw sm. resp = RClientWrite cw \<and> D (p_sm p) sm \<and> cw_data cw = fst (apply_request req (the_data sm))))"
proof -
  obtain res where w: "r_client_write r req p = (res, p')"
    "reply = map_sum id RClientWrite (map_sum RE_RaftWrite id res)"
    using assms(3) by (auto simp: handle_write_def io_defs split: prod.splits)
  show ?thesis
  proof (intro conjI allI impI)
    show "D (p_sm p) (p_sm p')" by (rule raft_withinD(1) [OF assms(1) w(1) assms(2)])
    fix resp assume "reply = Inr resp"
    then obtain cw where "res = Inr cw" "resp = RClientWrite cw" using w(2) by (auto simp: map_sum_eqs)
    with raft_withinD(2) [OF assms(1) _ assms(2)] w(1)
    show "\<exists>cw sm. resp = RClientWrite cw \<and> D (p_sm p) sm \<and> cw_data cw = fst (apply_request req (the_data sm))" by blast
  qed
qed

lemma reply_typedI: "(\<And>resp. reply = Inr resp \<Longrightarrow> answer_typed T body resp) \<Longrightarrow> reply_typed T body reply"
  by (simp add: reply_typed_def split: sum.split)

lemma typed_multi_answer:
  assumes "sm_typed T dec sm" "iterates it"
  shows "pred_option (list_all (st_multi T m k)) (map_option it (get_with_lock_multi m k sm))"
proof (cases "get_with_lock_multi m k sm")
  case (Some s)
  then have "data_vals m k (the_data sm) = s" using get_with_lock_multi_vals [of m k sm] by simp
  with assms Some show ?thesis by (auto simp: sm_typed_def data_typed_def iterates_def list_all_iff)
qed simp

lemma write_typed:
  assumes "raft_within D written r" "\<And>sm sm'. D sm sm' \<Longrightarrow> sm_typed T dec sm \<Longrightarrow> sm_typed T dec sm'"
    and "sm_typed T dec (p_sm p)" "data_write body = Some req" "req \<in> written" "request_typed T req"
    and "handle_body r it body p = (reply, p')"
  shows "sm_typed T dec (p_sm p') \<and> reply_typed T body reply"
proof -
  have h: "handle_write r req p = (reply, p')" using assms(7) unfolding data_write_handled(1) [OF assms(4)] .
  note w = write_reply [OF assms(1,5) h]
  have "answer_typed T body resp" if resp: "reply = Inr resp" for resp
  proof -
    obtain cw sm where cw: "resp = RClientWrite cw" "D (p_sm p) sm" "cw_data cw = fst (apply_request req (the_data sm))"
      using w resp by blast
    have "response_typed T req (cw_data cw)"
      using assms(2) [OF cw(2) assms(3)] data_typed_apply(2) [OF _ assms(6)] cw(3) by (simp add: sm_typed_def)
    with cw(1) assms(4) show ?thesis by (cases body) auto
  qed
  with w assms(2,3) show ?thesis by (blast intro: reply_typedI)
qed

lemma handle_body_typed:
  assumes "raft_within D written r" "\<And>sm. D sm sm" "\<And>sm sm'. D sm sm' \<Longrightarrow> sm_typed T dec sm \<Longrightarrow> sm_typed T dec sm'"
    and "iterates it" "sm_typed T dec (p_sm p)" "\<forall>req \<in> set_option (data_write body). req \<in> written \<and> request_typed T req"
    and "handle_body r it body p = (reply, p')"
  shows "sm_typed T dec (p_sm p') \<and> reply_typed T body reply"
proof (cases "data_write body")
  case (Some req)
  with write_typed [OF assms(1,3,5) Some _ _ assms(7)] assms(6) show ?thesis by simp
next
  case None
  note D = assms(3) [OF _ assms(5)] and raft = raft_withinD(3-6) [OF assms(1)]
  note read = read_reply [OF assms(1,2)]
  show ?thesis
  proof (cases body)
    case (ReqAddLearner i n b)
    then show ?thesis
      using assms(5,7) D [OF raft(1)]
      by (auto simp: reply_typed_def dest!: io_map_reply split: option.splits sum.splits)
  next
    case (ReqChangeMembership c b)
    then show ?thesis using assms(7) D [OF raft(2)] by (auto intro!: reply_typedI dest!: io_map_reply)
  next
    case (ReqAppend rpc)
    then show ?thesis using assms(7) D [OF raft(3)] by (auto intro!: reply_typedI dest!: io_map_reply)
  next
    case (ReqVote rpc)
    then show ?thesis using assms(7) D [OF raft(4)] by (auto intro!: reply_typedI dest!: io_map_reply)
  next
    case (ReqContainsKey m k c)
    then show ?thesis using assms(7) D by (auto intro!: reply_typedI dest!: read)
  next
    case (ReqGet m k c)
    then show ?thesis using assms(7) D
      by (auto intro!: reply_typedI data_typed_get simp: get_with_lock_def sm_typed_def dest!: read)
  next
    case (ReqGetMulti m k c)
    then show ?thesis using assms(7) D by (auto intro!: reply_typedI typed_multi_answer [OF _ assms(4)] dest!: read)
  next
    case (ReqRemove m k)
    then show ?thesis
      using assms(5,7) sm_typed_removals(1) [OF assms(5), of m k] sm_map.remove_old [of m k "the_data (p_sm p)"]
      by (auto simp: reply_typed_def sm_remove_def sm_typed_def data_typed_get split: prod.splits)
  next
    case (ReqRemoveMulti m k v)
    then show ?thesis
      using assms(7) sm_typed_removals(2) [OF assms(5), of m k v]
      by (auto simp: reply_typed_def split: prod.splits)
  next
    case (ReqLen m c)
    then show ?thesis using assms(7) D by (auto intro!: reply_typedI dest!: read)
  qed (use None in simp_all)
qed

lemma handle_message_typed:
  assumes "raft_within D written r" "\<And>sm. D sm sm" "\<And>sm sm'. D sm sm' \<Longrightarrow> sm_typed T dec sm \<Longrightarrow> sm_typed T dec sm'"
    and "iterates it" "sm_typed T dec (p_sm p)"
    and "\<forall>req \<in> set_option (data_write (req_body msg)). req \<in> written \<and> request_typed T req"
    and "handle_message r it msg p = (reply, p')"
  shows "sm_typed T dec (p_sm p') \<and> reply_typed T (req_body msg) reply"
proof (cases "handle_message r it msg p = handle_body r it (req_body msg) p")
  case True
  with assms(7) have "handle_body r it (req_body msg) p = (reply, p')" by simp
  with assms(3) show ?thesis by (rule handle_body_typed [OF assms(1,2) _ assms(4-6)])
next
  case False
  with assms(5,7) show ?thesis
    by (auto simp: handle_message_def reply_typed_def Let_def split: option.splits if_splits)
qed

section \<open>The cluster\<close>

text \<open>
  The nodes of the cluster, the requests that clients have sent for the log so far, and the snapshots
  that nodes have handed out. A node handles a message, with openraft doing whatever it may do
  meanwhile; openraft's own tasks run between messages; and openraft takes the current snapshot of a
  node to send it to another one.
\<close>

record ('r, 'q) store_cluster =
  sc_nodes :: "NodeId \<Rightarrow> ('r, 'q) process"
  sc_written :: "RaftRequest set"
  sc_snapshots :: "StoredSnapshot set"

definition clients_wrote :: "RequestBody \<Rightarrow> ('r, 'q) store_cluster \<Rightarrow> RaftRequest set" where
  "clients_wrote body s = sc_written s \<union> set_option (data_write body)"

datatype store_event = Served Request reply | Unobserved

inductive store_step ::
  "(StateMachineData \<Rightarrow> PostcardError + bytes) \<Rightarrow> (bytes \<Rightarrow> PostcardError + StateMachineData) \<Rightarrow> (LeaderId \<Rightarrow> string) \<Rightarrow>
     (bytes fset \<Rightarrow> bytes list) \<Rightarrow> ('r, 'q) store_cluster \<Rightarrow> store_event \<Rightarrow> ('r, 'q) store_cluster \<Rightarrow> bool"
  for enc dec show_leader it where
  serve: "raft_within (drives enc dec show_leader (clients_wrote (req_body msg) s) (sc_snapshots s))
      (clients_wrote (req_body msg) s) r \<Longrightarrow>
    handle_message r it msg (sc_nodes s i) = (reply, p') \<Longrightarrow>
    store_step enc dec show_leader it s (Served msg reply)
      (s\<lparr>sc_nodes := (sc_nodes s)(i := p'), sc_written := clients_wrote (req_body msg) s\<rparr>)"
| background: "drives enc dec show_leader (sc_written s) (sc_snapshots s) (p_sm (sc_nodes s i)) (p_sm p') \<Longrightarrow>
    store_step enc dec show_leader it s Unobserved (s\<lparr>sc_nodes := (sc_nodes s)(i := p')\<rparr>)"
| hand_out: "get_current_snapshot (p_sm (sc_nodes s i)) = Inr (Some ss) \<Longrightarrow>
    store_step enc dec show_leader it s Unobserved (s\<lparr>sc_snapshots := insert ss (sc_snapshots s)\<rparr>)"

inductive store_run ::
  "(StateMachineData \<Rightarrow> PostcardError + bytes) \<Rightarrow> (bytes \<Rightarrow> PostcardError + StateMachineData) \<Rightarrow> (LeaderId \<Rightarrow> string) \<Rightarrow>
     (bytes fset \<Rightarrow> bytes list) \<Rightarrow> store_event list \<Rightarrow> ('r, 'q) store_cluster \<Rightarrow> bool"
  for enc dec show_leader it where
  fresh: "\<forall>i. p_sm (nodes i) = StateMachine_default \<Longrightarrow>
    store_run enc dec show_leader it [] \<lparr>sc_nodes = nodes, sc_written = {}, sc_snapshots = {}\<rparr>"
| snoc: "store_run enc dec show_leader it evs s \<Longrightarrow> store_step enc dec show_leader it s ev s' \<Longrightarrow>
    store_run enc dec show_leader it (evs @ [ev]) s'"

definition cluster_typed ::
  "store_type \<Rightarrow> (bytes \<Rightarrow> PostcardError + StateMachineData) \<Rightarrow> ('r, 'q) store_cluster \<Rightarrow> bool" where
  "cluster_typed T dec s \<longleftrightarrow> (\<forall>i. sm_typed T dec (p_sm (sc_nodes s i))) \<and> (\<forall>ss \<in> sc_snapshots s. snapshot_typed T dec ss)"

definition event_typed :: "store_type \<Rightarrow> store_event \<Rightarrow> bool" where
  "event_typed T ev = (case ev of Served msg reply \<Rightarrow> reply_typed T (req_body msg) reply | Unobserved \<Rightarrow> True)"

lemma store_step_written: "store_step enc dec show_leader it s ev s' \<Longrightarrow> sc_written s \<subseteq> sc_written s'"
  by (cases rule: store_step.cases) (auto simp: clients_wrote_def)

lemma store_step_typed:
  assumes "store_step enc dec show_leader it s ev s'" "codec_ok enc dec" "iterates it" "cluster_typed T dec s"
    and "\<forall>req \<in> sc_written s'. request_typed T req"
  shows "cluster_typed T dec s' \<and> event_typed T ev"
  using assms(1)
proof cases
  case (serve msg r i reply p')
  let ?D = "drives enc dec show_leader (clients_wrote (req_body msg) s) (sc_snapshots s)"
  have written: "\<forall>req \<in> clients_wrote (req_body msg) s. request_typed T req" using assms(5) serve(2) by simp
  then have "?D sm sm' \<Longrightarrow> sm_typed T dec sm \<Longrightarrow> sm_typed T dec sm'" for sm sm'
    using drives_typed [of enc dec show_leader _ _ sm sm'] assms(2,4) by (simp add: cluster_typed_def)
  from handle_message_typed [OF serve(3) drives_nothing this assms(3) _ _ serve(4)] written assms(4)
  have "sm_typed T dec (p_sm p') \<and> reply_typed T (req_body msg) reply"
    by (auto simp: cluster_typed_def clients_wrote_def)
  with assms(4) serve(1,2) show ?thesis by (simp add: cluster_typed_def event_typed_def)
next
  case (background i p')
  then have "sm_typed T dec (p_sm p')"
    using drives_typed [OF background(3) assms(2)] assms(4,5) by (simp add: cluster_typed_def)
  with assms(4) background(1,2) show ?thesis by (simp add: cluster_typed_def event_typed_def)
next
  case (hand_out i ss)
  then have "current_snapshot (p_sm (sc_nodes s i)) = Some ss" by (simp add: get_current_snapshot_def)
  moreover have "sm_typed T dec (p_sm (sc_nodes s i))" using assms(4) by (simp add: cluster_typed_def)
  ultimately have "snapshot_typed T dec ss" by (simp add: sm_typed_def)
  with assms(4) hand_out(1,2) show ?thesis by (simp add: cluster_typed_def event_typed_def)
qed

lemma store_run_typed:
  assumes "store_run enc dec show_leader it evs s" "codec_ok enc dec" "iterates it"
    and "\<forall>req \<in> sc_written s. request_typed T req"
  shows "cluster_typed T dec s \<and> list_all (event_typed T) evs"
  using assms
proof (induction rule: store_run.induct)
  case (fresh nodes)
  then show ?case
    by (simp add: cluster_typed_def sm_typed_def data_typed_def StateMachine_default_def StateMachineData_default_def
        data_get_def data_vals_def)
next
  case (snoc evs s ev s')
  with store_step_written [OF snoc.hyps(2)] store_step_typed [OF snoc.hyps(2)] show ?case by auto
qed

text \<open>A collection that is used at one type is read at that type on every node.\<close>

lemma data_typed_codec:
  assumes "data_typed T d"
  shows "st_map T m = entries_of cd \<Longrightarrow> well_typed cd m d" "st_multi T m = entries_of cd \<Longrightarrow> multi_typed cd m d"
proof -
  have "data_get m kb d = Some vb \<Longrightarrow> st_map T m kb vb" "vb |\<in>| data_vals m kb d \<Longrightarrow> st_multi T m kb vb" for kb vb
    using assms unfolding data_typed_def by blast+
  then show "st_map T m = entries_of cd \<Longrightarrow> well_typed cd m d" "st_multi T m = entries_of cd \<Longrightarrow> multi_typed cd m d"
    unfolding well_typed_def multi_typed_def entries_of_def by metis+
qed

text \<open>The map whose value a request asks for, and the value in the answer, as the client decodes it.\<close>

fun map_asked :: "RequestBody \<Rightarrow> string option" where
  "map_asked (ReqInsert m _ _) = Some m"
| "map_asked (ReqGet m _ _) = Some m"
| "map_asked (ReqRemove m _) = Some m"
| "map_asked _ = None"

fun returned_value :: "Response \<Rightarrow> bytes option" where
  "returned_value (RClientWrite r) = (case cw_data r of RespInsert old \<Rightarrow> old | _ \<Rightarrow> None)"
| "returned_value (RGet val) = val"
| "returned_value (RRemove old) = old"
| "returned_value _ = None"

definition decodes :: "('k, 'v) codec \<Rightarrow> bytes option \<Rightarrow> bool" where
  "decodes cd val \<longleftrightarrow> (\<exists>v. transpose_result (map_option (\<lambda>val. serialized (dec_val cd val)) val) = Inr v)"

lemma entries_decode:
  assumes "typed_codec cd" "pred_option (entries_of cd k) val"
  shows "decodes cd val"
  using assms typed_codecD(3) [OF assms(1)] by (cases val) (auto simp: decodes_def entries_of_def)

lemma answer_decodes:
  assumes "typed_codec cd" "answer_typed T body resp" "map_asked body = Some m" "st_map T m = entries_of cd"
  shows "decodes cd (returned_value resp)"
proof (cases body)
  case (ReqInsert m' k v)
  then obtain r where "resp = RClientWrite r" "response_typed T (RaftInsert m' k v) (cw_data r)" using assms(2) by auto
  with ReqInsert assms(3,4) show ?thesis
    by (cases "cw_data r") (auto intro: entries_decode [OF assms(1)])
qed (use assms in \<open>auto intro: entries_decode [OF assms(1)]\<close>)

section \<open>Property\<close>


section \<open>Witness\<close>

lemma solo_within:
  assumes "\<And>sm. D sm sm" "\<And>l req sm. req \<in> written \<Longrightarrow> D sm (snd (sm_apply [entry_of l req] sm))"
  shows "raft_within D written solo_raft"
  using assms unfolding raft_within_def by (auto simp: solo_raft_def solo_client_write_def Let_def)

definition byte_types :: store_type where
  "byte_types = \<lparr>st_map = (\<lambda>_. entries_of byte_codec), st_multi = (\<lambda>_. entries_of byte_codec)\<rparr>"

lemma byte_types_entry: "entries_of byte_codec [k] [v]"
  by (auto simp: entries_of_def byte_codec_bytes)


end
