(* ===== verification/Failure_Detector.thy ===== *)
theory Failure_Detector
  imports Client
begin

text \<open>
  The background task that removes unreachable nodes (\<open>cluster.rs\<close>: \<open>detect_failures\<close>) and the
  forced shutdown of a node (\<open>force_shutdown\<close>).

  Readings of the clock are the values \<open>clk 0\<close>, \<open>clk 1\<close>, \<open>...\<close> of a parameter, taken in order; the
  position of the next reading is part of the state. \<open>env t hm\<close> is the heartbeat monitor after what
  other tasks did to it before reading \<open>t\<close>. \<open>listening p\<close> tells whether the shutdown broadcast still
  has a receiver.
\<close>

section \<open>Shutting down\<close>

datatype shutdown_outcome = Broadcast | Exit nat

definition force_shutdown ::
  "('r, 'q) openraft \<Rightarrow> (('r, 'q) process \<Rightarrow> bool) \<Rightarrow> ('r, 'q) process \<Rightarrow> shutdown_outcome \<times> ('r, 'q) process" where
  "force_shutdown r listening p =
     (case r_shutdown r p of
        (Inl _, p1) \<Rightarrow> (Exit 1, p1)
      | (Inr _, p1) \<Rightarrow> (if listening p1 then (Broadcast, p1) else (Exit 1, p1)))"

section \<open>Looking for silent nodes\<close>

definition HEARTBEAT_DEADLINE :: nat where
  "HEARTBEAT_DEADLINE = from_secs 10"

definition QUORUM_DEADLINE :: nat where
  "QUORUM_DEADLINE = from_secs 20"

type_synonym monitor_env = "nat \<Rightarrow> HeartbeatMonitor \<Rightarrow> HeartbeatMonitor"

record scan =
  sc_time :: nat
  sc_monitor :: HeartbeatMonitor
  voters_to_remove :: "NodeId fset"
  learners_to_remove :: "NodeId fset"
  n_voters :: nat

definition scan_node ::
  "(nat \<Rightarrow> instant) \<Rightarrow> monitor_env \<Rightarrow> NodeId \<Rightarrow> NodeId \<times> bool \<Rightarrow> scan \<Rightarrow> scan" where
  "scan_node clk env self = (\<lambda>(node_id, is_voter) sc.
     let sc1 = (if is_voter then sc\<lparr>n_voters := n_voters sc + 1\<rparr> else sc)
     in if node_id = self then sc1
        else case last_seen (clk (sc_time sc1)) node_id (env (sc_time sc1) (sc_monitor sc1)) of
          (seen, hm) \<Rightarrow>
            (let sc2 = sc1\<lparr>sc_time := sc_time sc1 + 2, sc_monitor := hm\<rparr>
             in if elapsed (clk (sc_time sc1 + 1)) seen > HEARTBEAT_DEADLINE
                then if is_voter then sc2\<lparr>voters_to_remove := finsert node_id (voters_to_remove sc2)\<rparr>
                     else sc2\<lparr>learners_to_remove := finsert node_id (learners_to_remove sc2)\<rparr>
                else sc2))"

definition members :: "Membership \<Rightarrow> (NodeId \<times> bool) list" where
  "members m = map (\<lambda>i. (i, True)) (voter_ids m) @ map (\<lambda>i. (i, False)) (learner_ids m)"

definition scan_members ::
  "(nat \<Rightarrow> instant) \<Rightarrow> monitor_env \<Rightarrow> RaftMetrics \<Rightarrow> nat \<Rightarrow> HeartbeatMonitor \<Rightarrow> scan" where
  "scan_members clk env metrics t hm =
     fold (scan_node clk env (metrics_id metrics)) (members (membership (metrics_membership_config metrics)))
       \<lparr>sc_time = t, sc_monitor = hm, voters_to_remove = {||}, learners_to_remove = {||}, n_voters = 0\<rparr>"

section \<open>One round and the loop\<close>

text \<open>Removal is attempted for voters and then for learners; an error is only logged.\<close>

definition remove_members :: "('r, 'q) openraft \<Rightarrow> scan \<Rightarrow> ('r, 'q) process \<Rightarrow> ('r, 'q) process" where
  "remove_members r sc p =
     (let p1 = (if voters_to_remove sc \<noteq> {||}
                then snd (r_change_membership r (RemoveVoters (voters_to_remove sc)) False p) else p)
      in if learners_to_remove sc \<noteq> {||}
         then snd (r_change_membership r (RemoveNodes (learners_to_remove sc)) False p1) else p1)"

datatype round_outcome =
    NextRound (next_time: nat) (last_quorum: instant)
  | Stopped shutdown_outcome
  | Panicked panic

definition detect_round ::
  "('r, 'q) openraft \<Rightarrow> (('r, 'q) process \<Rightarrow> bool) \<Rightarrow> (nat \<Rightarrow> instant) \<Rightarrow> monitor_env \<Rightarrow> nat \<Rightarrow> instant \<Rightarrow>
     ('r, 'q) process \<Rightarrow> round_outcome \<times> ('r, 'q) process" where
  "detect_round r listening clk env t last_quorum_reached p =
     (let metrics = r_metrics r p
      in if metrics_state metrics \<noteq> Leader then (NextRound t last_quorum_reached, p)
         else
           let sc = scan_members clk env metrics t (p_monitor p);
               p1 = p\<lparr>p_monitor := sc_monitor sc\<rparr>
           in if n_voters sc < fcard (voters_to_remove sc)
              then (Panicked (Panic ''attempt to subtract with overflow''), p1)
              else
                let available_voters = n_voters sc - fcard (voters_to_remove sc);
                    required_voters_for_quorum = n_voters sc div 2 + 1;
                    quorum_possible = (required_voters_for_quorum \<le> available_voters);
                    lq = (if quorum_possible then clk (sc_time sc) else last_quorum_reached);
                    p2 = (if quorum_possible then remove_members r sc p1 else p1);
                    t2 = sc_time sc + 1
                in if elapsed (clk t2) lq > QUORUM_DEADLINE
                   then (case force_shutdown r listening p2 of (out, p3) \<Rightarrow> (Stopped out, p3))
                   else (NextRound (t2 + 1) lq, p2))"

text \<open>
  The loop runs a round whenever the metrics change, until their channel is closed. Between two
  rounds other tasks run.
\<close>

datatype ('r, 'q) tick = MetricsChanged "('r, 'q) process \<Rightarrow> ('r, 'q) process" | MetricsClosed

datatype detector_status = Running | Ended round_outcome | Closed

fun detect_loop ::
  "('r, 'q) openraft \<Rightarrow> (('r, 'q) process \<Rightarrow> bool) \<Rightarrow> (nat \<Rightarrow> instant) \<Rightarrow> monitor_env \<Rightarrow> ('r, 'q) tick list \<Rightarrow>
     nat \<Rightarrow> instant \<Rightarrow> ('r, 'q) process \<Rightarrow> detector_status \<times> ('r, 'q) process" where
  "detect_loop r listening clk env [] t lq p = (Running, p)"
| "detect_loop r listening clk env (MetricsClosed # ticks) t lq p = (Closed, p)"
| "detect_loop r listening clk env (MetricsChanged f # ticks) t lq p =
     (case detect_round r listening clk env t lq (f p) of
        (NextRound t' lq', p') \<Rightarrow> detect_loop r listening clk env ticks t' lq' p'
      | (outcome, p') \<Rightarrow> (Ended outcome, p'))"

definition detect_failures ::
  "('r, 'q) openraft \<Rightarrow> (('r, 'q) process \<Rightarrow> bool) \<Rightarrow> (nat \<Rightarrow> instant) \<Rightarrow> monitor_env \<Rightarrow> ('r, 'q) tick list \<Rightarrow>
     ('r, 'q) process \<Rightarrow> detector_status \<times> ('r, 'q) process" where
  "detect_failures r listening clk env ticks p = detect_loop r listening clk env ticks 1 (clk 0) p"

section \<open>What a scan finds\<close>

text \<open>The node was last seen more than the deadline before a reading of the clock.\<close>

definition silent_at :: "(nat \<Rightarrow> instant) \<Rightarrow> nat \<Rightarrow> HeartbeatMonitor \<Rightarrow> NodeId \<Rightarrow> bool" where
  "silent_at clk t hm i \<longleftrightarrow>
     HEARTBEAT_DEADLINE < elapsed (clk (t + 1)) (unwrap_or (clk t) (seen_at hm i))"

lemma scan_node_cases:
  "scan_node clk env self (i, is_voter) sc = sc' \<Longrightarrow>
     n_voters sc' = n_voters sc + of_bool is_voter \<and>
     sc_time sc \<le> sc_time sc' \<and>
     (voters_to_remove sc' = voters_to_remove sc \<and> learners_to_remove sc' = learners_to_remove sc \<or>
      i \<noteq> self \<and> silent_at clk (sc_time sc) (env (sc_time sc) (sc_monitor sc)) i \<and>
      voters_to_remove sc' = (if is_voter then finsert i (voters_to_remove sc) else voters_to_remove sc) \<and>
      learners_to_remove sc' = (if is_voter then learners_to_remove sc else finsert i (learners_to_remove sc)))"
  by (auto simp: scan_node_def Let_def silent_at_def last_seen_def seen_at_def split: prod.splits option.splits if_splits)

lemma fold_scan_counts:
  "n_voters (fold (scan_node clk env self) ms sc) = n_voters sc + length (filter snd ms) \<and>
   sc_time sc \<le> sc_time (fold (scan_node clk env self) ms sc) \<and>
   fcard (voters_to_remove (fold (scan_node clk env self) ms sc)) \<le>
     fcard (voters_to_remove sc) + length (filter snd ms)"
proof (induction ms arbitrary: sc)
  case (Cons m ms)
  obtain i v where m: "m = (i, v)" by fastforce
  let ?sc1 = "scan_node clk env self (i, v) sc"
  note step = scan_node_cases [OF refl, of clk env self i v sc]
  have "fcard (voters_to_remove ?sc1) \<le> fcard (voters_to_remove sc) + of_bool v"
  proof (cases "voters_to_remove ?sc1 = voters_to_remove sc")
    case False
    with step have "voters_to_remove ?sc1 = finsert i (voters_to_remove sc)" "v" by meson+
    then show ?thesis by (simp add: fcard_finsert_if)
  qed simp
  moreover have "n_voters ?sc1 = n_voters sc + of_bool v" "sc_time sc \<le> sc_time ?sc1" using step by blast+
  ultimately show ?case using Cons.IH [of ?sc1] by (cases v) (simp_all add: m)
qed simp

lemma fold_scan_removed:
  assumes "i |\<in>| (if is_voter then voters_to_remove else learners_to_remove) (fold (scan_node clk env self) ms sc)"
  shows "i |\<in>| (if is_voter then voters_to_remove else learners_to_remove) sc \<or>
    (i, is_voter) \<in> set ms \<and> i \<noteq> self \<and> (\<exists>t \<ge> sc_time sc. \<exists>hm. silent_at clk t (env t hm) i)"
  using assms
proof (induction ms arbitrary: sc)
  case (Cons m ms)
  obtain j v where m: "m = (j, v)" by fastforce
  let ?sc1 = "scan_node clk env self (j, v) sc" and ?rem = "if is_voter then voters_to_remove else learners_to_remove"
  note step = scan_node_cases [OF refl, of clk env self j v sc]
  have "i |\<in>| ?rem (fold (scan_node clk env self) ms ?sc1)" using Cons.prems by (simp add: m)
  from Cons.IH [OF this] consider "i |\<in>| ?rem ?sc1"
    | "(i, is_voter) \<in> set ms" "i \<noteq> self" "\<exists>t \<ge> sc_time ?sc1. \<exists>hm. silent_at clk t (env t hm) i" by blast
  then show ?case
  proof cases
    case 1
    with step have "i |\<in>| ?rem sc \<or> i = j \<and> v = is_voter \<and> i \<noteq> self \<and>
        silent_at clk (sc_time sc) (env (sc_time sc) (sc_monitor sc)) i"
      by (auto split: if_splits)
    then show ?thesis unfolding m by auto
  next
    case 2
    with step show ?thesis unfolding m by (meson list.set_intros(2) order_trans)
  qed
qed simp

text \<open>The same for a whole scan.\<close>

lemma members_simps:
  "length (filter snd (members m)) = length (voter_ids m)"
  "(i, v) \<in> set (members m) \<longleftrightarrow> i \<in> set (if v then voter_ids m else learner_ids m)"
  by (auto simp: members_def filter_map o_def)

lemma scan_counts:
  "n_voters (scan_members clk env metrics t hm) = length (voter_ids (membership (metrics_membership_config metrics)))"
  "t \<le> sc_time (scan_members clk env metrics t hm)"
  "fcard (voters_to_remove (scan_members clk env metrics t hm)) \<le> n_voters (scan_members clk env metrics t hm)"
  using fold_scan_counts [of clk env "metrics_id metrics" "members (membership (metrics_membership_config metrics))"
      "\<lparr>sc_time = t, sc_monitor = hm, voters_to_remove = {||}, learners_to_remove = {||}, n_voters = 0\<rparr>"]
  by (simp_all add: scan_members_def members_simps fcard_fempty)

lemma scan_removed:
  "i |\<in>| voters_to_remove (scan_members clk env metrics t hm) \<Longrightarrow>
     i \<in> set (voter_ids (membership (metrics_membership_config metrics))) \<and> i \<noteq> metrics_id metrics \<and>
     (\<exists>t' \<ge> t. \<exists>hm. silent_at clk t' (env t' hm) i)"
  "i |\<in>| learners_to_remove (scan_members clk env metrics t hm) \<Longrightarrow>
     i \<in> set (learner_ids (membership (metrics_membership_config metrics))) \<and> i \<noteq> metrics_id metrics \<and>
     (\<exists>t' \<ge> t. \<exists>hm. silent_at clk t' (env t' hm) i)"
  using fold_scan_removed [of i True clk env "metrics_id metrics" "members (membership (metrics_membership_config metrics))"
      "\<lparr>sc_time = t, sc_monitor = hm, voters_to_remove = {||}, learners_to_remove = {||}, n_voters = 0\<rparr>"]
    fold_scan_removed [of i False clk env "metrics_id metrics" "members (membership (metrics_membership_config metrics))"
      "\<lparr>sc_time = t, sc_monitor = hm, voters_to_remove = {||}, learners_to_remove = {||}, n_voters = 0\<rparr>"]
  by (simp_all add: scan_members_def members_simps)

lemma quorum_iff: "c \<le> (n::nat) \<Longrightarrow> n div 2 + 1 \<le> n - c \<longleftrightarrow> 2 * c < n"
  by linarith

lemma scan_node_found:
  assumes "i |\<in>| (if is_voter then voters_to_remove else learners_to_remove) sc \<or>
    m = (i, is_voter) \<and> i \<noteq> self \<and> silent_at clk (sc_time sc) (env (sc_time sc) (sc_monitor sc)) i"
  shows "i |\<in>| (if is_voter then voters_to_remove else learners_to_remove) (scan_node clk env self m sc)"
  using assms
  by (cases m) (auto simp: scan_node_def Let_def silent_at_def last_seen_def seen_at_def split: option.splits)

lemma fold_scan_found:
  assumes "i |\<in>| (if is_voter then voters_to_remove else learners_to_remove) sc \<or> (i, is_voter) \<in> set ms \<and> i \<noteq> self"
    and "\<And>t hm. silent_at clk t (env t hm) i"
  shows "i |\<in>| (if is_voter then voters_to_remove else learners_to_remove) (fold (scan_node clk env self) ms sc)"
  using assms(1)
proof (induction ms arbitrary: sc)
  case (Cons m ms)
  show ?case
    unfolding fold_Cons o_apply
  proof (rule Cons.IH)
    show "i |\<in>| (if is_voter then voters_to_remove else learners_to_remove) (scan_node clk env self m sc) \<or>
        (i, is_voter) \<in> set ms \<and> i \<noteq> self"
      using Cons.prems scan_node_found [of i is_voter sc m self clk env] assms(2) by auto
  qed
qed simp

lemma scan_found:
  assumes "i \<noteq> metrics_id metrics" "\<And>t hm. silent_at clk t (env t hm) i"
  shows "i \<in> set (voter_ids (membership (metrics_membership_config metrics))) \<Longrightarrow>
      i |\<in>| voters_to_remove (scan_members clk env metrics t hm)"
    and "i \<in> set (learner_ids (membership (metrics_membership_config metrics))) \<Longrightarrow>
      i |\<in>| learners_to_remove (scan_members clk env metrics t hm)"
  using fold_scan_found [of i True _ "members (membership (metrics_membership_config metrics))"
      "metrics_id metrics" clk env] assms
    fold_scan_found [of i False _ "members (membership (metrics_membership_config metrics))"
      "metrics_id metrics" clk env]
  by (simp_all add: scan_members_def members_simps)

text \<open>A round without its panic and with the quorum rule in the form of a majority.\<close>

lemma detect_round_leader:
  assumes "metrics_state (r_metrics r p) = Leader"
    and "sc = scan_members clk env (r_metrics r p) t (p_monitor p)"
    and "majority \<longleftrightarrow> 2 * fcard (voters_to_remove sc) <
      length (voter_ids (membership (metrics_membership_config (r_metrics r p))))"
    and "p2 = (if majority then remove_members r sc (p\<lparr>p_monitor := sc_monitor sc\<rparr>) else p\<lparr>p_monitor := sc_monitor sc\<rparr>)"
    and "lq' = (if majority then clk (sc_time sc) else lq)"
  shows "detect_round r listening clk env t lq p =
    (if lq' + QUORUM_DEADLINE < clk (sc_time sc + 1) then apfst Stopped (force_shutdown r listening p2)
     else (NextRound (sc_time sc + 2) lq', p2))"
proof -
  have n: "n_voters sc = length (voter_ids (membership (metrics_membership_config (r_metrics r p))))"
    "fcard (voters_to_remove sc) \<le> n_voters sc"
    unfolding assms(2) by (rule scan_counts)+
  then have "majority \<longleftrightarrow> n_voters sc div 2 + 1 \<le> n_voters sc - fcard (voters_to_remove sc)"
    by (simp only: assms(3) quorum_iff)
  moreover have "QUORUM_DEADLINE < elapsed (clk u) x \<longleftrightarrow> x + QUORUM_DEADLINE < clk u" for u x
    by (auto simp: elapsed_def)
  ultimately show ?thesis
    using assms(1) n(2) unfolding detect_round_def Let_def assms(2) [symmetric] assms(4,5)
    by (simp add: apfst_def map_prod_def case_prod_beta del: One_nat_def)
qed

section \<open>Properties\<close>


text \<open>
  C20 (removal_needs_majority): a round of the leader never fails on its subtraction. It asks for
  the removal of nodes only if the silent voters are less than half of all voters, and then counts
  the quorum as reached; otherwise it leaves the membership alone and keeps the old time. The node
  shuts down when that time is more than twenty seconds ago.
\<close>

theorem removal_needs_majority:
  assumes "metrics_state (r_metrics r p) = Leader"
  shows "detect_round r listening clk env t lq p =
    (let sc = scan_members clk env (r_metrics r p) t (p_monitor p);
         p1 = p\<lparr>p_monitor := sc_monitor sc\<rparr>;
         majority = (2 * fcard (voters_to_remove sc) <
           length (voter_ids (membership (metrics_membership_config (r_metrics r p)))));
         p2 = (if majority then remove_members r sc p1 else p1);
         lq' = (if majority then clk (sc_time sc) else lq)
     in if lq' + from_secs 20 < clk (sc_time sc + 1) then apfst Stopped (force_shutdown r listening p2)
        else (NextRound (sc_time sc + 2) lq', p2))"
  using detect_round_leader [OF assms refl refl refl refl] by (simp add: Let_def QUORUM_DEADLINE_def)

text \<open>
  A node that leads a cluster of two whose other node never answers: each reading of the clock is
  thirty seconds after the one before.
\<close>

definition pair_metrics :: RaftMetrics where
  "pair_metrics = \<lparr>metrics_id = 7, metrics_state = Leader, metrics_current_leader = Some 7,
     metrics_membership_config = \<lparr>membership_log_id = None,
       membership = \<lparr>joint_config = [{|7, 8|}], voter_ids = [7, 8], learner_ids = [],
         mem_nodes = [(7, Node_default), (8, Node_default)]\<rparr>\<rparr>\<rparr>"

definition pair_raft :: "(unit, unit) openraft" where
  "pair_raft = \<lparr>r_client_write = (\<lambda>_ p. (Inl (Fatal 0), p)), r_add_learner = (\<lambda>_ _ _ p. (Inl (Fatal 0), p)),
     r_change_membership = (\<lambda>_ _ p. (Inl (Fatal 0), p)), r_append_entries = (\<lambda>_ p. (Inl (RaftFatal 0), p)),
     r_vote = (\<lambda>_ p. (Inl (RaftFatal 0), p)), r_ensure_linearizable = (\<lambda>p. (Inl (Fatal 0), p)),
     r_current_leader = (\<lambda>p. (Some 7, p)), r_metrics = (\<lambda>_. pair_metrics),
     r_server_metrics = (\<lambda>_. \<lparr>srv_id = 7, srv_state = Leader\<rparr>), r_shutdown = (\<lambda>p. (Inr (), p))\<rparr>"

definition slow_clock :: "nat \<Rightarrow> instant" where
  "slow_clock n = n * from_secs 30"

definition never_seen :: monitor_env where
  "never_seen t hm = HeartbeatMonitor_default"

lemma pair_silent: "silent_at slow_clock t (never_seen t hm) i"
  by (simp add: silent_at_def slow_clock_def never_seen_def HEARTBEAT_DEADLINE_def elapsed_def from_secs_def)

lemma pair_scan: "8 |\<in>| voters_to_remove (scan_members slow_clock never_seen pair_metrics t hm)"
  by (rule scan_found(1)) (simp_all add: pair_metrics_def pair_silent)

lemma pair_nonempty: "voters_to_remove (scan_members slow_clock never_seen pair_metrics t hm) \<noteq> {||}"
  using pair_scan by fastforce

lemma pair_half: "2 \<le> 2 * fcard (voters_to_remove (scan_members slow_clock never_seen pair_metrics t hm))"
proof -
  have "fcard (voters_to_remove (scan_members slow_clock never_seen pair_metrics t hm)) \<noteq> 0"
    using pair_nonempty by simp
  then show ?thesis by linarith
qed

theorem removal_needs_majority_witness:
  "\<exists>p'. detect_round pair_raft (\<lambda>_. True) slow_clock never_seen 1 0 empty_process = (Stopped Broadcast, p')"
proof -
  let ?sc = "scan_members slow_clock never_seen pair_metrics 1 (p_monitor empty_process)"
  have leader: "metrics_state (r_metrics pair_raft empty_process) = Leader"
    by (simp add: pair_raft_def pair_metrics_def)
  have "length (voter_ids (membership (metrics_membership_config pair_metrics))) = 2"
    by (simp add: pair_metrics_def)
  moreover have "from_secs 20 < slow_clock (sc_time ?sc + 1)"
    by (simp add: slow_clock_def from_secs_def)
  moreover have "r_metrics pair_raft empty_process = pair_metrics" "r_shutdown pair_raft = (\<lambda>p. (Inr (), p))"
    by (simp_all add: pair_raft_def)
  ultimately show ?thesis
    using removal_needs_majority [OF leader, of "\<lambda>_. True" slow_clock never_seen 1 0]
      pair_half [of 1 "p_monitor empty_process"] pair_nonempty [of 1 "p_monitor empty_process"]
    by (simp add: Let_def force_shutdown_def)
qed



end
