(* ===== verification/Membership_Watch.thy ===== *)
theory Membership_Watch
  imports Failure_Detector
begin

text \<open>
  The background task that follows the membership (\<open>cluster.rs\<close>: \<open>watch_membership_changes\<close>) and the
  graceful shutdown of a node (\<open>on_graceful_shutdown\<close>). How a node id and a socket address are
  displayed are the parameters \<open>show_id\<close> and \<open>show_addr\<close>.
\<close>

section \<open>The membership message\<close>

abbreviation newline :: char where
  "newline \<equiv> CHR 0x0A"

text \<open>
  One line per node, separated by commas; the node of an id is unwrapped. \<open>leader\<close> is \<open>None\<close> for the
  list of learners, which does not mark the leader.
\<close>

fun member_lines ::
  "(NodeId \<Rightarrow> string) \<Rightarrow> (SocketAddr \<Rightarrow> string) \<Rightarrow> Membership \<Rightarrow> NodeId option \<Rightarrow> NodeId list \<Rightarrow> panic + string" where
  "member_lines show_id show_addr m leader [] = Inr ''''"
| "member_lines show_id show_addr m leader (i # rest) =
     (case get_node m i of
        None \<Rightarrow> Inl (Panic ''called `Option::unwrap()` on a `None` value'')
      | Some n \<Rightarrow>
          map_sum id (\<lambda>s. newline # ''    '' @ show_id i @ '' '' @ show_addr (node_addr n) @
              (if Some i = leader then '' [LEADER]'' else '''') @ (if rest = [] then '''' else '','') @ s)
            (member_lines show_id show_addr m leader rest))"

definition member_section ::
  "(NodeId \<Rightarrow> string) \<Rightarrow> (SocketAddr \<Rightarrow> string) \<Rightarrow> Membership \<Rightarrow> NodeId option \<Rightarrow> NodeId list \<Rightarrow> panic + string" where
  "member_section show_id show_addr m leader ids =
     (if ids = [] then Inr ('']'' @ [newline])
      else map_sum id (\<lambda>s. s @ newline # '']'') (member_lines show_id show_addr m leader ids))"

definition membership_message ::
  "(NodeId \<Rightarrow> string) \<Rightarrow> (SocketAddr \<Rightarrow> string) \<Rightarrow> Membership \<Rightarrow> NodeId option \<Rightarrow> panic + string" where
  "membership_message show_id show_addr m leader =
     (case member_section show_id show_addr m leader (voter_ids m) of
        Inl e \<Rightarrow> Inl e
      | Inr voters \<Rightarrow>
          map_sum id (\<lambda>learners. ''Membership changed:'' @ newline # ''voters=['' @ voters @ '', learners=['' @ learners)
            (member_section show_id show_addr m None (learner_ids m)))"

section \<open>Following the membership\<close>

record watch =
  w_last_membership :: StoredMembership
  w_last_msg :: string
  w_log :: "string list"

definition watch_round ::
  "(NodeId \<Rightarrow> string) \<Rightarrow> (SocketAddr \<Rightarrow> string) \<Rightarrow> ('r, 'q) openraft \<Rightarrow> watch \<Rightarrow> ('r, 'q) process \<Rightarrow>
     panic + watch \<times> ('r, 'q) process" where
  "watch_round show_id show_addr r w p =
     (let metrics = r_metrics r p; current = metrics_membership_config metrics
      in if current = w_last_membership w then Inr (w, p)
         else case membership_message show_id show_addr (membership current) (metrics_current_leader metrics) of
             Inl e \<Rightarrow> Inl e
           | Inr msg \<Rightarrow>
               (let all_nodes = voter_ids (membership current) @ learner_ids (membership current);
                    w1 = (if msg \<noteq> w_last_msg w then w\<lparr>w_log := w_log w @ [msg], w_last_msg := msg\<rparr> else w)
                in Inr (w1\<lparr>w_last_membership := current\<rparr>,
                        p\<lparr>p_monitor := hm_retain (\<lambda>i. i \<in> set all_nodes) (p_monitor p)\<rparr>)))"

fun watch_loop ::
  "(NodeId \<Rightarrow> string) \<Rightarrow> (SocketAddr \<Rightarrow> string) \<Rightarrow> ('r, 'q) openraft \<Rightarrow> ('r, 'q) tick list \<Rightarrow> watch \<Rightarrow>
     ('r, 'q) process \<Rightarrow> panic + watch \<times> ('r, 'q) process" where
  "watch_loop show_id show_addr r [] w p = Inr (w, p)"
| "watch_loop show_id show_addr r (MetricsClosed # _) w p = Inr (w, p)"
| "watch_loop show_id show_addr r (MetricsChanged f # ticks) w p =
     (case watch_round show_id show_addr r w (f p) of
        Inl e \<Rightarrow> Inl e
      | Inr (w', p') \<Rightarrow> watch_loop show_id show_addr r ticks w' p')"

definition watch_membership_changes ::
  "(NodeId \<Rightarrow> string) \<Rightarrow> (SocketAddr \<Rightarrow> string) \<Rightarrow> ('r, 'q) openraft \<Rightarrow> ('r, 'q) tick list \<Rightarrow>
     ('r, 'q) process \<Rightarrow> panic + watch \<times> ('r, 'q) process" where
  "watch_membership_changes show_id show_addr r ticks p =
     watch_loop show_id show_addr r ticks
       \<lparr>w_last_membership = metrics_membership_config (r_metrics r p), w_last_msg = '''', w_log = []\<rparr> p"

section \<open>Leaving the cluster\<close>

definition leave_cluster ::
  "('r, 'q) quinn \<Rightarrow> postcard \<Rightarrow> ('r, 'q) openraft \<Rightarrow> (('r, 'q) process, Error, unit) aio" where
  "leave_cluster q pc r p =
     (let metrics = r_metrics r p; nodes = {|srv_id (r_server_metrics r p)|}
      in if srv_state (r_server_metrics r p) = Leader
         then Some (case r_change_membership r (RemoveVoters nodes) False p of
             (Inl e, p1) \<Rightarrow> (Inl (Err_Remote (RE_RaftWrite e)), p1)
           | (Inr _, p1) \<Rightarrow> (Inr (), p1))
         else
           let leader = metrics_current_leader metrics
           in case Option.bind leader (get_node (membership (metrics_membership_config metrics))) of
             None \<Rightarrow> Some (Inr (), p)
           | Some node \<Rightarrow>
               aio_bind (aio_lift (Client_new q node leader)) (\<lambda>client p1.
                 aio_bind
                   (if srv_state (r_server_metrics r p1) = Learner
                    then change_membership q pc client (RemoveNodes nodes) False
                    else change_membership q pc client (RemoveVoters nodes) False)
                   (\<lambda>_. aio_result (Inr ())) p1) p)"

definition on_graceful_shutdown ::
  "('r, 'q) quinn \<Rightarrow> postcard \<Rightarrow> ('r, 'q) openraft \<Rightarrow> (('r, 'q) process \<Rightarrow> bool) \<Rightarrow>
     (('r, 'q) process, Error, shutdown_outcome) aio" where
  "on_graceful_shutdown q pc r listening p =
     aio_bind
       (if 1 < length (mem_nodes (membership (metrics_membership_config (r_metrics r p))))
        then leave_cluster q pc r else aio_result (Inr ()))
       (\<lambda>_ p1. case force_shutdown r listening p1 of (out, p2) \<Rightarrow> Some (Inr out, p2)) p"

section \<open>Properties\<close>

lemma member_lines_ok:
  "\<forall>i \<in> set ids. get_node m i \<noteq> None \<Longrightarrow> \<exists>s. member_lines show_id show_addr m leader ids = Inr s"
  by (induction ids) (auto split: option.splits)

lemma membership_message_ok:
  assumes "membership_ok m"
  shows "\<exists>msg. membership_message show_id show_addr m leader = Inr msg"
proof -
  obtain vs ls where "member_lines show_id show_addr m leader (voter_ids m) = Inr vs"
    "member_lines show_id show_addr m None (learner_ids m) = Inr ls"
    using assms member_lines_ok [of _ m] unfolding membership_ok_def by (metis Un_iff)
  then show ?thesis by (simp add: membership_message_def member_section_def)
qed

text \<open>The log ends with the last message, so no message is logged twice in a row.\<close>

definition watch_inv :: "watch \<Rightarrow> bool" where
  "watch_inv w \<longleftrightarrow> distinct_adj ('''' # w_log w) \<and> last ('''' # w_log w) = w_last_msg w"

lemma watch_inv_log:
  "watch_inv w \<Longrightarrow> msg \<noteq> w_last_msg w \<Longrightarrow>
     watch_inv (w\<lparr>w_log := w_log w @ [msg], w_last_msg := msg, w_last_membership := c\<rparr>)"
  using distinct_adj_append_iff [of "'''' # w_log w" "[msg]"] by (auto simp: watch_inv_def)

lemma watch_round_ok:
  assumes "membership_ok (membership (metrics_membership_config (r_metrics r p)))" "watch_inv w"
  shows "\<exists>w' p'. watch_round show_id show_addr r w p = Inr (w', p') \<and> watch_inv w'"
proof -
  obtain msg where "membership_message show_id show_addr (membership (metrics_membership_config (r_metrics r p)))
      (metrics_current_leader (r_metrics r p)) = Inr msg"
    using membership_message_ok [OF assms(1)] by blast
  moreover have "watch_inv (w\<lparr>w_last_membership := c\<rparr>)" for c using assms(2) by (simp add: watch_inv_def)
  ultimately show ?thesis
    using assms(2) watch_inv_log [OF assms(2), of msg] by (simp add: watch_round_def Let_def)
qed

lemma watch_loop_ok:
  assumes "\<And>p. membership_ok (membership (metrics_membership_config (r_metrics r p)))" "watch_inv w"
  shows "\<exists>w' p'. watch_loop show_id show_addr r ticks w p = Inr (w', p') \<and> watch_inv w'"
  using assms(2)
proof (induction ticks arbitrary: w p)
  case (Cons tick ticks)
  show ?case
  proof (cases tick)
    case (MetricsChanged f)
    obtain w' p' where "watch_round show_id show_addr r w (f p) = Inr (w', p')" "watch_inv w'"
      using watch_round_ok [OF assms(1) Cons.prems] by blast
    with Cons.IH [of w' p'] MetricsChanged show ?thesis by simp
  next
    case MetricsClosed
    with Cons.prems show ?thesis by simp
  qed
qed simp





end
