(* ===== verification/Node_Tasks.thy ===== *)
theory Node_Tasks
  imports Request_Server Membership_Watch
begin

text \<open>
  The background tasks of a node as interleaved threads (\<open>Cluster::spawn\<close> in \<open>cluster.rs\<close>): the task that
  waits for the shutdown signal, the membership watch, the failure detector and the main loop, with the
  channels between them. What the rounds of the watch and of the detector do is the subject of
  \<open>Membership_Watch\<close> and \<open>Failure_Detector\<close>; here it is part of \<open>background\<close>, and whether a round of the
  detector finds the quorum lost is left open.
\<close>

section \<open>The tasks and their channels\<close>

text \<open>The oneshot channel of the shutdown signal: \<open>Cluster::shutdown\<close> sends, dropping the node closes it.\<close>

datatype shutdown_signal = NotSent | SignalSent | SenderDropped

text \<open>How far the shutdown task and the failure detector are.\<close>

datatype graceful_pc = AwaitSignal | LeftCluster | GracefulRaftStopped | GracefulEnded

datatype detector_pc = Detecting | QuorumLost | DetectorRaftStopped | DetectorEnded

record ('r, 'q) node_tasks =
  nt_process :: "('r, 'q) process"
  nt_signal :: shutdown_signal
  nt_graceful :: graceful_pc
  nt_detector :: detector_pc
  nt_watching :: bool
  nt_serving :: bool
  nt_broadcast :: bool
  nt_metrics_open :: bool
  nt_exit :: "nat option"

text \<open>
  The watch and the main loop hold a receiver of the shutdown broadcast; the shutdown task and the
  failure detector hold a sender. A receiver also wakes up when no sender is left.
\<close>

definition has_receiver :: "('r, 'q) node_tasks \<Rightarrow> bool" where
  "has_receiver s \<longleftrightarrow> nt_watching s \<or> nt_serving s"

definition has_sender :: "('r, 'q) node_tasks \<Rightarrow> bool" where
  "has_sender s \<longleftrightarrow> nt_graceful s \<noteq> GracefulEnded \<or> nt_detector s \<noteq> DetectorEnded"

definition tasks_started :: "('r, 'q) process \<Rightarrow> ('r, 'q) node_tasks" where
  "tasks_started p = \<lparr>nt_process = p, nt_signal = NotSent, nt_graceful = AwaitSignal, nt_detector = Detecting,
     nt_watching = True, nt_serving = True, nt_broadcast = False, nt_metrics_open = True, nt_exit = None\<rparr>"

text \<open>Leaving the cluster, unless this is its only node: the first half of \<open>on_graceful_shutdown\<close>.\<close>

definition leave_if_member ::
  "('r, 'q) quinn \<Rightarrow> postcard \<Rightarrow> ('r, 'q) openraft \<Rightarrow> (('r, 'q) process, Error, unit) aio" where
  "leave_if_member q pc r p =
     (if 1 < length (mem_nodes (membership (metrics_membership_config (r_metrics r p))))
      then leave_cluster q pc r p else Some (Inr (), p))"

inductive task_step ::
  "('r, 'q) quinn \<Rightarrow> postcard \<Rightarrow> ('r, 'q) openraft \<Rightarrow> (bytes fset \<Rightarrow> bytes list) \<Rightarrow>
     ('r, 'q) node_tasks \<Rightarrow> ('r, 'q) node_tasks \<Rightarrow> bool" for q pc r it where
  send_signal: "nt_exit s = None \<Longrightarrow> nt_signal s = NotSent \<Longrightarrow>
    task_step q pc r it s (s\<lparr>nt_signal := SignalSent\<rparr>)"
| drop_sender: "nt_exit s = None \<Longrightarrow> nt_signal s = NotSent \<Longrightarrow>
    task_step q pc r it s (s\<lparr>nt_signal := SenderDropped\<rparr>)"
| graceful_dropped: "nt_exit s = None \<Longrightarrow> nt_signal s = SenderDropped \<Longrightarrow> nt_graceful s = AwaitSignal \<Longrightarrow>
    task_step q pc r it s (s\<lparr>nt_graceful := GracefulEnded\<rparr>)"
| graceful_leave: "nt_exit s = None \<Longrightarrow> nt_signal s = SignalSent \<Longrightarrow> nt_graceful s = AwaitSignal \<Longrightarrow>
    leave_if_member q pc r (nt_process s) = Some (Inr (), p') \<Longrightarrow>
    task_step q pc r it s (s\<lparr>nt_graceful := LeftCluster, nt_process := p'\<rparr>)"
| graceful_leave_error: "nt_exit s = None \<Longrightarrow> nt_signal s = SignalSent \<Longrightarrow> nt_graceful s = AwaitSignal \<Longrightarrow>
    leave_if_member q pc r (nt_process s) = Some (Inl e, p') \<Longrightarrow>
    task_step q pc r it s (s\<lparr>nt_exit := Some 1, nt_process := p'\<rparr>)"
| graceful_stop_raft: "nt_exit s = None \<Longrightarrow> nt_graceful s = LeftCluster \<Longrightarrow> r_shutdown r (nt_process s) = (Inr u, p') \<Longrightarrow>
    task_step q pc r it s (s\<lparr>nt_graceful := GracefulRaftStopped, nt_metrics_open := False, nt_process := p'\<rparr>)"
| graceful_stop_error: "nt_exit s = None \<Longrightarrow> nt_graceful s = LeftCluster \<Longrightarrow> r_shutdown r (nt_process s) = (Inl e', p') \<Longrightarrow>
    task_step q pc r it s (s\<lparr>nt_exit := Some 1, nt_process := p'\<rparr>)"
| graceful_send: "nt_exit s = None \<Longrightarrow> nt_graceful s = GracefulRaftStopped \<Longrightarrow> has_receiver s \<Longrightarrow>
    task_step q pc r it s (s\<lparr>nt_graceful := GracefulEnded, nt_broadcast := True\<rparr>)"
| graceful_send_error: "nt_exit s = None \<Longrightarrow> nt_graceful s = GracefulRaftStopped \<Longrightarrow> \<not> has_receiver s \<Longrightarrow>
    task_step q pc r it s (s\<lparr>nt_exit := Some 1\<rparr>)"
| detector_quorum_lost: "nt_exit s = None \<Longrightarrow> nt_detector s = Detecting \<Longrightarrow> nt_metrics_open s \<Longrightarrow>
    task_step q pc r it s (s\<lparr>nt_detector := QuorumLost\<rparr>)"
| detector_closed: "nt_exit s = None \<Longrightarrow> nt_detector s = Detecting \<Longrightarrow> \<not> nt_metrics_open s \<Longrightarrow>
    task_step q pc r it s (s\<lparr>nt_detector := DetectorEnded\<rparr>)"
| detector_stop_raft: "nt_exit s = None \<Longrightarrow> nt_detector s = QuorumLost \<Longrightarrow> r_shutdown r (nt_process s) = (Inr u, p') \<Longrightarrow>
    task_step q pc r it s (s\<lparr>nt_detector := DetectorRaftStopped, nt_metrics_open := False, nt_process := p'\<rparr>)"
| detector_stop_error: "nt_exit s = None \<Longrightarrow> nt_detector s = QuorumLost \<Longrightarrow> r_shutdown r (nt_process s) = (Inl e', p') \<Longrightarrow>
    task_step q pc r it s (s\<lparr>nt_exit := Some 1, nt_process := p'\<rparr>)"
| detector_send: "nt_exit s = None \<Longrightarrow> nt_detector s = DetectorRaftStopped \<Longrightarrow> has_receiver s \<Longrightarrow>
    task_step q pc r it s (s\<lparr>nt_detector := DetectorEnded, nt_broadcast := True\<rparr>)"
| detector_send_error: "nt_exit s = None \<Longrightarrow> nt_detector s = DetectorRaftStopped \<Longrightarrow> \<not> has_receiver s \<Longrightarrow>
    task_step q pc r it s (s\<lparr>nt_exit := Some 1\<rparr>)"
| watch_stop: "nt_exit s = None \<Longrightarrow> nt_watching s \<Longrightarrow> nt_broadcast s \<or> \<not> nt_metrics_open s \<or> \<not> has_sender s \<Longrightarrow>
    task_step q pc r it s (s\<lparr>nt_watching := False\<rparr>)"
| main_stop: "nt_exit s = None \<Longrightarrow> nt_serving s \<Longrightarrow> nt_broadcast s \<or> \<not> has_sender s \<Longrightarrow>
    task_step q pc r it s (s\<lparr>nt_serving := False\<rparr>)"
| main_message: "nt_exit s = None \<Longrightarrow> nt_serving s \<Longrightarrow> handle_message r it msg (nt_process s) = (reply, p') \<Longrightarrow>
    task_step q pc r it s (s\<lparr>nt_process := p'\<rparr>)"
| raft_failed: "nt_exit s = None \<Longrightarrow> task_step q pc r it s (s\<lparr>nt_metrics_open := False\<rparr>)"
| background: "nt_exit s = None \<Longrightarrow> task_step q pc r it s (s\<lparr>nt_process := p'\<rparr>)"

text \<open>The shutdown task alone does what \<open>on_graceful_shutdown\<close> does.\<close>

lemma on_graceful_shutdown_split:
  "on_graceful_shutdown q pc r (\<lambda>_. l) p =
     (case leave_if_member q pc r p of
        None \<Rightarrow> None
      | Some (Inl e, p1) \<Rightarrow> Some (Inl e, p1)
      | Some (Inr _, p1) \<Rightarrow>
          (case r_shutdown r p1 of
             (Inl _, p2) \<Rightarrow> Some (Inr (Exit 1), p2)
           | (Inr _, p2) \<Rightarrow> Some (Inr (if l then Broadcast else Exit 1), p2)))"
  by (simp add: on_graceful_shutdown_def leave_if_member_def force_shutdown_def io_defs
      split: option.split prod.split sum.split)

lemma graceful_run:
  assumes "nt_exit s = None" "nt_signal s = SignalSent" "nt_graceful s = AwaitSignal" "has_receiver s"
    and "on_graceful_shutdown q pc r (\<lambda>_. has_receiver s) (nt_process s) = Some (Inr Broadcast, p')"
  shows "(task_step q pc r it)\<^sup>*\<^sup>* s
    (s\<lparr>nt_graceful := GracefulEnded, nt_metrics_open := False, nt_broadcast := True, nt_process := p'\<rparr>)"
proof -
  obtain p1 u where 1: "leave_if_member q pc r (nt_process s) = Some (Inr (), p1)" "r_shutdown r p1 = (Inr u, p')"
    using assms(5) unfolding on_graceful_shutdown_split by (auto split: option.splits prod.splits sum.splits if_splits)
  let ?s1 = "s\<lparr>nt_graceful := LeftCluster, nt_process := p1\<rparr>"
  let ?s2 = "?s1\<lparr>nt_graceful := GracefulRaftStopped, nt_metrics_open := False, nt_process := p'\<rparr>"
  have "task_step q pc r it s ?s1" using assms 1 by (intro task_step.graceful_leave)
  moreover have "task_step q pc r it ?s1 ?s2" using assms 1 by (intro task_step.graceful_stop_raft) simp_all
  moreover have "task_step q pc r it ?s2 (?s2\<lparr>nt_graceful := GracefulEnded, nt_broadcast := True\<rparr>)"
    using assms by (intro task_step.graceful_send) (simp_all add: has_receiver_def)
  moreover have "?s2\<lparr>nt_graceful := GracefulEnded, nt_broadcast := True\<rparr> =
      s\<lparr>nt_graceful := GracefulEnded, nt_metrics_open := False, nt_broadcast := True, nt_process := p'\<rparr>" by simp
  ultimately show ?thesis
    by (simp only: r_into_rtranclp converse_rtranclp_into_rtranclp [of _ s ?s1] converse_rtranclp_into_rtranclp [of _ ?s1 ?s2])
qed

section \<open>Invariants\<close>

definition tasks_inv :: "('r, 'q) node_tasks \<Rightarrow> bool" where
  "tasks_inv s \<longleftrightarrow>
     (has_sender s \<longrightarrow> nt_broadcast s \<or> nt_serving s) \<and>
     (nt_broadcast s \<longrightarrow> \<not> nt_metrics_open s) \<and>
     (nt_graceful s = GracefulRaftStopped \<longrightarrow> \<not> nt_metrics_open s) \<and>
     (nt_detector s = DetectorRaftStopped \<longrightarrow> \<not> nt_metrics_open s) \<and>
     (nt_graceful s = GracefulEnded \<longrightarrow> nt_signal s = SenderDropped \<or> nt_broadcast s) \<and>
     (nt_graceful s \<in> {LeftCluster, GracefulRaftStopped} \<longrightarrow> nt_signal s = SignalSent)"

lemma tasks_inv_start: "tasks_inv (tasks_started p)"
  by (simp add: tasks_inv_def tasks_started_def)

lemma tasks_inv_step: "task_step q pc r it s s' \<Longrightarrow> tasks_inv s \<Longrightarrow> tasks_inv s'"
  by (induction rule: task_step.induct) (auto simp: tasks_inv_def has_sender_def has_receiver_def)

lemma tasks_inv_reachable: "(task_step q pc r it)\<^sup>*\<^sup>* (tasks_started p) s \<Longrightarrow> tasks_inv s"
  by (induction rule: rtranclp_induct) (auto intro: tasks_inv_start tasks_inv_step)

text \<open>What stays true once the broadcast of a graceful shutdown was sent while the detector was idle.\<close>

definition winding_down :: "('r, 'q) node_tasks \<Rightarrow> bool" where
  "winding_down s \<longleftrightarrow> nt_exit s = None \<and> nt_graceful s = GracefulEnded \<and> nt_broadcast s \<and> \<not> nt_metrics_open s \<and>
     nt_detector s \<in> {Detecting, DetectorEnded}"

lemma winding_down_step: "task_step q pc r it s s' \<Longrightarrow> winding_down s \<Longrightarrow> winding_down s'"
  by (induction rule: task_step.induct) (auto simp: winding_down_def)

lemma winding_down_run: "(task_step q pc r it)\<^sup>*\<^sup>* s s' \<Longrightarrow> winding_down s \<Longrightarrow> winding_down s'"
  by (induction rule: rtranclp_induct) (auto intro: winding_down_step)

text \<open>What stays true when the node was shut down by the detector and no receiver is left.\<close>

definition deserted :: "('r, 'q) node_tasks \<Rightarrow> bool" where
  "deserted s \<longleftrightarrow> \<not> has_receiver s \<and> nt_signal s = SignalSent \<and> nt_graceful s \<noteq> GracefulEnded"

lemma deserted_step: "task_step q pc r it s s' \<Longrightarrow> deserted s \<Longrightarrow> deserted s'"
  by (induction rule: task_step.induct) (auto simp: deserted_def has_receiver_def)

lemma deserted_run: "(task_step q pc r it)\<^sup>*\<^sup>* s s' \<Longrightarrow> deserted s \<Longrightarrow> deserted s'"
  by (induction rule: rtranclp_induct) (auto intro: deserted_step)

section \<open>Properties\<close>

text \<open>
  C12 (first_broadcast_received): in every interleaving of the tasks of a node, as long as no shutdown was
  broadcast before, the main loop still listens when the shutdown task or the failure detector is about
  to broadcast: the first broadcast never ends the process with an error.
\<close>

theorem first_broadcast_received:
  assumes "(task_step q pc r it)\<^sup>*\<^sup>* (tasks_started p) s" "\<not> nt_broadcast s"
    and "nt_graceful s = GracefulRaftStopped \<or> nt_detector s = DetectorRaftStopped"
  shows "nt_serving s \<and> has_receiver s"
  using tasks_inv_reachable [OF assms(1)] assms(2,3) by (auto simp: tasks_inv_def has_sender_def has_receiver_def)


text \<open>
  C36 (second_shutdown_exits): a node that the failure detector shut down cannot be shut down by the
  application any more: once the watch and the main loop have ended, a shutdown signal never lets the
  shutdown task finish, whatever the other tasks do, and when leaving the cluster and stopping openraft
  return, the task ends the whole process with exit code 1.
\<close>

theorem second_shutdown_exits:
  assumes "nt_exit s = None" "\<not> has_receiver s" "nt_signal s = SignalSent" "nt_graceful s = AwaitSignal"
  shows "(\<forall>t. (task_step q pc r it)\<^sup>*\<^sup>* s t \<longrightarrow> nt_graceful t \<noteq> GracefulEnded) \<and>
    (leave_if_member q pc r (nt_process s) \<noteq> None \<longrightarrow> (\<exists>t. (task_step q pc r it)\<^sup>*\<^sup>* s t \<and> nt_exit t = Some 1))"
proof (intro conjI allI impI)
  fix t assume "(task_step q pc r it)\<^sup>*\<^sup>* s t"
  moreover have "deserted s" using assms by (simp add: deserted_def)
  ultimately have "deserted t" by (rule deserted_run)
  then show "nt_graceful t \<noteq> GracefulEnded" by (simp add: deserted_def)
next
  assume "leave_if_member q pc r (nt_process s) \<noteq> None"
  then obtain res p1 where leave: "leave_if_member q pc r (nt_process s) = Some (res, p1)" by auto
  show "\<exists>t. (task_step q pc r it)\<^sup>*\<^sup>* s t \<and> nt_exit t = Some 1"
  proof (cases res)
    case (Inl e)
    with leave assms have "task_step q pc r it s (s\<lparr>nt_exit := Some 1, nt_process := p1\<rparr>)"
      by (intro task_step.graceful_leave_error) simp_all
    then show ?thesis by (intro exI [of _ "s\<lparr>nt_exit := Some 1, nt_process := p1\<rparr>"]) auto
  next
    case (Inr u)
    let ?s1 = "s\<lparr>nt_graceful := LeftCluster, nt_process := p1\<rparr>"
    have 1: "task_step q pc r it s ?s1" using leave Inr assms by (intro task_step.graceful_leave) simp_all
    obtain res2 p2 where stop: "r_shutdown r p1 = (res2, p2)" by fastforce
    show ?thesis
    proof (cases res2)
      case (Inl e)
      with stop assms have "task_step q pc r it ?s1 (?s1\<lparr>nt_exit := Some 1, nt_process := p2\<rparr>)"
        by (intro task_step.graceful_stop_error) simp_all
      with 1 show ?thesis
        by (intro exI [of _ "?s1\<lparr>nt_exit := Some 1, nt_process := p2\<rparr>"]) (auto intro: converse_rtranclp_into_rtranclp)
    next
      case (Inr v)
      let ?s2 = "?s1\<lparr>nt_graceful := GracefulRaftStopped, nt_metrics_open := False, nt_process := p2\<rparr>"
      have 2: "task_step q pc r it ?s1 ?s2" using stop Inr assms by (intro task_step.graceful_stop_raft) simp_all
      have "task_step q pc r it ?s2 (?s2\<lparr>nt_exit := Some 1\<rparr>)"
        using assms by (intro task_step.graceful_send_error) (simp_all add: has_receiver_def)
      with 1 2 show ?thesis
        by (intro exI [of _ "?s2\<lparr>nt_exit := Some 1\<rparr>"]) (auto intro: converse_rtranclp_into_rtranclp)
    qed
  qed
qed

section \<open>A node on its own\<close>

text \<open>The runs of the witnesses: a graceful shutdown, and one that the failure detector forces.\<close>

abbreviation solo_step :: "(u64, bytes) node_tasks \<Rightarrow> (u64, bytes) node_tasks \<Rightarrow> bool" where
  "solo_step \<equiv> task_step (loopback_quinn (\<lambda>b p. (b, p))) (listed_postcard []) solo_raft no_order"

abbreviation solo_tasks :: "(u64, bytes) node_tasks" where
  "solo_tasks \<equiv> tasks_started loop_process"

lemma solo_tasks_simps:
  "leave_if_member q pc solo_raft p = Some (Inr (), p)" "r_shutdown solo_raft p = (Inr (), p)"
  by (simp_all add: leave_if_member_def solo_raft_def solo_metrics_def)

definition stopping_node :: "(u64, bytes) node_tasks" where
  "stopping_node = solo_tasks\<lparr>nt_signal := SignalSent, nt_graceful := GracefulRaftStopped, nt_metrics_open := False\<rparr>"

lemma stopping_node_reached: "solo_step\<^sup>*\<^sup>* solo_tasks stopping_node"
proof -
  let ?s1 = "solo_tasks\<lparr>nt_signal := SignalSent\<rparr>"
  let ?s2 = "?s1\<lparr>nt_graceful := LeftCluster, nt_process := loop_process\<rparr>"
  let ?s3 = "?s2\<lparr>nt_graceful := GracefulRaftStopped, nt_metrics_open := False, nt_process := loop_process\<rparr>"
  have "solo_step\<^sup>*\<^sup>* solo_tasks ?s1" by (rule r_into_rtranclp, rule task_step.send_signal) (simp_all add: tasks_started_def)
  also have "solo_step\<^sup>*\<^sup>* ?s1 ?s2"
    by (rule r_into_rtranclp, rule task_step.graceful_leave) (simp_all add: tasks_started_def solo_tasks_simps)
  also have "solo_step\<^sup>*\<^sup>* ?s2 ?s3" by (rule r_into_rtranclp, rule task_step.graceful_stop_raft) (simp_all add: tasks_started_def solo_tasks_simps)
  also have "?s3 = stopping_node" by (simp add: stopping_node_def tasks_started_def)
  finally show ?thesis .
qed

theorem first_broadcast_received_witness: "nt_serving stopping_node \<and> has_receiver stopping_node"
  by (rule first_broadcast_received [OF stopping_node_reached]) (simp_all add: stopping_node_def tasks_started_def)

definition stopped_node :: "(u64, bytes) node_tasks" where
  "stopped_node = stopping_node\<lparr>nt_graceful := GracefulEnded, nt_broadcast := True\<rparr>"

lemma stopped_node_reached: "solo_step\<^sup>*\<^sup>* solo_tasks stopped_node"
proof -
  have "solo_step stopping_node stopped_node"
    unfolding stopped_node_def
    by (rule task_step.graceful_send) (simp_all add: stopping_node_def tasks_started_def has_receiver_def)
  with stopping_node_reached show ?thesis by (rule rtranclp.rtrancl_into_rtrancl)
qed


definition forced_node :: "(u64, bytes) node_tasks" where
  "forced_node = solo_tasks\<lparr>nt_detector := DetectorEnded, nt_metrics_open := False, nt_broadcast := True,
     nt_watching := False, nt_serving := False, nt_signal := SignalSent\<rparr>"

lemma forced_node_reached: "solo_step\<^sup>*\<^sup>* solo_tasks forced_node"
proof -
  let ?s1 = "solo_tasks\<lparr>nt_detector := QuorumLost\<rparr>"
  let ?s2 = "?s1\<lparr>nt_detector := DetectorRaftStopped, nt_metrics_open := False, nt_process := loop_process\<rparr>"
  let ?s3 = "?s2\<lparr>nt_detector := DetectorEnded, nt_broadcast := True\<rparr>"
  let ?s4 = "?s3\<lparr>nt_watching := False\<rparr>"
  let ?s5 = "?s4\<lparr>nt_serving := False\<rparr>"
  have "solo_step\<^sup>*\<^sup>* solo_tasks ?s1" by (rule r_into_rtranclp, rule task_step.detector_quorum_lost) (simp_all add: tasks_started_def)
  also have "solo_step\<^sup>*\<^sup>* ?s1 ?s2" by (rule r_into_rtranclp, rule task_step.detector_stop_raft) (simp_all add: tasks_started_def solo_tasks_simps)
  also have "solo_step\<^sup>*\<^sup>* ?s2 ?s3" by (rule r_into_rtranclp, rule task_step.detector_send) (simp_all add: tasks_started_def has_receiver_def)
  also have "solo_step\<^sup>*\<^sup>* ?s3 ?s4" by (rule r_into_rtranclp, rule task_step.watch_stop) (simp_all add: tasks_started_def)
  also have "solo_step\<^sup>*\<^sup>* ?s4 ?s5" by (rule r_into_rtranclp, rule task_step.main_stop) (simp_all add: tasks_started_def)
  also have "solo_step\<^sup>*\<^sup>* ?s5 (?s5\<lparr>nt_signal := SignalSent\<rparr>)"
    by (rule r_into_rtranclp, rule task_step.send_signal) (simp_all add: tasks_started_def)
  also have "?s5\<lparr>nt_signal := SignalSent\<rparr> = forced_node" by (simp add: forced_node_def tasks_started_def)
  finally show ?thesis .
qed

theorem second_shutdown_exits_witness:
  "solo_step\<^sup>*\<^sup>* solo_tasks forced_node \<and> (\<exists>t. solo_step\<^sup>*\<^sup>* forced_node t \<and> nt_exit t = Some 1)"
proof -
  have "nt_exit forced_node = None" "\<not> has_receiver forced_node" "nt_signal forced_node = SignalSent"
    "nt_graceful forced_node = AwaitSignal"
    by (simp_all add: forced_node_def tasks_started_def has_receiver_def)
  from second_shutdown_exits [OF this, of "loopback_quinn (\<lambda>b p. (b, p))" "listed_postcard []" solo_raft no_order]
    forced_node_reached show ?thesis by (simp add: solo_tasks_simps)
qed

end
