(* ===== verification/Cluster_View.thy ===== *)
theory Cluster_View
  imports DMultiMap
begin

text \<open>
  Several nodes of one cluster. The nodes share a world; a node sees the world as its own process with
  everything else outside of it. While the cluster has a stable leader, a collection is one object for
  the whole cluster: it does not matter on which node an operation is called.
\<close>

section \<open>Nodes that share a world\<close>

text \<open>How a node sees the world, and how the world changes with the node.\<close>

record ('w, 'r, 'q) node_view =
  nv_get :: "'w \<Rightarrow> ('r, 'q) process"
  nv_put :: "('r, 'q) process \<Rightarrow> 'w \<Rightarrow> 'w"

record ('w, 'r, 'q, 's, 't) cluster_node =
  cn_view :: "('w, 'r, 'q) node_view"
  cn_cluster :: "('r, 'q) ClusterRef"
  cn_leader :: "('r, 'q, 's, 't) leader_node"
  cn_quinn :: "('r, 'q) quinn"

definition on_node :: "('w, 'r, 'q) node_view \<Rightarrow> (('r, 'q) process, 'e, 'a) aio \<Rightarrow> ('w, 'e, 'a) aio" where
  "on_node v m w = map_option (apsnd (\<lambda>p. nv_put v p w)) (m (nv_get v w))"

definition cluster_data :: "('w, 'r, 'q, 's, 't) cluster_node \<Rightarrow> 'w \<Rightarrow> StateMachineData" where
  "cluster_data n w = leader_data (cn_leader n) (nv_get (cn_view n) w)"

text \<open>The nodes of a cluster see the same leader.\<close>

definition one_cluster :: "('w, 'r, 'q, 's, 't) cluster_node set \<Rightarrow> bool" where
  "one_cluster ns \<longleftrightarrow>
     (\<forall>n \<in> ns. \<forall>p w. nv_get (cn_view n) (nv_put (cn_view n) p w) = p) \<and>
     (\<forall>n \<in> ns. \<forall>n' \<in> ns. \<forall>w. cluster_data n w = cluster_data n' w)"

definition node_reaches_leader ::
  "('w, 'r, 'q, 's, 't) cluster_node \<Rightarrow> (bytes fset \<Rightarrow> bytes list) \<Rightarrow> postcard \<Rightarrow> bool" where
  "node_reaches_leader n it pc \<longleftrightarrow> reaches_leader (cn_cluster n) (cn_leader n) it (cn_quinn n) pc"

definition cluster_exec ::
  "postcard \<Rightarrow> ('k, 'v) codec \<Rightarrow> string \<Rightarrow> ('w, 'r, 'q, 's, 't) cluster_node \<times> ('k, 'v) dmap_op \<Rightarrow> ('w, Error, 'v dmap_out) aio" where
  "cluster_exec pc cd name = (\<lambda>(n, op).
     on_node (cn_view n) (dmap_exec (cn_quinn n) pc cd (DMap_new name (cn_cluster n)) op))"

definition cluster_multi_exec ::
  "postcard \<Rightarrow> ('k, 'v) codec \<Rightarrow> (bytes fset \<Rightarrow> bytes list) \<Rightarrow> string \<Rightarrow>
     ('w, 'r, 'q, 's, 't) cluster_node \<times> ('k, 'v) multi_op \<Rightarrow> ('w, Error, 'v list multi_out) aio" where
  "cluster_multi_exec pc cd it name = (\<lambda>(n, op).
     on_node (cn_view n) (multi_exec (cn_quinn n) pc cd it (DMultiMap_new name (cn_cluster n)) op))"

lemma one_cluster_data:
  assumes "one_cluster ns" "n \<in> ns" "n0 \<in> ns"
  shows "cluster_data n0 w = leader_data (cn_leader n) (nv_get (cn_view n) w)"
  using assms unfolding one_cluster_def cluster_data_def by blast

lemma on_node_data:
  assumes "one_cluster ns" "n \<in> ns" "n0 \<in> ns" "m (nv_get (cn_view n) w) = Some (r, p')"
  shows "\<exists>w'. on_node (cn_view n) m w = Some (r, w') \<and> cluster_data n0 w' = leader_data (cn_leader n) p'"
proof -
  have "nv_get (cn_view n) (nv_put (cn_view n) p' w) = p'" using assms(1,2) by (simp add: one_cluster_def)
  with one_cluster_data [OF assms(1-3), of "nv_put (cn_view n) p' w"] assms(4) show ?thesis by (simp add: on_node_def)
qed

lemma cluster_exec_refines:
  assumes "one_cluster ns" "n \<in> ns" "n0 \<in> ns" "node_reaches_leader n it pc" "typed_codec cd"
    "well_typed cd name (cluster_data n0 w)" "fits (ld_id (cn_leader n)) pc (dmap_request cd name op)"
  shows "\<exists>out w'. cluster_exec pc cd name (n, op) w = Some (Inr out, w') \<and> well_typed cd name (cluster_data n0 w') \<and>
    dict_step op (dict_view cd name (cluster_data n0 w)) = (out, dict_view cd name (cluster_data n0 w'))"
proof -
  let ?dm = "DMap_new name (cn_cluster n)" and ?p = "nv_get (cn_view n) w" and ?ld = "cn_leader n"
  have dm: "dm_name ?dm = name" "dm_cluster ?dm = cn_cluster n" by (simp_all add: DMap_new_def)
  have data: "cluster_data n0 w = leader_data ?ld ?p"
    by (rule one_cluster_data [OF assms(1-3)])
  from exec_refines [of ?dm ?ld it "cn_quinn n" pc cd ?p op] assms(4-7) obtain out p' where p':
    "dmap_exec (cn_quinn n) pc cd ?dm op ?p = Some (Inr out, p')" "well_typed cd name (leader_data ?ld p')"
    "dict_step op (dict_view cd name (leader_data ?ld ?p)) = (out, dict_view cd name (leader_data ?ld p'))"
    unfolding dm data node_reaches_leader_def by blast
  then obtain w' where "cluster_exec pc cd name (n, op) w = Some (Inr out, w')" "cluster_data n0 w' = leader_data ?ld p'"
    using on_node_data [OF assms(1-3), of "dmap_exec (cn_quinn n) pc cd ?dm op" w] by (auto simp: cluster_exec_def)
  with p' show ?thesis unfolding data by auto
qed

lemma cluster_multi_exec_refines:
  assumes "one_cluster ns" "n \<in> ns" "n0 \<in> ns" "node_reaches_leader n it pc" "typed_codec cd" "iterates it" "iterates it'"
    "multi_typed cd name (cluster_data n0 w)" "fits (ld_id (cn_leader n)) pc (multi_request cd name op)"
  shows "\<exists>out w'. cluster_multi_exec pc cd it' name (n, op) w = Some (Inr out, w') \<and> multi_typed cd name (cluster_data n0 w') \<and>
    no_repeats out \<and>
    multi_step op (multi_view cd name (cluster_data n0 w)) = (map_multi_out set out, multi_view cd name (cluster_data n0 w'))"
proof -
  let ?dm = "DMultiMap_new name (cn_cluster n)" and ?p = "nv_get (cn_view n) w" and ?ld = "cn_leader n"
  have dm: "dmm_name ?dm = name" "dmm_cluster ?dm = cn_cluster n" by (simp_all add: DMultiMap_new_def)
  have data: "cluster_data n0 w = leader_data ?ld ?p"
    by (rule one_cluster_data [OF assms(1-3)])
  from multi_exec_refines [of ?dm ?ld it "cn_quinn n" pc cd it' ?p op] assms(4-9) obtain out p' where p':
    "multi_exec (cn_quinn n) pc cd it' ?dm op ?p = Some (Inr out, p')" "multi_typed cd name (leader_data ?ld p')"
    "no_repeats out"
    "multi_step op (multi_view cd name (leader_data ?ld ?p)) = (map_multi_out set out, multi_view cd name (leader_data ?ld p'))"
    unfolding dm data node_reaches_leader_def by blast
  then obtain w' where "cluster_multi_exec pc cd it' name (n, op) w = Some (Inr out, w')"
    "cluster_data n0 w' = leader_data ?ld p'"
    using on_node_data [OF assms(1-3), of "multi_exec (cn_quinn n) pc cd it' ?dm op" w] by (auto simp: cluster_multi_exec_def)
  with p' show ?thesis unfolding data by auto
qed

lemma cluster_run:
  assumes "one_cluster ns" "n0 \<in> ns" "\<forall>n \<in> ns. node_reaches_leader n it pc" "typed_codec cd"
    and "well_typed cd name (cluster_data n0 w)"
    and "\<forall>(n, op) \<in> set ops. n \<in> ns \<and> fits (ld_id (cn_leader n)) pc (dmap_request cd name op)"
  shows "\<exists>outs w'. run_ok (cluster_exec pc cd name) ops w = Some (outs, w') \<and>
    run_steps dict_step (map snd ops) (dict_view cd name (cluster_data n0 w)) =
      (outs, dict_view cd name (cluster_data n0 w'))"
proof -
  have "\<forall>x \<in> set ops. \<forall>w. well_typed cd name (cluster_data n0 w) \<longrightarrow>
      (\<exists>out w'. cluster_exec pc cd name x w = Some (Inr out, w') \<and> well_typed cd name (cluster_data n0 w') \<and> True \<and>
        (dict_step \<circ> snd) x (dict_view cd name (cluster_data n0 w)) = (out, dict_view cd name (cluster_data n0 w')))"
    using cluster_exec_refines [OF assms(1) _ assms(2) _ assms(4)] assms(3,6) by fastforce
  from run_ok_refines [where obs = "\<lambda>x. x", OF assms(5) this] show ?thesis
    unfolding list.map_ident run_steps_map by blast
qed

lemma cluster_multi_run:
  assumes "one_cluster ns" "n0 \<in> ns" "\<forall>n \<in> ns. node_reaches_leader n it pc" "typed_codec cd" "iterates it" "iterates it'"
    and "multi_typed cd name (cluster_data n0 w)"
    and "\<forall>(n, op) \<in> set ops. n \<in> ns \<and> fits (ld_id (cn_leader n)) pc (multi_request cd name op)"
  shows "\<exists>outs w'. run_ok (cluster_multi_exec pc cd it' name) ops w = Some (outs, w') \<and> list_all no_repeats outs \<and>
    run_steps multi_step (map snd ops) (multi_view cd name (cluster_data n0 w)) =
      (map (map_multi_out set) outs, multi_view cd name (cluster_data n0 w'))"
proof -
  have "\<forall>x \<in> set ops. \<forall>w. multi_typed cd name (cluster_data n0 w) \<longrightarrow>
      (\<exists>out w'. cluster_multi_exec pc cd it' name x w = Some (Inr out, w') \<and> multi_typed cd name (cluster_data n0 w') \<and>
        no_repeats out \<and> (multi_step \<circ> snd) x (multi_view cd name (cluster_data n0 w)) =
          (map_multi_out set out, multi_view cd name (cluster_data n0 w')))"
    using cluster_multi_exec_refines [OF assms(1) _ assms(2) _ assms(4-6)] assms(3,8) by fastforce
  from run_ok_refines [OF assms(7) this] show ?thesis unfolding run_steps_map by blast
qed

section \<open>Properties\<close>



section \<open>A cluster of two nodes\<close>

text \<open>
  A world with two processes and the bytes on the wire between them. The process outside of each node
  is the other one. The first node leads; the second one sends its requests to it.
\<close>

type_synonym lone_process = "(u64, unit) process"
type_synonym paired_process = "(u64, lone_process \<times> bytes) process"

record pair_world =
  pw_first :: lone_process
  pw_second :: lone_process
  pw_wire :: bytes

definition with_quic :: "'q \<Rightarrow> ('r, 'p) process \<Rightarrow> ('r, 'q) process" where
  "with_quic x p = \<lparr>raft_core = raft_core p, p_sm = p_sm p, p_monitor = p_monitor p, connections = connections p,
     watchers = watchers p, p_tasks = p_tasks p, quic = x\<rparr>"

definition first_view :: "(pair_world, u64, lone_process \<times> bytes) node_view" where
  "first_view = \<lparr>nv_get = (\<lambda>w. with_quic (pw_second w, pw_wire w) (pw_first w)),
     nv_put = (\<lambda>p w. \<lparr>pw_first = with_quic () p, pw_second = fst (quic p), pw_wire = snd (quic p)\<rparr>)\<rparr>"

definition second_view :: "(pair_world, u64, lone_process \<times> bytes) node_view" where
  "second_view = \<lparr>nv_get = (\<lambda>w. with_quic (pw_first w, pw_wire w) (pw_second w)),
     nv_put = (\<lambda>p w. \<lparr>pw_first = fst (quic p), pw_second = with_quic () p, pw_wire = snd (quic p)\<rparr>)\<rparr>"

text \<open>A transport that keeps the last bytes written and serves them on the given process.\<close>

definition paired_quinn ::
  "(bytes \<Rightarrow> lone_process \<Rightarrow> bytes \<times> lone_process) \<Rightarrow> (paired_process \<Rightarrow> lone_process) \<Rightarrow>
     (lone_process \<Rightarrow> paired_process \<Rightarrow> paired_process) \<Rightarrow> (u64, lone_process \<times> bytes) quinn" where
  "paired_quinn serve at upd = \<lparr>q_connect = (\<lambda>_ _ p. (Inr 0, p)), q_connecting = (\<lambda>_ p. (Inr 0, p)),
     q_close_reason = (\<lambda>_ _. None), q_open_bi = (\<lambda>_ p. (Inr 0, p)),
     q_write_all = (\<lambda>_ b p. (Inr (), p\<lparr>quic := (fst (quic p), b)\<rparr>)), q_finish = (\<lambda>_ p. p),
     q_read_to_end = (\<lambda>_ _ p. case serve (snd (quic p)) (at p) of (out, n) \<Rightarrow> (Inr out, upd n p)), q_close = (\<lambda>_ p. p)\<rparr>"

definition first_node :: "postcard \<Rightarrow> (pair_world, u64, lone_process \<times> bytes, u64, unit) cluster_node" where
  "first_node pc = \<lparr>cn_view = first_view,
     cn_cluster = \<lparr>cr_node_id = 7, cr_raft = solo_raft, cr_local_addr = example_addr, cr_public_addr = example_addr\<rparr>,
     cn_leader = \<lparr>ld_id = 7, ld_raft = solo_raft, ld_process = with_quic ()\<rparr>,
     cn_quinn = paired_quinn (serve_bytes solo_raft sorted_list_of_fset pc) (with_quic ()) (\<lambda>n p. with_quic (quic p) n)\<rparr>"

definition second_addr :: SocketAddr where
  "second_addr = SocketAddr_new (V4 127 0 0 1) 35001"

definition second_node :: "postcard \<Rightarrow> (pair_world, u64, lone_process \<times> bytes, u64, unit) cluster_node" where
  "second_node pc = \<lparr>cn_view = second_view,
     cn_cluster = \<lparr>cr_node_id = 8, cr_raft = solo_raft, cr_local_addr = second_addr, cr_public_addr = second_addr\<rparr>,
     cn_leader = \<lparr>ld_id = 7, ld_raft = solo_raft, ld_process = (\<lambda>p. fst (quic p))\<rparr>,
     cn_quinn = paired_quinn (serve_bytes solo_raft sorted_list_of_fset pc) (\<lambda>p. fst (quic p))
       (\<lambda>n p. p\<lparr>quic := (n, snd (quic p))\<rparr>)\<rparr>"

lemma with_quic_sel [simp]: "p_sm (with_quic x p) = p_sm p" "quic (with_quic x p) = x"
  by (simp_all add: with_quic_def)

lemma with_quic_twice [simp]: "with_quic x (with_quic y p) = with_quic x p"
  by (simp add: with_quic_def)

lemma with_quic_same [simp]: "with_quic (quic p) p = p"
  by (simp add: with_quic_def)

lemma with_quic_unit [simp]: "with_quic () p = p"
  by (simp add: with_quic_def)

lemma with_quic_update [simp]: "with_quic x (p\<lparr>quic := y\<rparr>) = with_quic x p"
  by (simp add: with_quic_def)

lemma cache_insert_sel [simp]: "p_sm (cache_insert a c p) = p_sm p" "quic (cache_insert a c p) = quic p"
  by (simp_all add: cache_insert_def)

lemma paired_delivers:
  assumes "\<And>p b. p_sm (at (p\<lparr>quic := (fst (quic p), b)\<rparr>)) = p_sm (at p)" "\<And>n p. at (upd n p) = n"
  shows "delivers (paired_quinn serve at upd) c at serve"
proof -
  let ?q = "paired_quinn serve at upd"
  have "\<exists>p2 n p3. q_write_all ?q 0 b p = (Inr (), p2) \<and> p_sm n = p_sm (at p) \<and>
      q_read_to_end ?q usize_max 0 (q_finish ?q 0 p2) = (Inr (fst (serve b n)), p3) \<and> at p3 = snd (serve b n)" for b p
    by (intro exI [of _ "p\<lparr>quic := (fst (quic p), b)\<rparr>"] exI [of _ "at (p\<lparr>quic := (fst (quic p), b)\<rparr>)"]
        exI [of _ "upd (snd (serve b (at (p\<lparr>quic := (fst (quic p), b)\<rparr>)))) (p\<lparr>quic := (fst (quic p), b)\<rparr>)"])
      (simp add: paired_quinn_def assms split: prod.split)
  moreover have "q_open_bi ?q c p = (Inr 0, p)" for p by (simp add: paired_quinn_def)
  ultimately show ?thesis unfolding delivers_def by blast
qed

lemma pair_one_cluster: "one_cluster {first_node pc, second_node pc}"
  by (auto simp: one_cluster_def cluster_data_def first_node_def second_node_def first_view_def second_view_def)

lemma solo_get_leader: "cr_raft cr = solo_raft \<Longrightarrow> get_leader cr p = Some (7, solo_node)"
  by (simp add: get_leader_def solo_raft_def solo_metrics_def get_node_def)

lemma first_reaches:
  assumes "reply_codec_ok pc"
  shows "node_reaches_leader (first_node pc) sorted_list_of_fset pc"
proof -
  have "delivers (cn_quinn (first_node pc)) c (with_quic ()) (serve_bytes solo_raft sorted_list_of_fset pc)" for pc c
    unfolding first_node_def by (simp add: paired_delivers)
  moreover have "connects (cn_quinn (first_node pc)) (with_quic () :: _ \<Rightarrow> lone_process)" for pc
    by (simp add: connects_def first_node_def paired_quinn_def)
  moreover have "knows_if_leading (cn_cluster (first_node pc)) (cn_leader (first_node pc))" for pc
    by (simp add: knows_if_leading_def first_node_def) (simp add: solo_raft_def)
  ultimately show ?thesis
    by (simp add: node_reaches_leader_def reaches_leader_def solo_get_leader solo_stable assms first_node_def)
      (simp add: solo_raft_def)
qed

lemma second_reaches:
  assumes "reply_codec_ok pc"
  shows "node_reaches_leader (second_node pc) sorted_list_of_fset pc"
proof -
  have "delivers (cn_quinn (second_node pc)) c (\<lambda>p. fst (quic p)) (serve_bytes solo_raft sorted_list_of_fset pc)" for pc c
    unfolding second_node_def by (simp add: paired_delivers)
  moreover have "connects (cn_quinn (second_node pc)) (\<lambda>p. fst (quic p))" for pc
    by (simp add: connects_def second_node_def paired_quinn_def cache_insert_def)
  moreover have "knows_if_leading (cn_cluster (second_node pc)) (cn_leader (second_node pc))" for pc
    by (simp add: knows_if_leading_def second_node_def) (simp add: solo_raft_def)
  ultimately show ?thesis
    by (simp add: node_reaches_leader_def reaches_leader_def solo_get_leader solo_stable assms second_node_def)
      (simp add: solo_raft_def)
qed

lemma pair_ids: "ld_id (cn_leader (first_node pc)) = 7" "ld_id (cn_leader (second_node pc)) = 7"
  by (simp_all add: first_node_def second_node_def)

definition fresh_pair :: pair_world where
  "fresh_pair = \<lparr>pw_first = solo_process, pw_second = solo_process, pw_wire = []\<rparr>"

lemma fresh_pair_empty:
  "data_get m k (cluster_data (first_node pc) fresh_pair) = None"
  "data_vals m k (cluster_data (first_node pc) fresh_pair) = {||}"
  by (simp_all add: cluster_data_def first_node_def first_view_def fresh_pair_def solo_process_def StateMachine_default_def
      StateMachineData_default_def data_get_def data_vals_def)



end
