(* ===== verification/Cluster_Lifecycle.thy ===== *)
theory Cluster_Lifecycle
  imports Collections Membership_Watch
begin

text \<open>
  Configuring, spawning and shutting down a node (\<open>cluster.rs\<close>: \<open>ClusterConfigBuilder\<close>,
  \<open>create_endpoint\<close>, \<open>Cluster::spawn\<close>, \<open>Cluster::shutdown\<close>). rustls, the binding of the QUIC endpoint and
  the constructor of openraft are parameters; certificates and keys are tokens.
\<close>

section \<open>Configuration\<close>

record ClusterConfig =
  cfg_bind_addr :: SocketAddr
  cfg_public_addr :: "SocketAddr option"
  cfg_public_server_name :: string
  cfg_seed :: "(SocketAddr \<times> string) option"
  cfg_certs :: "token list"
  cfg_key :: token

record ClusterConfigBuilder =
  cb_bind_addr :: SocketAddr
  cb_public_addr :: "SocketAddr option"
  cb_public_server_name :: string
  cb_seed :: "(SocketAddr \<times> string) option"

definition ClusterConfigBuilder_default :: ClusterConfigBuilder where
  "ClusterConfigBuilder_default = \<lparr>cb_bind_addr = SocketAddr_new (V6 1) 0, cb_public_addr = None,
     cb_public_server_name = ''::1'', cb_seed = None\<rparr>"

definition with_bind_addr :: "SocketAddr \<Rightarrow> ClusterConfigBuilder \<Rightarrow> ClusterConfigBuilder" where
  "with_bind_addr addr b = b\<lparr>cb_bind_addr := addr\<rparr>"

definition with_public_addr :: "SocketAddr \<Rightarrow> string \<Rightarrow> ClusterConfigBuilder \<Rightarrow> ClusterConfigBuilder" where
  "with_public_addr addr server_name b = b\<lparr>cb_public_addr := Some addr, cb_public_server_name := server_name\<rparr>"

definition with_seed :: "SocketAddr \<Rightarrow> string \<Rightarrow> ClusterConfigBuilder \<Rightarrow> ClusterConfigBuilder" where
  "with_seed addr server_name b = b\<lparr>cb_seed := Some (addr, server_name)\<rparr>"

definition build_config :: "token list \<Rightarrow> token \<Rightarrow> ClusterConfigBuilder \<Rightarrow> ClusterConfig" where
  "build_config certs key b = \<lparr>cfg_bind_addr = cb_bind_addr b, cfg_public_addr = cb_public_addr b,
     cfg_public_server_name = cb_public_server_name b, cfg_seed = cb_seed b, cfg_certs = certs, cfg_key = key\<rparr>"

section \<open>The QUIC endpoint\<close>

datatype ConfigError = Config_Rustls token | Config_NoInitialCipherSuite token

datatype SpawnClusterError =
    Spawn_Config ConfigError
  | Spawn_CreateEndpoint token
  | Spawn_Initialize "token RaftError"
  | Spawn_Wait token
  | Spawn_Join Error

definition ALPN_QUIC_CLUSTER :: string where
  "ALPN_QUIC_CLUSTER = ''cluster''"

text \<open>The settings given to rustls and quinn.\<close>

record client_settings =
  cs_roots :: "token list"
  cs_alpn :: "string list"

record server_settings =
  ss_certs :: "token list"
  ss_key :: token
  ss_alpn :: "string list"
  ss_max_concurrent_uni_streams :: nat

record tls =
  tls_add_root :: "token \<Rightarrow> token + unit"
  tls_quic_client :: "client_settings \<Rightarrow> token + unit"
  tls_single_cert :: "token list \<Rightarrow> token \<Rightarrow> token + unit"
  tls_quic_server :: "server_settings \<Rightarrow> token + unit"
  tls_bind :: "server_settings \<Rightarrow> client_settings \<Rightarrow> SocketAddr \<Rightarrow> token + token"

text \<open>
  Every certificate becomes a trusted root; the same certificates and the key authenticate the
  server. The transport settings of a new server configuration are not shared yet, so changing them
  in place succeeds.
\<close>

definition create_endpoint :: "tls \<Rightarrow> SocketAddr \<Rightarrow> token list \<Rightarrow> token \<Rightarrow> SpawnClusterError + token" where
  "create_endpoint t addr certs key =
     (let client = \<lparr>cs_roots = certs, cs_alpn = [ALPN_QUIC_CLUSTER]\<rparr>;
          server = \<lparr>ss_certs = certs, ss_key = key, ss_alpn = [ALPN_QUIC_CLUSTER], ss_max_concurrent_uni_streams = 0\<rparr>
      in case collect_results (map (tls_add_root t) certs) of
           Inl e \<Rightarrow> Inl (Spawn_Config (Config_Rustls e))
         | Inr _ \<Rightarrow>
             (case tls_quic_client t client of
                Inl e \<Rightarrow> Inl (Spawn_Config (Config_NoInitialCipherSuite e))
              | Inr _ \<Rightarrow>
                  (case tls_single_cert t certs key of
                     Inl e \<Rightarrow> Inl (Spawn_Config (Config_Rustls e))
                   | Inr _ \<Rightarrow>
                       (case tls_quic_server t server of
                          Inl e \<Rightarrow> Inl (Spawn_Config (Config_NoInitialCipherSuite e))
                        | Inr _ \<Rightarrow> map_sum Spawn_CreateEndpoint id (tls_bind t server client addr)))))"

section \<open>Spawning a node\<close>

text \<open>
  The rest of openraft's interface and of the environment: the address of an endpoint, new node
  ids, \<open>Raft::new\<close>, \<open>initialize\<close>, and \<open>wait\<close> for a state with a timeout in seconds.
\<close>

record raft_config =
  heartbeat_interval :: nat
  election_timeout_min :: nat
  election_timeout_max :: nat

record ('r, 'q) spawn_api =
  sp_tls :: tls
  sp_local_addr :: "token \<Rightarrow> token + SocketAddr"
  sp_generate_id :: "('r, 'q) process \<Rightarrow> NodeId \<times> ('r, 'q) process"
  sp_raft_new :: "NodeId \<Rightarrow> raft_config \<Rightarrow> (('r, 'q) process, token, ('r, 'q) openraft) io"
  sp_initialize :: "(NodeId \<times> Node) list \<Rightarrow> (('r, 'q) process, token RaftError, unit) io"
  sp_wait :: "nat \<Rightarrow> ServerState \<Rightarrow> (('r, 'q) process, token, unit) io"

definition spawn_raft_config :: raft_config where
  "spawn_raft_config = \<lparr>heartbeat_interval = 500, election_timeout_min = 1500, election_timeout_max = 3000\<rparr>"

text \<open>
  A new node: empty state machine, heartbeat monitor and connection cache. Its background tasks run
  until they end on their own; dropping the sender of the shutdown signal ends the task that waits
  for it, without a shutdown.
\<close>

definition fresh_node :: "('r, 'q) process \<Rightarrow> ('r, 'q) process" where
  "fresh_node p =
     (ConnectionCache_new (p\<lparr>p_monitor := HeartbeatMonitor_default\<rparr>))\<lparr>p_sm := StateMachine_default\<rparr>"

definition start_tasks :: "task list \<Rightarrow> ('r, 'q) process \<Rightarrow> ('r, 'q) process" where
  "start_tasks ts p = p\<lparr>p_tasks := p_tasks p @ ts\<rparr>"

definition drop_shutdown_tx :: "('r, 'q) process \<Rightarrow> ('r, 'q) process" where
  "drop_shutdown_tx p = p\<lparr>p_tasks := remove1 GracefulShutdown (p_tasks p)\<rparr>"

definition aio_map_err :: "('e \<Rightarrow> 'f) \<Rightarrow> ('w, 'e, 'a) aio \<Rightarrow> ('w, 'f, 'a) aio" where
  [io_defs]: "aio_map_err f m = (\<lambda>w. map_option (apfst (map_sum f id)) (m w))"

definition join_cluster ::
  "('r, 'q) spawn_api \<Rightarrow> ('r, 'q) quinn \<Rightarrow> postcard \<Rightarrow> SocketAddr \<times> string \<Rightarrow> NodeId \<Rightarrow> Node \<Rightarrow>
     (('r, 'q) process, SpawnClusterError, unit) aio" where
  "join_cluster api q pc seed server_id server_node =
     aio_bind (aio_map_err Spawn_Join (aio_lift (Client_new q (Node_new (fst seed) (snd seed)) None))) (\<lambda>client.
     aio_bind (aio_map_err Spawn_Join (add_learner q pc client server_id server_node True)) (\<lambda>_.
     aio_bind (aio_map_err Spawn_Join (change_membership q pc client (AddVoterIds {|server_id|}) True)) (\<lambda>_.
     aio_bind (aio_map_err Spawn_Wait (aio_lift (sp_wait api 10 Follower))) (\<lambda>_ p.
     Some (Inr (), client_close q client p)))))"

definition initialize_cluster ::
  "('r, 'q) spawn_api \<Rightarrow> NodeId \<Rightarrow> Node \<Rightarrow> (('r, 'q) process, SpawnClusterError, unit) aio" where
  "initialize_cluster api server_id server_node =
     aio_bind (aio_map_err Spawn_Initialize (aio_lift (sp_initialize api [(server_id, server_node)]))) (\<lambda>_.
     aio_map_err Spawn_Wait (aio_lift (sp_wait api 10 Leader)))"

definition spawn ::
  "('r, 'q) spawn_api \<Rightarrow> ('r, 'q) quinn \<Rightarrow> postcard \<Rightarrow> ClusterConfig \<Rightarrow>
     (('r, 'q) process, SpawnClusterError, ('r, 'q) ClusterRef) aio" where
  "spawn api q pc config p =
     (case create_endpoint (sp_tls api) (cfg_bind_addr config) (cfg_certs config) (cfg_key config) of
        Inl e \<Rightarrow> Some (Inl e, p)
      | Inr endpoint \<Rightarrow>
          (case sp_local_addr api endpoint of
             Inl e \<Rightarrow> Some (Inl (Spawn_CreateEndpoint e), start_tasks [AcceptConnections] p)
           | Inr local_addr \<Rightarrow>
               (case sp_generate_id api (start_tasks [AcceptConnections] p) of (server_id, p1) \<Rightarrow>
                  (case sp_raft_new api server_id spawn_raft_config (fresh_node p1) of
                     (Inl e, p2) \<Rightarrow> Some (Inl (Spawn_Initialize (Fatal e)), p2)
                   | (Inr raft, p2) \<Rightarrow>
                       (let public_addr = unwrap_or local_addr (cfg_public_addr config);
                            server_node = Node_new public_addr (cfg_public_server_name config);
                            start = (case cfg_seed config of
                                Some seed \<Rightarrow> join_cluster api q pc seed server_id server_node
                              | None \<Rightarrow> initialize_cluster api server_id server_node)
                        in case start (start_tasks [GracefulShutdown, WatchMembership, DetectFailures, MainLoop] p2) of
                             None \<Rightarrow> None
                           | Some (Inl e, p3) \<Rightarrow> Some (Inl e, drop_shutdown_tx p3)
                           | Some (Inr _, p3) \<Rightarrow> Some (Inr
                               \<lparr>cr_node_id = server_id, cr_raft = raft, cr_local_addr = local_addr,
                                cr_public_addr = public_addr\<rparr>, p3))))))"

section \<open>Shutting a node down\<close>

datatype 'c ShutdownClusterError = Shutdown_Join token | StillReferenced 'c

text \<open>\<open>Debug for ShutdownClusterError\<close>: the cluster is left out; the display of a join error is a parameter.\<close>

fun ShutdownClusterError_fmt :: "(token \<Rightarrow> string) \<Rightarrow> 'c ShutdownClusterError \<Rightarrow> string" where
  "ShutdownClusterError_fmt show_join (Shutdown_Join e) = ''Join('' @ show_join e @ '')''"
| "ShutdownClusterError_fmt show_join (StillReferenced _) = ''StillReferenced(..)''"

definition Cluster_local_addr :: "('r, 'q) ClusterRef \<Rightarrow> SocketAddr" where
  "Cluster_local_addr cluster = cr_local_addr cluster"

text \<open>
  \<open>ClusterRef::shutdown\<close> signals the shutdown and then awaits the tasks that watch the membership,
  detect failures and serve messages; \<open>handles\<close> are the results of these tasks, in this order.
  \<open>Cluster::shutdown\<close> needs the last reference to the node.
\<close>

definition ClusterRef_shutdown :: "(token + unit) list \<Rightarrow> token + unit" where
  "ClusterRef_shutdown handles = map_sum id (\<lambda>_. ()) (collect_results handles)"

definition Cluster_shutdown :: "nat \<Rightarrow> (token + unit) list \<Rightarrow> 'c \<Rightarrow> 'c ShutdownClusterError + unit" where
  "Cluster_shutdown references handles cluster =
     (if references \<noteq> 1 then Inl (StillReferenced cluster)
      else map_sum Shutdown_Join id (ClusterRef_shutdown handles))"

section \<open>Properties\<close>

lemma aio_map_err_Inr: "aio_map_err f m w = Some (Inr a, w') \<longleftrightarrow> m w = Some (Inr a, w')"
  by (auto simp: aio_map_err_def apfst_def map_prod_def map_sum_eqs split: prod.splits)

lemma aio_bind_Inr:
  "aio_bind m f w = Some (Inr b, w'') \<longleftrightarrow> (\<exists>a w'. m w = Some (Inr a, w') \<and> f a w' = Some (Inr b, w''))"
  by (auto simp: aio_bind_Some)

lemma add_learner_Inr:
  "add_learner q pc cl i node b p = Some (Inr resp, p') \<longleftrightarrow>
     client_request q pc cl (ReqAddLearner i node b) p = Some (Inr (RAddLearner resp), p')"
  by (auto simp: add_learner_def aio_bind_def aio_result_def split: option.splits prod.splits sum.splits Response.splits)

lemma change_membership_Inr:
  "change_membership q pc cl ms b p = Some (Inr resp, p') \<longleftrightarrow>
     client_request q pc cl (ReqChangeMembership ms b) p = Some (Inr (RClientWrite resp), p')"
  by (auto simp: change_membership_def aio_bind_def aio_result_def split: option.splits prod.splits sum.splits Response.splits)

text \<open>
  C34 (spawn_with_seed_joins): spawning with a seed succeeds only if, over one connection to the seed
  and in this order, the cluster accepted the new node as a learner under its new id and its public
  address (the bound address if none is configured), the cluster made it a voter, and the node became
  a follower; then the connection to the seed is closed.
\<close>

theorem spawn_with_seed_joins:
  assumes "spawn api q pc config p = Some (Inr cluster, p')" "cfg_seed config = Some (addr, name)"
  shows "\<exists>client p1 p2 p3 p4 p5 learner voter.
    Client_new q (Node_new addr name) None p1 = (Inr client, p2) \<and>
    client_request q pc client (ReqAddLearner (cr_node_id cluster)
      (Node_new (cr_public_addr cluster) (cfg_public_server_name config)) True) p2 = Some (Inr (RAddLearner learner), p3) \<and>
    client_request q pc client (ReqChangeMembership (AddVoterIds {|cr_node_id cluster|}) True) p3 =
      Some (Inr (RClientWrite voter), p4) \<and>
    sp_wait api 10 Follower p4 = (Inr (), p5) \<and> p' = q_close q (client_conn client) p5 \<and>
    cr_public_addr cluster = unwrap_or (cr_local_addr cluster) (cfg_public_addr config)"
proof -
  from assms obtain server_id raft local_addr p1 where
    cl: "cluster = \<lparr>cr_node_id = server_id, cr_raft = raft, cr_local_addr = local_addr,
        cr_public_addr = unwrap_or local_addr (cfg_public_addr config)\<rparr>"
    and j: "join_cluster api q pc (addr, name) server_id
        (Node_new (unwrap_or local_addr (cfg_public_addr config)) (cfg_public_server_name config)) p1 = Some (Inr (), p')"
    by (auto simp: spawn_def Let_def split: sum.splits prod.splits option.splits)
  let ?node = "Node_new (unwrap_or local_addr (cfg_public_addr config)) (cfg_public_server_name config)"
  from j obtain client p2 p3 p4 p5 learner voter where
    "Client_new q (Node_new addr name) None p1 = (Inr client, p2)"
    "client_request q pc client (ReqAddLearner server_id ?node True) p2 = Some (Inr (RAddLearner learner), p3)"
    "client_request q pc client (ReqChangeMembership (AddVoterIds {|server_id|}) True) p3 = Some (Inr (RClientWrite voter), p4)"
    "sp_wait api 10 Follower p4 = (Inr (), p5)" "p' = q_close q (client_conn client) p5"
    by (auto simp: join_cluster_def aio_bind_Inr aio_map_err_Inr add_learner_Inr change_membership_Inr aio_lift_def
        client_close_def)
  then show ?thesis unfolding cl by (auto intro!: exI)
qed

text \<open>A cluster that accepts everyone: it answers each request with the reply it expects.\<close>

definition accepting_quinn :: "(unit, bytes) quinn" where
  "accepting_quinn = loopback_quinn (\<lambda>b p. (b, p))"

definition accepted :: ClientWriteResponse where
  "accepted = \<lparr>cw_log_id = LogId (LeaderId 1 7) 1, cw_data = RespNoop, cw_membership = None\<rparr>"

definition accepting_postcard :: postcard where
  "accepting_postcard = \<lparr>enc_request = (\<lambda>msg. Inr (case req_body msg of ReqAddLearner _ _ _ \<Rightarrow> [1] | _ \<Rightarrow> [2])),
     dec_request = (\<lambda>_. Inl 0), enc_reply = (\<lambda>_. Inl 0),
     dec_reply = (\<lambda>b. Inr (Inr (if b = [1] then RAddLearner accepted else RClientWrite accepted)))\<rparr>"

definition accepting_raft :: "(unit, bytes) openraft" where
  "accepting_raft = \<lparr>r_client_write = (\<lambda>_ p. (Inl (Fatal 0), p)), r_add_learner = (\<lambda>_ _ _ p. (Inl (Fatal 0), p)),
     r_change_membership = (\<lambda>_ _ p. (Inl (Fatal 0), p)), r_append_entries = (\<lambda>_ p. (Inl (RaftFatal 0), p)),
     r_vote = (\<lambda>_ p. (Inl (RaftFatal 0), p)), r_ensure_linearizable = (\<lambda>p. (Inl (Fatal 0), p)),
     r_current_leader = (\<lambda>p. (Some 7, p)), r_metrics = (\<lambda>_. pair_metrics),
     r_server_metrics = (\<lambda>_. \<lparr>srv_id = 9, srv_state = Follower\<rparr>), r_shutdown = (\<lambda>p. (Inr (), p))\<rparr>"

definition accepting_api :: "(unit, bytes) spawn_api" where
  "accepting_api = \<lparr>sp_tls = \<lparr>tls_add_root = (\<lambda>_. Inr ()), tls_quic_client = (\<lambda>_. Inr ()), tls_single_cert = (\<lambda>_ _. Inr ()),
       tls_quic_server = (\<lambda>_. Inr ()), tls_bind = (\<lambda>_ _ _. Inr 0)\<rparr>,
     sp_local_addr = (\<lambda>_. Inr example_addr), sp_generate_id = (\<lambda>p. (9, p)),
     sp_raft_new = (\<lambda>_ _ p. (Inr accepting_raft, p)),
     sp_initialize = (\<lambda>_ p. (Inr (), p)), sp_wait = (\<lambda>_ _ p. (Inr (), p))\<rparr>"

definition joining_config :: ClusterConfig where
  "joining_config = build_config [] 0 (with_seed example_addr ''localhost'' ClusterConfigBuilder_default)"

definition new_process :: "(unit, bytes) process" where
  "new_process = \<lparr>raft_core = (), p_sm = StateMachine_default, p_monitor = HeartbeatMonitor_default,
     connections = fmempty, watchers = [], p_tasks = [], quic = []\<rparr>"

lemmas accepting_defs = accepting_quinn_def accepting_postcard_def joining_config_def build_config_def
  with_seed_def ClusterConfigBuilder_default_def loopback_quinn_def

lemma accepting_api_simps:
  "create_endpoint (sp_tls accepting_api) addr [] key = Inr 0"
  "sp_local_addr accepting_api e = Inr example_addr" "sp_generate_id accepting_api p = (9, p)"
  "sp_raft_new accepting_api i c p = (Inr accepting_raft, p)" "sp_wait accepting_api n st p = (Inr (), p)"
  by (simp_all add: accepting_api_def create_endpoint_def)

lemma accepting_request:
  "client_request accepting_quinn accepting_postcard cl body p =
     Some (Inr (case body of ReqAddLearner _ _ _ \<Rightarrow> RAddLearner accepted | _ \<Rightarrow> RClientWrite accepted),
       p\<lparr>quic := case body of ReqAddLearner _ _ _ \<Rightarrow> [1] | _ \<Rightarrow> [2]\<rparr>)"
  by (simp add: client_request_def client_loop.simps client_step_def client_exchange_def io_defs accepting_defs
      split: RequestBody.split)

theorem spawn_with_seed_joins_witness:
  "\<exists>cluster p'. spawn accepting_api accepting_quinn accepting_postcard joining_config new_process = Some (Inr cluster, p') \<and>
     cr_public_addr cluster = cr_local_addr cluster"
proof -
  have seed: "cfg_seed joining_config = Some (example_addr, ''localhost'')" "cfg_public_addr joining_config = None"
    "cfg_certs joining_config = []"
    by (simp_all add: accepting_defs)
  have "\<exists>client p'. Client_new accepting_quinn node i p = (Inr client, p')" for node i p
    by (simp add: Client_new_def cache_connect_def cache_connect_new_def io_defs accepting_defs split: option.split)
  then have "\<exists>p'. join_cluster accepting_api accepting_quinn accepting_postcard s i n p = Some (Inr (), p')" for s i n p
    by (simp add: join_cluster_def aio_bind_Inr aio_map_err_Inr add_learner_Inr change_membership_Inr aio_lift_def
        accepting_request accepting_api_simps)
  then obtain p' where "join_cluster accepting_api accepting_quinn accepting_postcard (example_addr, ''localhost'') 9
      (Node_new example_addr (cfg_public_server_name joining_config))
      (start_tasks [GracefulShutdown, WatchMembership, DetectFailures, MainLoop]
        (fresh_node (start_tasks [AcceptConnections] new_process))) = Some (Inr (), p')" by blast
  then obtain cluster where
    s: "spawn accepting_api accepting_quinn accepting_postcard joining_config new_process = Some (Inr cluster, p')"
    by (simp add: spawn_def seed Let_def accepting_api_simps)
  from spawn_with_seed_joins [OF s seed(1)] seed(2) s show ?thesis by auto
qed



end
