(* ===== verification/Unit_Tests.thy ===== *)
theory Unit_Tests
  imports Cluster_View Cluster_Lifecycle
begin

text \<open>
  The unit tests of the sources (\<open>collections/dmap.rs\<close>, \<open>collections/dmultimap.rs\<close>, \<open>cluster.rs\<close>). A test spawns
  one or two nodes, calls operations, asserts their results, and shuts the nodes down. An assertion is an
  operation with a predicate on its result. The generated certificates and the results of the background
  tasks are parameters.
\<close>

section \<open>Tests\<close>

datatype test_failure =
    AssertionFailed | Test_Spawn SpawnClusterError | Test_Error Error | Test_Shutdown "unit ShutdownClusterError"
  | Test_Bail string

fun run_checks ::
  "('op \<Rightarrow> ('w, Error, 'a) aio) \<Rightarrow> ('op \<times> ('a \<Rightarrow> bool)) list \<Rightarrow> ('w, test_failure, unit) aio" where
  "run_checks exec [] = aio_result (Inr ())"
| "run_checks exec ((x, ok) # rest) =
     aio_bind (aio_map_err Test_Error (exec x)) (\<lambda>out.
       if ok out then run_checks exec rest else aio_result (Inl AssertionFailed))"

text \<open>Setting clusters up and shutting nodes down.\<close>

definition single_node_cluster ::
  "('r, 'q) spawn_api \<Rightarrow> ('r, 'q) quinn \<Rightarrow> postcard \<Rightarrow> token list \<Rightarrow> token \<Rightarrow>
     (('r, 'q) process, test_failure, ('r, 'q) ClusterRef) aio" where
  "single_node_cluster api q pc certs key =
     aio_map_err Test_Spawn (spawn api q pc (build_config certs key ClusterConfigBuilder_default))"

definition Cluster_public_addr :: "('r, 'q) ClusterRef \<Rightarrow> SocketAddr" where
  "Cluster_public_addr cluster = cr_public_addr cluster"

definition two_nodes_cluster ::
  "('w, 'r, 'q) node_view \<Rightarrow> ('r, 'q) spawn_api \<Rightarrow> ('r, 'q) quinn \<Rightarrow>
   ('w, 'r, 'q) node_view \<Rightarrow> ('r, 'q) spawn_api \<Rightarrow> ('r, 'q) quinn \<Rightarrow> postcard \<Rightarrow> token list \<Rightarrow> token \<Rightarrow>
     ('w, test_failure, ('r, 'q) ClusterRef \<times> ('r, 'q) ClusterRef) aio" where
  "two_nodes_cluster v1 api1 q1 v2 api2 q2 pc certs key =
     aio_bind (on_node v1 (aio_map_err Test_Spawn (spawn api1 q1 pc (build_config certs key ClusterConfigBuilder_default))))
       (\<lambda>cluster1.
     aio_bind (on_node v2 (aio_map_err Test_Spawn (spawn api2 q2 pc (build_config certs key
         (with_seed (Cluster_public_addr cluster1) ''localhost'' ClusterConfigBuilder_default)))))
       (\<lambda>cluster2. aio_result (Inr (cluster1, cluster2))))"

text \<open>The maps are dropped at the end of their block, so one reference is left.\<close>

definition test_shutdown :: "(token + unit) list \<Rightarrow> ('w, test_failure, unit) aio" where
  "test_shutdown handles = aio_result (map_sum Test_Shutdown id (Cluster_shutdown 1 handles ()))"

definition shutdown_single ::
  "('r, 'q) spawn_api \<Rightarrow> ('r, 'q) quinn \<Rightarrow> postcard \<Rightarrow> token list \<Rightarrow> token \<Rightarrow> (token + unit) list \<Rightarrow>
     (('r, 'q) process, test_failure, unit) aio" where
  "shutdown_single api q pc certs key handles =
     aio_bind (single_node_cluster api q pc certs key) (\<lambda>cluster.
       case Cluster_shutdown 2 handles cluster of
         Inl (StillReferenced cluster) \<Rightarrow> test_shutdown handles
       | _ \<Rightarrow> aio_result (Inl (Test_Bail ''expected StillReferenced error'')))"

section \<open>Tests of the map\<close>

type_synonym dmap_check = "(string, u64) dmap_op \<times> (u64 dmap_out \<Rightarrow> bool)"

definition dmap_test_insert :: "dmap_check list" where
  "dmap_test_insert =
     [(DIsEmpty, (=) (DBool True)), (DInsert ''counter'' 1234, (=) (DValue None)), (DIsEmpty, (=) (DBool False)),
      (DLen, (=) (DNat 1)),
      (DInsert ''counter'' 5678, (=) (DValue (Some 1234))), (DIsEmpty, (=) (DBool False)), (DLen, (=) (DNat 1))]"

definition dmap_test_get :: "dmap_check list" where
  "dmap_test_get =
     [(DGet ''counter'', (=) (DValue None)), (DInsert ''counter'' 1234, (=) (DValue None)),
      (DGet ''counter'', (=) (DValue (Some 1234))),
      (DInsert ''counter'' 5678, (=) (DValue (Some 1234))), (DGet ''counter'', (=) (DValue (Some 5678))),
      (DRemove ''counter'', (=) (DValue (Some 5678))), (DGet ''counter'', (=) (DValue None))]"

definition dmap_test_contains_key :: "dmap_check list" where
  "dmap_test_contains_key =
     [(DContains ''counter'', (=) (DBool False)), (DInsert ''counter'' 1234, (=) (DValue None)),
      (DContains ''counter'', (=) (DBool True))]"

definition dmap_test_remove :: "dmap_check list" where
  "dmap_test_remove =
     [(DRemove ''counter'', (=) (DValue None)), (DInsert ''counter'' 1234, (=) (DValue None)),
      (DContains ''counter'', (=) (DBool True)), (DRemove ''counter'', (=) (DValue (Some 1234))),
      (DIsEmpty, (=) (DBool True)), (DRemove ''counter'', (=) (DValue None))]"

text \<open>The flag tells whether the operation is called on the second node.\<close>

definition dmap_test_two_nodes :: "((bool \<times> (string, u64) dmap_op) \<times> (u64 dmap_out \<Rightarrow> bool)) list" where
  "dmap_test_two_nodes =
     [((False, DGet ''counter''), (=) (DValue None)), ((True, DGet ''counter''), (=) (DValue None)),
      ((False, DContains ''counter''), (=) (DBool False)), ((True, DContains ''counter''), (=) (DBool False)),
      ((False, DInsert ''counter'' 1234), (=) (DValue None)), ((True, DContains ''counter''), (=) (DBool True)),
      ((True, DIsEmpty), (=) (DBool False)), ((True, DLen), (=) (DNat 1)),
      ((True, DGet ''counter''), (=) (DValue (Some 1234))),
      ((True, DInsert ''counter'' 5678), (=) (DValue (Some 1234))), ((False, DGet ''counter''), (=) (DValue (Some 5678))),
      ((True, DRemove ''counter''), (=) (DValue (Some 5678))), ((False, DGet ''counter''), (=) (DValue None)),
      ((True, DGet ''counter''), (=) (DValue None)), ((False, DIsEmpty), (=) (DBool True)),
      ((True, DIsEmpty), (=) (DBool True)), ((False, DContains ''counter''), (=) (DBool False)),
      ((True, DContains ''counter''), (=) (DBool False))]"

definition dmap_tests :: "dmap_check list list" where
  "dmap_tests = [dmap_test_insert, dmap_test_get, dmap_test_contains_key, dmap_test_remove]"

definition dmap_test ::
  "('r, 'q) spawn_api \<Rightarrow> ('r, 'q) quinn \<Rightarrow> postcard \<Rightarrow> (string, u64) codec \<Rightarrow> token list \<Rightarrow> token \<Rightarrow>
     (token + unit) list \<Rightarrow> dmap_check list \<Rightarrow> (('r, 'q) process, test_failure, unit) aio" where
  "dmap_test api q pc cd certs key handles checks =
     aio_bind (single_node_cluster api q pc certs key) (\<lambda>cluster.
     aio_bind (run_checks (dmap_exec q pc cd (get_map cluster ''my_map'')) checks) (\<lambda>_. test_shutdown handles))"

definition dmap_two_nodes ::
  "('w, test_failure, ('r, 'q) ClusterRef \<times> ('r, 'q) ClusterRef) aio \<Rightarrow>
   ('w, 'r, 'q) node_view \<Rightarrow> ('r, 'q) quinn \<Rightarrow> ('w, 'r, 'q) node_view \<Rightarrow> ('r, 'q) quinn \<Rightarrow> postcard \<Rightarrow>
   (string, u64) codec \<Rightarrow> (token + unit) list \<Rightarrow> (token + unit) list \<Rightarrow> ('w, test_failure, unit) aio" where
  "dmap_two_nodes start v1 q1 v2 q2 pc cd handles1 handles2 =
     aio_bind start (\<lambda>(cluster1, cluster2).
     aio_bind (run_checks (\<lambda>(second, x).
         if second then on_node v2 (dmap_exec q2 pc cd (get_map cluster2 ''my_map'') x)
         else on_node v1 (dmap_exec q1 pc cd (get_map cluster1 ''my_map'') x)) dmap_test_two_nodes) (\<lambda>_.
     aio_bind (test_shutdown handles1) (\<lambda>_. test_shutdown handles2)))"

section \<open>Tests of the multi-map\<close>

type_synonym multi_check = "(string, u64) multi_op \<times> (u64 list multi_out \<Rightarrow> bool)"

definition returns_sorted :: "u64 list \<Rightarrow> u64 list multi_out \<Rightarrow> bool" where
  "returns_sorted xs out = (case out of MuValues vs \<Rightarrow> sort vs = xs | MuBool _ \<Rightarrow> False)"

definition multi_test_insert :: "multi_check list" where
  "multi_test_insert =
     [(MuGet ''counter'', (=) (MuValues [])), (MuInsert ''counter'' 1234, (=) (MuBool True)),
      (MuInsert ''counter'' 5678, (=) (MuBool True)), (MuInsert ''counter'' 1234, (=) (MuBool False)),
      (MuGet ''counter'', returns_sorted [1234, 5678])]"

definition multi_test_get :: "multi_check list" where
  "multi_test_get =
     [(MuGet ''counter'', (=) (MuValues [])), (MuInsert ''counter'' 1234, (=) (MuBool True)),
      (MuGet ''counter'', (=) (MuValues [1234])), (MuInsert ''counter'' 5678, (=) (MuBool True)),
      (MuGet ''counter'', returns_sorted [1234, 5678]), (MuRemove ''counter'' 1234, (=) (MuBool True)),
      (MuGet ''counter'', (=) (MuValues [5678])), (MuRemove ''counter'' 5678, (=) (MuBool True)),
      (MuGet ''counter'', (=) (MuValues []))]"

definition multi_test_remove :: "multi_check list" where
  "multi_test_remove =
     [(MuRemove ''counter'' 1234, (=) (MuBool False)), (MuInsert ''counter'' 1234, (=) (MuBool True)),
      (MuInsert ''counter'' 5678, (=) (MuBool True)),
      (MuRemove ''counter'' 1234, (=) (MuBool True)), (MuGet ''counter'', (=) (MuValues [5678])),
      (MuRemove ''counter'' 1234, (=) (MuBool False)),
      (MuRemove ''counter'' 5678, (=) (MuBool True)), (MuGet ''counter'', (=) (MuValues [])),
      (MuRemove ''counter'' 5678, (=) (MuBool False))]"

definition multi_test_multiple_keys :: "multi_check list" where
  "multi_test_multiple_keys =
     [(MuInsert ''a'' 1, (=) (MuBool True)), (MuInsert ''a'' 2, (=) (MuBool True)), (MuInsert ''b'' 3, (=) (MuBool True)),
      (MuGet ''a'', returns_sorted [1, 2]), (MuGet ''b'', (=) (MuValues [3])),
      (MuRemove ''a'' 1, (=) (MuBool True)), (MuGet ''a'', (=) (MuValues [2])), (MuGet ''b'', (=) (MuValues [3]))]"

definition multi_test_two_nodes :: "((bool \<times> (string, u64) multi_op) \<times> (u64 list multi_out \<Rightarrow> bool)) list" where
  "multi_test_two_nodes =
     [((False, MuGet ''counter''), (=) (MuValues [])), ((True, MuGet ''counter''), (=) (MuValues [])),
      ((False, MuInsert ''counter'' 1234), (=) (MuBool True)), ((True, MuGet ''counter''), (=) (MuValues [1234])),
      ((True, MuInsert ''counter'' 5678), (=) (MuBool True)), ((False, MuGet ''counter''), returns_sorted [1234, 5678]),
      ((True, MuGet ''counter''), returns_sorted [1234, 5678]), ((False, MuInsert ''counter'' 5678), (=) (MuBool False)),
      ((True, MuRemove ''counter'' 1234), (=) (MuBool True)), ((False, MuGet ''counter''), (=) (MuValues [5678])),
      ((False, MuRemove ''counter'' 5678), (=) (MuBool True)), ((False, MuGet ''counter''), (=) (MuValues [])),
      ((True, MuGet ''counter''), (=) (MuValues []))]"

definition multi_tests :: "multi_check list list" where
  "multi_tests = [multi_test_insert, multi_test_get, multi_test_remove, multi_test_multiple_keys]"

definition multi_test ::
  "('r, 'q) spawn_api \<Rightarrow> ('r, 'q) quinn \<Rightarrow> postcard \<Rightarrow> (string, u64) codec \<Rightarrow> (bytes fset \<Rightarrow> bytes list) \<Rightarrow> token list \<Rightarrow>
     token \<Rightarrow> (token + unit) list \<Rightarrow> multi_check list \<Rightarrow> (('r, 'q) process, test_failure, unit) aio" where
  "multi_test api q pc cd it certs key handles checks =
     aio_bind (single_node_cluster api q pc certs key) (\<lambda>cluster.
     aio_bind (run_checks (multi_exec q pc cd it (get_multi_map cluster ''my_multi_map'')) checks) (\<lambda>_. test_shutdown handles))"

definition multi_two_nodes ::
  "('w, test_failure, ('r, 'q) ClusterRef \<times> ('r, 'q) ClusterRef) aio \<Rightarrow>
   ('w, 'r, 'q) node_view \<Rightarrow> ('r, 'q) quinn \<Rightarrow> ('w, 'r, 'q) node_view \<Rightarrow> ('r, 'q) quinn \<Rightarrow> postcard \<Rightarrow>
   (string, u64) codec \<Rightarrow> (bytes fset \<Rightarrow> bytes list) \<Rightarrow> (token + unit) list \<Rightarrow> (token + unit) list \<Rightarrow>
     ('w, test_failure, unit) aio" where
  "multi_two_nodes start v1 q1 v2 q2 pc cd it handles1 handles2 =
     aio_bind start (\<lambda>(cluster1, cluster2).
     aio_bind (run_checks (\<lambda>(second, x).
         if second then on_node v2 (multi_exec q2 pc cd it (get_multi_map cluster2 ''my_multi_map'') x)
         else on_node v1 (multi_exec q1 pc cd it (get_multi_map cluster1 ''my_multi_map'') x)) multi_test_two_nodes) (\<lambda>_.
     aio_bind (test_shutdown handles1) (\<lambda>_. test_shutdown handles2)))"

section \<open>What the collections have to return\<close>

lemma run_checks_pass:
  "run_ok exec (map fst checks) w = Some (outs, w') \<Longrightarrow> list_all2 (\<lambda>(x, ok) out. ok out) checks outs \<Longrightarrow>
     run_checks exec checks w = Some (Inr (), w')"
proof (induction checks arbitrary: w outs)
  case Nil
  then show ?case by (simp add: aio_result_def)
next
  case (Cons c checks)
  obtain x ok where c: "c = (x, ok)" by fastforce
  with Cons.prems obtain a w1 outs' where "exec x w = Some (Inr a, w1)" "run_ok exec (map fst checks) w1 = Some (outs', w')"
    "outs = a # outs'"
    by (auto split: option.splits prod.splits sum.splits)
  with Cons c show ?case by (simp add: io_defs)
qed

text \<open>The outputs of a dictionary, and of a map to sets up to the order of the values, pass the checks.\<close>

definition dict_passes :: "('op \<times> (u64 dmap_out \<Rightarrow> bool)) list \<Rightarrow> ('op \<Rightarrow> (string, u64) dmap_op) \<Rightarrow> bool" where
  "dict_passes checks f = list_all2 (\<lambda>(x, ok) out. ok out) checks
     (fst (run_steps dict_step (map (f \<circ> fst) checks) Map.empty))"

definition multi_passes :: "('op \<times> (u64 list multi_out \<Rightarrow> bool)) list \<Rightarrow> ('op \<Rightarrow> (string, u64) multi_op) \<Rightarrow> bool" where
  "multi_passes checks f = list_all2 (\<lambda>(x, ok) sets. \<forall>out. no_repeats out \<longrightarrow> map_multi_out set out = sets \<longrightarrow> ok out) checks
     (fst (run_steps multi_step (map (f \<circ> fst) checks) (\<lambda>_. {})))"

lemma dmap_tests_pass: "checks \<in> set dmap_tests \<Longrightarrow> dict_passes checks id"
  by (auto simp: dmap_tests_def dict_passes_def dmap_test_insert_def dmap_test_get_def dmap_test_contains_key_def
      dmap_test_remove_def)

lemma dmap_test_two_nodes_passes: "dict_passes dmap_test_two_nodes snd"
  by (simp add: dict_passes_def dmap_test_two_nodes_def)

lemma set_out:
  "map_multi_out set out = MuBool b \<longleftrightarrow> out = MuBool b"
  "map_multi_out set out = MuValues s \<longleftrightarrow> (\<exists>vs. out = MuValues vs \<and> set vs = s)"
  by (cases out; auto)+

lemma distinct_one: "distinct vs \<Longrightarrow> set vs = {x} \<Longrightarrow> vs = [x]"
  by (cases vs; cases "tl vs") auto

lemma sort_two:
  fixes x y :: "'a :: linorder"
  assumes "x < y" "distinct vs" "set vs = {x, y}"
  shows "sort vs = [x, y]"
proof -
  have "sorted_list_of_set (set vs) = sort vs" using assms(2) by (simp add: sorted_list_of_set_sort_remdups distinct_remdups_id)
  with assms(1,3) show ?thesis by (simp add: less_imp_le)
qed

lemma returns_sorted_two: "x < y \<Longrightarrow> distinct vs \<Longrightarrow> set vs = {x, y} \<Longrightarrow> returns_sorted [x, y] (MuValues vs)"
  by (simp add: returns_sorted_def sort_two)

lemmas multi_eval = multi_passes_def set_out insert_Diff_if

lemma multi_tests_pass: "checks \<in> set multi_tests \<Longrightarrow> multi_passes checks id"
proof -
  have "multi_passes multi_test_insert id" by (auto simp: multi_test_insert_def multi_eval intro!: returns_sorted_two distinct_one [symmetric])
  moreover have "multi_passes multi_test_get id" by (auto simp: multi_test_get_def multi_eval intro!: returns_sorted_two distinct_one [symmetric])
  moreover have "multi_passes multi_test_remove id" by (auto simp: multi_test_remove_def multi_eval intro!: returns_sorted_two distinct_one [symmetric])
  moreover have "multi_passes multi_test_multiple_keys id" by (auto simp: multi_test_multiple_keys_def multi_eval intro!: returns_sorted_two distinct_one [symmetric])
  ultimately show "checks \<in> set multi_tests \<Longrightarrow> multi_passes checks id" by (auto simp: multi_tests_def)
qed

lemma multi_test_two_nodes_passes: "multi_passes multi_test_two_nodes snd"
  by (auto simp: multi_test_two_nodes_def multi_eval intro!: returns_sorted_two distinct_one [symmetric])

section \<open>Running the tests\<close>

lemma test_shutdown_ok: "test_shutdown [Inr (), Inr (), Inr ()] w = Some (Inr (), w)"
  by (simp add: test_shutdown_def Cluster_shutdown_def ClusterRef_shutdown_def aio_result_def)

lemma dict_checks_pass:
  assumes "run_ok exec (map fst checks) w = Some (outs, w')" "dict_passes checks f"
    and "run_steps dict_step (map (f \<circ> fst) checks) Map.empty = (outs, d)"
  shows "run_checks exec checks w = Some (Inr (), w')"
  using run_checks_pass [OF assms(1)] assms(2,3) by (simp add: dict_passes_def)

lemma multi_checks_pass:
  assumes "run_ok exec (map fst checks) w = Some (outs, w')" "multi_passes checks f" "list_all no_repeats outs"
    and "run_steps multi_step (map (f \<circ> fst) checks) (\<lambda>_. {}) = (map (map_multi_out set) outs, d)"
  shows "run_checks exec checks w = Some (Inr (), w')"
proof (rule run_checks_pass [OF assms(1)])
  show "list_all2 (\<lambda>(x, ok) out. ok out) checks outs"
    using assms(2-4) by (auto simp: multi_passes_def list_all2_map2 list_all2_conv_all_nth list_all_length split: prod.splits)
qed

definition no_data :: "StateMachineData \<Rightarrow> bool" where
  "no_data d \<longleftrightarrow> (\<forall>m k. data_get m k d = None \<and> data_vals m k d = {||})"

lemma no_data_views:
  assumes "no_data d"
  shows "dict_view cd name d = Map.empty" "well_typed cd name d" "multi_view cd name d = (\<lambda>_. {})" "multi_typed cd name d"
  using assms by (simp_all add: no_data_def dict_view_def well_typed_def multi_view_def multi_typed_def)

lemma single_dmap_checks:
  assumes "reaches_leader cluster ld it q pc" "typed_codec cd" "no_data (leader_data ld p)"
    and "\<forall>(x, ok) \<in> set checks. fits (ld_id ld) pc (dmap_request cd ''my_map'' x)" "dict_passes checks id"
  shows "\<exists>p'. run_checks (dmap_exec q pc cd (get_map cluster ''my_map'')) checks p = Some (Inr (), p')"
proof -
  let ?dm = "get_map cluster ''my_map''"
  have dm: "dm_name ?dm = ''my_map''" "dm_cluster ?dm = cluster" by (simp_all add: get_map_def DMap_new_def)
  have "\<forall>x \<in> set (map fst checks). fits (ld_id ld) pc (dmap_request cd (dm_name ?dm) x)"
    using assms(4) by (auto simp: dm)
  from dmap_run [OF _ assms(2) _ this, of it q p] assms(1,3) obtain outs p' where
    "run_ok (dmap_exec q pc cd ?dm) (map fst checks) p = Some (outs, p')"
    "run_steps dict_step (map fst checks) Map.empty = (outs, dict_view cd ''my_map'' (leader_data ld p'))"
    by (auto simp: dm no_data_views)
  from dict_checks_pass [OF this(1) assms(5)] this(2) show ?thesis by (simp add: id_comp)
qed

lemma single_multi_checks:
  assumes "reaches_leader cluster ld it q pc" "typed_codec cd" "iterates it" "iterates it'" "no_data (leader_data ld p)"
    and "\<forall>(x, ok) \<in> set checks. fits (ld_id ld) pc (multi_request cd ''my_multi_map'' x)" "multi_passes checks id"
  shows "\<exists>p'. run_checks (multi_exec q pc cd it' (get_multi_map cluster ''my_multi_map'')) checks p = Some (Inr (), p')"
proof -
  let ?dmm = "get_multi_map cluster ''my_multi_map''"
  have dmm: "dmm_name ?dmm = ''my_multi_map''" "dmm_cluster ?dmm = cluster"
    by (simp_all add: get_multi_map_def DMultiMap_new_def)
  have "\<forall>x \<in> set (map fst checks). fits (ld_id ld) pc (multi_request cd (dmm_name ?dmm) x)"
    using assms(6) by (auto simp: dmm)
  from multi_run [OF _ assms(2-4) _ this, of q p] assms(1,5) obtain outs p' where
    "run_ok (multi_exec q pc cd it' ?dmm) (map fst checks) p = Some (outs, p')" "list_all no_repeats outs"
    "run_steps multi_step (map fst checks) (\<lambda>_. {}) =
       (map (map_multi_out set) outs, multi_view cd ''my_multi_map'' (leader_data ld p'))"
    by (auto simp: dmm no_data_views)
  from multi_checks_pass [OF this(1) assms(7) this(2)] this(3) show ?thesis by (simp add: id_comp)
qed

lemma run_ok_map: "run_ok exec (map f xs) w = run_ok (exec \<circ> f) xs w"
  by (induction xs arbitrary: w) (simp_all split: option.split prod.split sum.split)

text \<open>An operation on the first or on the second of two nodes.\<close>

abbreviation pick :: "'n \<Rightarrow> 'n \<Rightarrow> bool \<times> 'op \<Rightarrow> 'n \<times> 'op" where
  "pick n1 n2 \<equiv> \<lambda>(second, x). (if second then n2 else n1, x)"

lemma two_nodes_exec:
  "(\<lambda>(second, x). if second then on_node (cn_view n2) (dmap_exec (cn_quinn n2) pc cd (get_map (cn_cluster n2) name) x)
       else on_node (cn_view n1) (dmap_exec (cn_quinn n1) pc cd (get_map (cn_cluster n1) name) x)) =
     cluster_exec pc cd name \<circ> pick n1 n2"
  "(\<lambda>(second, x). if second then on_node (cn_view n2) (multi_exec (cn_quinn n2) pc cd it (get_multi_map (cn_cluster n2) name) x)
       else on_node (cn_view n1) (multi_exec (cn_quinn n1) pc cd it (get_multi_map (cn_cluster n1) name) x)) =
     cluster_multi_exec pc cd it name \<circ> pick n1 n2"
  by (auto simp: cluster_exec_def cluster_multi_exec_def get_map_def get_multi_map_def fun_eq_iff)

lemma pick_snd: "map (snd \<circ> pick n1 n2) xs = map snd xs"
  by auto

section \<open>Properties\<close>



section \<open>Witnesses\<close>

text \<open>A spawn in which every call of a library succeeds.\<close>

definition easy_api :: "SocketAddr \<Rightarrow> NodeId \<Rightarrow> ('r, 'q) openraft \<Rightarrow> ('r, 'q) spawn_api" where
  "easy_api addr i r = \<lparr>sp_tls = \<lparr>tls_add_root = (\<lambda>_. Inr ()), tls_quic_client = (\<lambda>_. Inr ()), tls_single_cert = (\<lambda>_ _. Inr ()),
       tls_quic_server = (\<lambda>_. Inr ()), tls_bind = (\<lambda>_ _ _. Inr 0)\<rparr>,
     sp_local_addr = (\<lambda>_. Inr addr), sp_generate_id = (\<lambda>p. (i, p)), sp_raft_new = (\<lambda>_ _ p. (Inr r, p)),
     sp_initialize = (\<lambda>_ p. (Inr (), p)), sp_wait = (\<lambda>_ _ p. (Inr (), p))\<rparr>"

definition spawned :: "('r, 'q) process \<Rightarrow> ('r, 'q) process" where
  "spawned p = start_tasks [GracefulShutdown, WatchMembership, DetectFailures, MainLoop]
     (fresh_node (start_tasks [AcceptConnections] p))"

lemma spawned_sel [simp]: "p_sm (spawned p) = StateMachine_default" "quic (spawned p) = quic p"
  by (simp_all add: spawned_def start_tasks_def fresh_node_def ConnectionCache_new_def)

lemma easy_spawn:
  "spawn (easy_api addr i r) q pc (build_config [] 0 ClusterConfigBuilder_default) p =
     Some (Inr \<lparr>cr_node_id = i, cr_raft = r, cr_local_addr = addr, cr_public_addr = addr\<rparr>, spawned p)"
  by (simp add: spawn_def easy_api_def create_endpoint_def build_config_def ClusterConfigBuilder_default_def Let_def
      initialize_cluster_def io_defs spawned_def)

abbreviation test_codec :: "(string, u64) codec" where
  "test_codec \<equiv> unary_codec"

definition test_bodies :: "RequestBody list" where
  "test_bodies = remdups (map (dmap_request test_codec ''my_map'' \<circ> fst) (concat dmap_tests) @
     map (multi_request test_codec ''my_multi_map'' \<circ> fst) (concat multi_tests))"

lemma test_bodies_fit: "body \<in> set test_bodies \<Longrightarrow> fits 7 (solo_postcard test_bodies) body"
proof (rule solo_fits_all)
  have "length test_bodies \<le> length (concat dmap_tests) + length (concat multi_tests)"
    unfolding test_bodies_def by (rule order_trans [OF length_remdups_leq]) simp
  also have "\<dots> \<le> max_request_size"
    by (simp add: dmap_tests_def multi_tests_def dmap_test_insert_def dmap_test_get_def dmap_test_contains_key_def
        dmap_test_remove_def multi_test_insert_def multi_test_get_def multi_test_remove_def multi_test_multiple_keys_def
        max_request_size_def)
  finally show "length test_bodies \<le> max_request_size" .
qed (simp_all add: test_bodies_def)

lemma test_bodies_members:
  "checks \<in> set dmap_tests \<Longrightarrow> (x, ok) \<in> set checks \<Longrightarrow> dmap_request test_codec ''my_map'' x \<in> set test_bodies"
  "mchecks \<in> set multi_tests \<Longrightarrow> (mx, mok) \<in> set mchecks \<Longrightarrow> multi_request test_codec ''my_multi_map'' mx \<in> set test_bodies"
  unfolding test_bodies_def set_remdups set_append set_map set_concat by force+

lemma default_no_data: "state_machine sm = state_machine StateMachine_default \<Longrightarrow> no_data (the_data sm)"
  by (simp add: no_data_def StateMachine_default_def StateMachineData_default_def data_get_def data_vals_def)


text \<open>Two nodes: the second one joins the first one through its server.\<close>

definition join_messages :: "Request list" where
  "join_messages = map untargeted [ReqAddLearner 8 (Node_new second_addr ''::1'') True, ReqChangeMembership (AddVoterIds {|8|}) True]"

definition pair_messages :: "Request list" where
  "pair_messages = remdups (join_messages @
     map (\<lambda>((second, x), ok). \<lparr>req_target_id = Some 7, req_body = dmap_request test_codec ''my_map'' x\<rparr>) dmap_test_two_nodes @
     map (\<lambda>((second, x), ok). \<lparr>req_target_id = Some 7, req_body = multi_request test_codec ''my_multi_map'' x\<rparr>) multi_test_two_nodes)"

abbreviation pair_postcard :: postcard where
  "pair_postcard \<equiv> listed_postcard pair_messages"

lemma pair_encoded:
  assumes "msg \<in> set pair_messages"
  obtains b where "request_encoded pair_postcard msg b" "length b \<le> max_request_size"
proof (rule listed_encoded [OF _ _ assms])
  show "distinct pair_messages" by (simp add: pair_messages_def)
  have "length pair_messages \<le> 2 + (length dmap_test_two_nodes + length multi_test_two_nodes)"
    unfolding pair_messages_def by (rule order_trans [OF length_remdups_leq]) (simp add: join_messages_def)
  also have "\<dots> \<le> max_request_size"
    by (simp add: dmap_test_two_nodes_def multi_test_two_nodes_def max_request_size_def)
  finally show "length pair_messages \<le> max_request_size" .
qed

lemma pair_members:
  "((second, x), ok) \<in> set dmap_test_two_nodes \<Longrightarrow>
     \<lparr>req_target_id = Some 7, req_body = dmap_request test_codec ''my_map'' x\<rparr> \<in> set pair_messages"
  "((second, mx), mok) \<in> set multi_test_two_nodes \<Longrightarrow>
     \<lparr>req_target_id = Some 7, req_body = multi_request test_codec ''my_multi_map'' mx\<rparr> \<in> set pair_messages"
  unfolding pair_messages_def set_remdups set_append set_map by force+

lemma pair_reply_codec: "reply_codec_ok pair_postcard"
  by (rule listed_reply_codec)

text \<open>A request of the second node that the first one answers without changing its data.\<close>

lemma second_request:
  assumes "untargeted body \<in> set pair_messages" "\<And>n :: lone_process. handle_body solo_raft sorted_list_of_fset body n = (Inr resp, n)"
    and "client_target_id client = None"
  shows "\<exists>p'. client_request (cn_quinn (second_node pair_postcard)) pair_postcard client body p = Some (Inr resp, p') \<and>
    p_sm (fst (quic p')) = p_sm (fst (quic p))"
proof -
  let ?q = "cn_quinn (second_node pair_postcard)"
  have d: "delivers ?q (client_conn client) (\<lambda>p. fst (quic p)) (serve_bytes solo_raft sorted_list_of_fset pair_postcard)"
    unfolding second_node_def by (simp add: paired_delivers)
  obtain b where b: "request_encoded pair_postcard (untargeted body) b" "length b \<le> max_request_size"
    by (rule pair_encoded [OF assms(1)])
  obtain n p' where "p_sm n = p_sm (fst (quic p))" "fst (quic p') = snd (handle_message solo_raft sorted_list_of_fset (untargeted body) n)"
    "client_exchange ?q pair_postcard (client_conn client) (untargeted body) p =
       (Inr (fst (handle_message solo_raft sorted_list_of_fset (untargeted body) n)), p')"
    by (rule exchange_handled [OF d pair_reply_codec b])
  then show ?thesis
    by (simp add: client_request_def client_loop.simps [of ?q] client_step_def assms(2,3) handle_untargeted
        untargeted_def [symmetric])
qed

lemma second_joins:
  "\<exists>p'. join_cluster (easy_api second_addr 8 solo_raft) (cn_quinn (second_node pair_postcard)) pair_postcard
     (example_addr, ''localhost'') 8 (Node_new second_addr ''::1'') p = Some (Inr (), p') \<and>
   p_sm (fst (quic p')) = p_sm (fst (quic p))"
proof -
  let ?q = "cn_quinn (second_node pair_postcard)" and ?node = "Node_new second_addr ''::1''"
  have "connects ?q (\<lambda>p. fst (quic p))"
    by (simp add: connects_def second_node_def paired_quinn_def)
  then obtain c p1 where c: "cache_connect ?q (Node_new example_addr ''localhost'') p = (Inr c, p1)"
    "p_sm (fst (quic p1)) = p_sm (fst (quic p))"
    by (rule connects_connect)
  let ?client = "\<lparr>client_conn = c, client_target_id = None\<rparr>"
  have "untargeted (ReqAddLearner 8 ?node True) \<in> set pair_messages"
    "untargeted (ReqChangeMembership (AddVoterIds {|8|}) True) \<in> set pair_messages"
    by (simp_all add: pair_messages_def join_messages_def)
  moreover have "handle_body solo_raft sorted_list_of_fset (ReqAddLearner 8 ?node True) n = (Inr (RAddLearner solo_accepted), n)"
    for n :: lone_process
    by (simp add: solo_raft_def solo_metrics_def solo_node_def Node_new_def second_addr_def example_addr_def SocketAddr_new_def
        io_defs)
  moreover have "handle_body solo_raft sorted_list_of_fset (ReqChangeMembership (AddVoterIds {|8|}) True) n =
      (Inr (RClientWrite solo_accepted), n)" for n :: lone_process
    by (simp add: solo_raft_def io_defs)
  ultimately obtain p2 p3 where
    "client_request ?q pair_postcard ?client (ReqAddLearner 8 ?node True) p1 = Some (Inr (RAddLearner solo_accepted), p2)"
    "client_request ?q pair_postcard ?client (ReqChangeMembership (AddVoterIds {|8|}) True) p2 =
       Some (Inr (RClientWrite solo_accepted), p3)"
    "p_sm (fst (quic p3)) = p_sm (fst (quic p))"
    using second_request [of _ _ ?client] c(2) by (metis (no_types, lifting) Client.select_convs(2))
  with c(1) show ?thesis
    by (simp add: join_cluster_def io_defs Client_new_def add_learner_def change_membership_def easy_api_def client_close_def)
      (simp add: second_node_def paired_quinn_def)
qed

lemma pair_spawned:
  "\<exists>w1. two_nodes_cluster first_view (easy_api example_addr 7 solo_raft) (cn_quinn (first_node pair_postcard))
     second_view (easy_api second_addr 8 solo_raft) (cn_quinn (second_node pair_postcard)) pair_postcard [] 0 fresh_pair =
   Some (Inr (cn_cluster (first_node pair_postcard), cn_cluster (second_node pair_postcard)), w1) \<and>
   no_data (cluster_data (first_node pair_postcard) w1)"
proof -
  let ?w = "nv_put first_view (spawned (nv_get first_view fresh_pair)) fresh_pair"
  let ?p = "spawned (nv_get second_view ?w)"
  obtain p' where p': "join_cluster (easy_api second_addr 8 solo_raft) (cn_quinn (second_node pair_postcard)) pair_postcard
     (example_addr, ''localhost'') 8 (Node_new second_addr ''::1'') ?p = Some (Inr (), p')"
    "p_sm (fst (quic p')) = p_sm (fst (quic ?p))"
    using second_joins by blast
  have "spawn (easy_api second_addr 8 solo_raft) (cn_quinn (second_node pair_postcard)) pair_postcard
      (build_config [] 0 (with_seed example_addr ''localhost'' ClusterConfigBuilder_default)) (nv_get second_view ?w) =
    Some (Inr (cn_cluster (second_node pair_postcard)), p')"
    using p'(1)
    by (simp add: spawn_def easy_api_def create_endpoint_def build_config_def with_seed_def ClusterConfigBuilder_default_def
        Let_def spawned_def second_node_def)
  moreover have "p_sm (fst (quic p')) = StateMachine_default"
    using p'(2) by (simp add: first_view_def second_view_def)
  ultimately show ?thesis
    using default_no_data [of "p_sm (fst (quic p'))"]
    by (auto simp: two_nodes_cluster_def on_node_def easy_spawn io_defs Cluster_public_addr_def first_node_def cluster_data_def
        intro!: exI [of _ "nv_put second_view p' _"]) (simp add: first_view_def second_view_def)
qed


end
