(* ===== verification/Example_App.thy ===== *)
theory Example_App
  imports Cluster_View Cluster_Lifecycle
begin

text \<open>
  The example application (\<open>examples/simple-app/src/main.rs\<close>): the first node of a cluster counts the
  seconds in a distributed map, every other node prints the counter. Name resolution, the
  certificate files and the clock are parameters; what is printed is a list of values.
\<close>

section \<open>Configuration\<close>

definition DEFAULT_PORT :: u16 where
  "DEFAULT_PORT = 35000"

record Cli =
  cli_bind_addr :: IpAddr
  cli_bind_port :: u16
  cli_public_addr :: string
  cli_public_port :: u16
  cli_seed_addr :: "string option"
  cli_seed_port :: "u16 option"

datatype AppError =
    FailedToResolve string u16 | NoAddresses string u16
  | CertificateError token | KeyError token
  | AppSpawn SpawnClusterError | AppMap Error | FailedToInsert Error
  | AppShutdown "unit ShutdownClusterError"

definition resolve :: "(string \<Rightarrow> u16 \<Rightarrow> token + SocketAddr list) \<Rightarrow> string \<Rightarrow> u16 \<Rightarrow> AppError + SocketAddr" where
  "resolve lookup_host addr prt =
     (case lookup_host addr prt of
        Inl _ \<Rightarrow> Inl (FailedToResolve addr prt)
      | Inr [] \<Rightarrow> Inl (NoAddresses addr prt)
      | Inr (a # _) \<Rightarrow> Inr a)"

definition app_builder ::
  "(string \<Rightarrow> u16 \<Rightarrow> token + SocketAddr list) \<Rightarrow> Cli \<Rightarrow> AppError + ClusterConfigBuilder \<times> bool" where
  "app_builder lookup_host cli =
     (case resolve lookup_host (cli_public_addr cli) (cli_public_port cli) of
        Inl e \<Rightarrow> Inl e
      | Inr public_addr \<Rightarrow>
          (let builder = with_public_addr public_addr (cli_public_addr cli)
                 (with_bind_addr (SocketAddr_new (cli_bind_addr cli) (cli_bind_port cli)) ClusterConfigBuilder_default)
           in case cli_seed_addr cli of
                None \<Rightarrow> Inr (builder, False)
              | Some seed_addr \<Rightarrow>
                  map_sum id (\<lambda>a. (with_seed a seed_addr builder, True))
                    (resolve lookup_host seed_addr (unwrap_or DEFAULT_PORT (cli_seed_port cli)))))"

definition app_config ::
  "(string \<Rightarrow> u16 \<Rightarrow> token + SocketAddr list) \<Rightarrow> token + token list \<Rightarrow> token + token \<Rightarrow> Cli \<Rightarrow>
     AppError + ClusterConfig \<times> bool" where
  "app_config lookup_host certs key cli =
     (case app_builder lookup_host cli of
        Inl e \<Rightarrow> Inl e
      | Inr (builder, has_seed) \<Rightarrow>
          (case certs of
             Inl e \<Rightarrow> Inl (CertificateError e)
           | Inr cs \<Rightarrow>
               (case key of
                  Inl e \<Rightarrow> Inl (KeyError e)
                | Inr k \<Rightarrow> Inr (build_config cs k builder, has_seed))))"

section \<open>Counting\<close>

datatype app_output = Found u64 | FirstNode | Current "u64 option" | Updated u64

datatype app_event = Tick | ShutdownSignal

definition app_start ::
  "('r, 'q) quinn \<Rightarrow> postcard \<Rightarrow> (string, u64) codec \<Rightarrow> ('r, 'q) DMap \<Rightarrow> bool \<Rightarrow>
     (('r, 'q) process, AppError, app_output list) aio" where
  "app_start q pc cd dm has_seed =
     (if has_seed
      then aio_bind (aio_map_err AppMap (dmap_get q pc cd dm ''counter'')) (\<lambda>v.
           aio_result (Inr (case v of Some v \<Rightarrow> [Found v] | None \<Rightarrow> [])))
      else aio_bind (aio_map_err AppMap (dmap_insert q pc cd dm ''counter'' 0)) (\<lambda>_. aio_result (Inr [FirstNode])))"

text \<open>
  One tick of the clock: the counter after it and the line that is printed. The counter wraps at 64 bits
  as in a release build.
\<close>

definition app_tick ::
  "('r, 'q) quinn \<Rightarrow> postcard \<Rightarrow> (string, u64) codec \<Rightarrow> ('r, 'q) DMap \<Rightarrow> bool \<Rightarrow> u64 \<Rightarrow>
     (('r, 'q) process, AppError, u64 \<times> app_output) aio" where
  "app_tick q pc cd dm has_seed step =
     (if has_seed
      then aio_bind (aio_map_err AppMap (dmap_get q pc cd dm ''counter'')) (\<lambda>v.
           aio_result (Inr (step, Current v)))
      else aio_bind (aio_map_err FailedToInsert (dmap_insert q pc cd dm ''counter'' (step + 1))) (\<lambda>_.
           aio_result (Inr (step + 1, Updated (step + 1)))))"

text \<open>
  The loop takes the events in the order in which \<open>select!\<close> receives them; it waits, without a result,
  when there is none left.
\<close>

fun app_loop ::
  "('r, 'q) quinn \<Rightarrow> postcard \<Rightarrow> (string, u64) codec \<Rightarrow> ('r, 'q) DMap \<Rightarrow> bool \<Rightarrow> app_event list \<Rightarrow> u64 \<Rightarrow>
     app_output list \<Rightarrow> (('r, 'q) process, AppError, app_output list) aio" where
  "app_loop q pc cd dm has_seed [] step out = (\<lambda>_. None)"
| "app_loop q pc cd dm has_seed (ShutdownSignal # _) step out = aio_result (Inr out)"
| "app_loop q pc cd dm has_seed (Tick # evs) step out =
     aio_bind (app_tick q pc cd dm has_seed step) (\<lambda>(step, line).
       app_loop q pc cd dm has_seed evs step (out @ [line]))"

text \<open>The application on a spawned cluster, until it shuts down; \<open>handles\<close> are the results of the tasks.\<close>

definition app_run ::
  "('r, 'q) quinn \<Rightarrow> postcard \<Rightarrow> (string, u64) codec \<Rightarrow> ('r, 'q) ClusterRef \<Rightarrow> bool \<Rightarrow> app_event list \<Rightarrow>
     (token + unit) list \<Rightarrow> (('r, 'q) process, AppError, app_output list) aio" where
  "app_run q pc cd cluster has_seed evs handles =
     (let dm = get_map cluster ''my_map''
      in aio_bind (app_start q pc cd dm has_seed) (\<lambda>out.
         aio_bind (app_loop q pc cd dm has_seed evs 0 out) (\<lambda>out.
         aio_map_err AppShutdown (aio_result (map_sum id (\<lambda>_. out) (Cluster_shutdown 1 handles ()))))))"

definition app_main ::
  "('r, 'q) spawn_api \<Rightarrow> ('r, 'q) quinn \<Rightarrow> postcard \<Rightarrow> (string, u64) codec \<Rightarrow>
     (string \<Rightarrow> u16 \<Rightarrow> token + SocketAddr list) \<Rightarrow> token + token list \<Rightarrow> token + token \<Rightarrow> Cli \<Rightarrow> app_event list \<Rightarrow>
     (token + unit) list \<Rightarrow> (('r, 'q) process, AppError, app_output list) aio" where
  "app_main api q pc cd lookup_host certs key cli evs handles =
     aio_bind (aio_result (app_config lookup_host certs key cli)) (\<lambda>(config, has_seed).
     aio_bind (aio_map_err AppSpawn (spawn api q pc config)) (\<lambda>cluster.
     app_run q pc cd cluster has_seed evs handles))"

section \<open>Properties\<close>

abbreviation counter_fits :: "NodeId \<Rightarrow> postcard \<Rightarrow> (string, u64) codec \<Rightarrow> nat \<Rightarrow> bool" where
  "counter_fits leader pc cd i \<equiv>
     fits leader pc (ReqInsert ''my_map'' (key_bytes cd ''counter'') (val_bytes cd (word_of_nat i)))"

lemma counter_insert:
  assumes "reaches_leader cr ld it q pc" "typed_codec cd" "well_typed cd ''my_map'' (leader_data ld p)"
    and "fits (ld_id ld) pc (ReqInsert ''my_map'' (key_bytes cd ''counter'') (val_bytes cd n))"
  obtains p' old where "dmap_insert q pc cd (get_map cr ''my_map'') ''counter'' n p = Some (Inr old, p')"
    "dict_view cd ''my_map'' (leader_data ld p') ''counter'' = Some n" "well_typed cd ''my_map'' (leader_data ld p')"
proof -
  let ?dm = "get_map cr ''my_map''"
  have dm: "dm_name ?dm = ''my_map''" "dm_cluster ?dm = cr" by (simp_all add: get_map_def DMap_new_def)
  obtain p' where "dmap_insert q pc cd ?dm ''counter'' n p =
      Some (Inr (dict_view cd ''my_map'' (leader_data ld p) ''counter''), p')"
    "leader_data ld p' = snd (data_insert ''my_map'' (key_bytes cd ''counter'') (val_bytes cd n) (leader_data ld p))"
    using leader_insert [of ?dm ld it q pc cd p "''counter''" n] assms unfolding dm by blast
  then show thesis using that dict_insert [OF assms(2)] assms(3) by simp
qed

lemma app_loop_counts:
  assumes "reaches_leader cr ld it q pc" "typed_codec cd" "\<forall>i \<le> m + n. counter_fits (ld_id ld) pc cd i"
    and "well_typed cd ''my_map'' (leader_data ld p)"
    and "dict_view cd ''my_map'' (leader_data ld p) ''counter'' = Some (word_of_nat m)"
  shows "\<exists>p'. app_loop q pc cd (get_map cr ''my_map'') False (replicate n Tick @ ShutdownSignal # evs) (word_of_nat m) out p =
      Some (Inr (out @ map (\<lambda>i. Updated (word_of_nat i)) [Suc m..<Suc (m + n)]), p') \<and>
    dict_view cd ''my_map'' (leader_data ld p') ''counter'' = Some (word_of_nat (m + n))"
  using assms(3-5)
proof (induction n arbitrary: m p out)
  case (Suc n)
  have "fits (ld_id ld) pc (ReqInsert ''my_map'' (key_bytes cd ''counter'') (val_bytes cd (word_of_nat (Suc m))))"
    by (rule Suc.prems(1) [rule_format]) simp
  then obtain p1 old where p1:
    "dmap_insert q pc cd (get_map cr ''my_map'') ''counter'' (word_of_nat (Suc m)) p = Some (Inr old, p1)"
    "dict_view cd ''my_map'' (leader_data ld p1) ''counter'' = Some (word_of_nat (Suc m))"
    "well_typed cd ''my_map'' (leader_data ld p1)"
    by (rule counter_insert [OF assms(1,2) Suc.prems(2)])
  have step: "word_of_nat m + 1 = (word_of_nat (Suc m) :: u64)" by simp
  have range: "[Suc m..<Suc (m + Suc n)] = Suc m # [Suc (Suc m)..<Suc (Suc m + n)]"
    by (simp add: upt_conv_Cons del: upt_Suc)
  obtain p' where "app_loop q pc cd (get_map cr ''my_map'') False (replicate n Tick @ ShutdownSignal # evs)
      (word_of_nat (Suc m)) (out @ [Updated (word_of_nat (Suc m))]) p1 =
      Some (Inr ((out @ [Updated (word_of_nat (Suc m))]) @ map (\<lambda>i. Updated (word_of_nat i)) [Suc (Suc m)..<Suc (Suc m + n)]), p')"
    "dict_view cd ''my_map'' (leader_data ld p') ''counter'' = Some (word_of_nat (Suc m + n))"
    using Suc.IH [of "Suc m" p1 "out @ [Updated (word_of_nat (Suc m))]"] Suc.prems(1) p1(2,3) by auto
  then show ?case
    unfolding range using p1(1)
    by (simp add: step app_tick_def aio_bind_def aio_map_err_def aio_result_def del: upt_Suc of_nat_Suc)
qed (auto simp: aio_result_def)

text \<open>
  C23 (app_counts_seconds): on the first node of a cluster, while there is a stable leader, the application
  prints every value of the counter in order, one per tick of its clock, and the distributed map
  holds the number of ticks that passed when the shutdown signal arrives.
\<close>

theorem app_counts_seconds:
  assumes "reaches_leader cr ld it q pc" "typed_codec cd" "well_typed cd ''my_map'' (leader_data ld p)"
    and "\<forall>i \<le> n. counter_fits (ld_id ld) pc cd i"
  shows "\<exists>p'. app_run q pc cd cr False (replicate n Tick @ ShutdownSignal # evs) [Inr (), Inr (), Inr ()] p =
      Some (Inr (FirstNode # map (\<lambda>i. Updated (word_of_nat i)) [1..<Suc n]), p') \<and>
    dict_view cd ''my_map'' (leader_data ld p') ''counter'' = Some (word_of_nat n)"
proof -
  have "fits (ld_id ld) pc (ReqInsert ''my_map'' (key_bytes cd ''counter'') (val_bytes cd 0))"
    using assms(4) [rule_format, of 0] by simp
  then obtain p1 old where p1: "dmap_insert q pc cd (get_map cr ''my_map'') ''counter'' 0 p = Some (Inr old, p1)"
    "dict_view cd ''my_map'' (leader_data ld p1) ''counter'' = Some 0" "well_typed cd ''my_map'' (leader_data ld p1)"
    by (rule counter_insert [OF assms(1-3)])
  have zero: "word_of_nat 0 = (0 :: u64)" by simp
  obtain p' where
    "app_loop q pc cd (get_map cr ''my_map'') False (replicate n Tick @ ShutdownSignal # evs) 0 [FirstNode] p1 =
      Some (Inr (FirstNode # map (\<lambda>i. Updated (word_of_nat i)) [1..<Suc n]), p')"
    "dict_view cd ''my_map'' (leader_data ld p') ''counter'' = Some (word_of_nat n)"
    using app_loop_counts [OF assms(1,2), of 0 n p1 evs "[FirstNode]", unfolded zero add_0] p1(2,3) assms(4)
    unfolding One_nat_def append_Cons append_Nil by blast
  with p1(1) show ?thesis
    by (simp add: app_run_def app_start_def Let_def aio_bind_def aio_map_err_def aio_result_def Cluster_shutdown_def
        ClusterRef_shutdown_def del: upt_Suc)
qed

section \<open>The application on every node of a cluster\<close>

text \<open>
  What may happen while the application runs on several nodes: a tick on the first node, which keeps the
  counter in a local variable; a node with a seed starts; or such a node ticks.
\<close>

datatype 'n app_move = FirstTick | SeedStart 'n | SeedTick 'n

fun app_act ::
  "postcard \<Rightarrow> (string, u64) codec \<Rightarrow> ('w, 'r, 'q, 's, 't) cluster_node \<Rightarrow>
     ('w, 'r, 'q, 's, 't) cluster_node app_move \<Rightarrow> ('w \<times> u64, AppError, app_output list) aio" where
  "app_act pc cd first FirstTick (w, step) =
     map_option (\<lambda>(r, w'). (map_sum id (\<lambda>(_, line). [line]) r, w', case r of Inl _ \<Rightarrow> step | Inr (step', _) \<Rightarrow> step'))
       (on_node (cn_view first) (app_tick (cn_quinn first) pc cd (get_map (cn_cluster first) ''my_map'') False step) w)"
| "app_act pc cd first (SeedStart n) (w, step) =
     map_option (apsnd (\<lambda>w'. (w', step)))
       (on_node (cn_view n) (app_start (cn_quinn n) pc cd (get_map (cn_cluster n) ''my_map'') True) w)"
| "app_act pc cd first (SeedTick n) (w, step) =
     map_option (\<lambda>(r, w'). (map_sum id (\<lambda>(_, line). [line]) r, w', step))
       (on_node (cn_view n) (app_tick (cn_quinn n) pc cd (get_map (cn_cluster n) ''my_map'') True 0) w)"

text \<open>The lines that are printed when there is one counter for all nodes.\<close>

fun counter_step :: "'n app_move \<Rightarrow> u64 \<Rightarrow> app_output list \<times> u64" where
  "counter_step FirstTick c = ([Updated (c + 1)], c + 1)"
| "counter_step (SeedStart _) c = ([Found c], c)"
| "counter_step (SeedTick _) c = ([Current (Some c)], c)"

fun moving :: "'n \<Rightarrow> 'n app_move \<Rightarrow> 'n" where
  "moving first FirstTick = first"
| "moving first (SeedStart n) = n"
| "moving first (SeedTick n) = n"

abbreviation counter_readable :: "NodeId \<Rightarrow> postcard \<Rightarrow> (string, u64) codec \<Rightarrow> bool" where
  "counter_readable leader pc cd \<equiv> fits leader pc (ReqGet ''my_map'' (key_bytes cd ''counter'') ReadIndex)"

lemma counter_get:
  assumes "reaches_leader cr ld it q pc" "typed_codec cd" "well_typed cd ''my_map'' (leader_data ld p)"
    and "counter_readable (ld_id ld) pc cd"
  obtains p' where "dmap_get q pc cd (get_map cr ''my_map'') ''counter'' p =
      Some (Inr (dict_view cd ''my_map'' (leader_data ld p) ''counter''), p')"
    "leader_data ld p' = leader_data ld p"
proof -
  let ?dm = "get_map cr ''my_map''"
  have dm: "dm_name ?dm = ''my_map''" "dm_cluster ?dm = cr" by (simp_all add: get_map_def DMap_new_def)
  show thesis
    using leader_get [of ?dm ld it q pc cd p "''counter''" ReadIndex] assms that unfolding dm dmap_get_def by blast
qed

text \<open>The counter in the distributed map is the one in the variable of the first node.\<close>

definition counts ::
  "(string, u64) codec \<Rightarrow> ('w, 'r, 'q, 's, 't) cluster_node \<Rightarrow> 'w \<times> u64 \<Rightarrow> bool" where
  "counts cd n0 = (\<lambda>(w, step). well_typed cd ''my_map'' (cluster_data n0 w) \<and>
     dict_view cd ''my_map'' (cluster_data n0 w) ''counter'' = Some step)"

lemma app_act_counts:
  assumes "one_cluster ns" "first \<in> ns" "moving first x \<in> ns" "\<forall>n \<in> ns. node_reaches_leader n it pc" "typed_codec cd"
    and "\<forall>n \<in> ns. counter_readable (ld_id (cn_leader n)) pc cd"
    and "fits (ld_id (cn_leader first)) pc (ReqInsert ''my_map'' (key_bytes cd ''counter'') (val_bytes cd (step + 1)))"
    and "counts cd first (w, step)"
  shows "\<exists>w'. app_act pc cd first x (w, step) = Some (Inr (fst (counter_step x step)), w', snd (counter_step x step)) \<and>
    counts cd first (w', snd (counter_step x step))"
proof -
  let ?n = "moving first x"
  let ?p = "nv_get (cn_view ?n) w" and ?ld = "cn_leader ?n" and ?dm = "get_map (cn_cluster ?n) ''my_map''"
  have data: "cluster_data first w = leader_data ?ld ?p" by (rule one_cluster_data [OF assms(1,3,2)])
  have typed: "well_typed cd ''my_map'' (leader_data ?ld ?p)"
    and count: "dict_view cd ''my_map'' (leader_data ?ld ?p) ''counter'' = Some step"
    using assms(8) by (simp_all add: counts_def data)
  have reach: "reaches_leader (cn_cluster ?n) ?ld it (cn_quinn ?n) pc" using assms(3,4) by (simp add: node_reaches_leader_def)
  note on = on_node_data [OF assms(1,3,2)]
  show ?thesis
  proof (cases x)
    case FirstTick
    then have "fits (ld_id ?ld) pc (ReqInsert ''my_map'' (key_bytes cd ''counter'') (val_bytes cd (step + 1)))"
      using assms(7) by simp
    then obtain p' old where p': "dmap_insert (cn_quinn ?n) pc cd ?dm ''counter'' (step + 1) ?p = Some (Inr old, p')"
      "dict_view cd ''my_map'' (leader_data ?ld p') ''counter'' = Some (step + 1)" "well_typed cd ''my_map'' (leader_data ?ld p')"
      by (rule counter_insert [OF reach assms(5) typed])
    then have "app_tick (cn_quinn ?n) pc cd ?dm False step ?p = Some (Inr (step + 1, Updated (step + 1)), p')"
      by (simp add: app_tick_def io_defs)
    from on [of "app_tick (cn_quinn ?n) pc cd ?dm False step" w, OF this] p' FirstTick show ?thesis by (auto simp: counts_def)
  next
    case (SeedStart n)
    obtain p' where p': "dmap_get (cn_quinn ?n) pc cd ?dm ''counter'' ?p = Some (Inr (Some step), p')"
      "leader_data ?ld p' = leader_data ?ld ?p"
      using counter_get [OF reach assms(5) typed] assms(3,6) unfolding count by blast
    then have "app_start (cn_quinn ?n) pc cd ?dm True ?p = Some (Inr [Found step], p')"
      by (simp add: app_start_def io_defs)
    from on [of "app_start (cn_quinn ?n) pc cd ?dm True" w, OF this] p'(2) typed count SeedStart show ?thesis by (auto simp: counts_def)
  next
    case (SeedTick n)
    obtain p' where p': "dmap_get (cn_quinn ?n) pc cd ?dm ''counter'' ?p = Some (Inr (Some step), p')"
      "leader_data ?ld p' = leader_data ?ld ?p"
      using counter_get [OF reach assms(5) typed] assms(3,6) unfolding count by blast
    then have "app_tick (cn_quinn ?n) pc cd ?dm True 0 ?p = Some (Inr (0, Current (Some step)), p')"
      by (simp add: app_tick_def io_defs)
    from on [of "app_tick (cn_quinn ?n) pc cd ?dm True 0" w, OF this] p'(2) typed count SeedTick show ?thesis by (auto simp: counts_def)
  qed
qed

lemma app_run_counts:
  assumes "one_cluster ns" "first \<in> ns" "\<forall>n \<in> ns. node_reaches_leader n it pc" "typed_codec cd"
    and "\<forall>n \<in> ns. counter_readable (ld_id (cn_leader n)) pc cd"
    and "\<forall>x \<in> set xs. moving first x \<in> ns" "\<forall>i \<le> m + length xs. counter_fits (ld_id (cn_leader first)) pc cd i"
    and "counts cd first (w, word_of_nat m)"
  shows "\<exists>w'. run_ok (app_act pc cd first) xs (w, word_of_nat m) =
      Some (fst (run_steps counter_step xs (word_of_nat m)), w', snd (run_steps counter_step xs (word_of_nat m))) \<and>
    counts cd first (w', snd (run_steps counter_step xs (word_of_nat m)))"
  using assms(6-8)
proof (induction xs arbitrary: w m)
  case (Cons x xs)
  let ?c = "word_of_nat m :: u64"
  have next_fits: "fits (ld_id (cn_leader first)) pc (ReqInsert ''my_map'' (key_bytes cd ''counter'') (val_bytes cd (?c + 1)))"
    using Cons.prems(2) [rule_format, of "Suc m"] by (simp add: add.commute)
  have x: "moving first x \<in> ns" using Cons.prems(1) by simp
  obtain w1 where w1: "app_act pc cd first x (w, ?c) = Some (Inr (fst (counter_step x ?c)), w1, snd (counter_step x ?c))"
    "counts cd first (w1, snd (counter_step x ?c))"
    using app_act_counts [OF assms(1,2) x assms(3-5) next_fits Cons.prems(3)] by blast
  obtain m' where m': "snd (counter_step x ?c) = word_of_nat m'" "m' \<le> Suc m"
    by (cases x) (auto intro: that [of "Suc m"] that [of m] simp: add.commute)
  have "\<forall>i \<le> m' + length xs. counter_fits (ld_id (cn_leader first)) pc cd i" using Cons.prems(2) m'(2) by simp
  with Cons.IH [of m' w1] Cons.prems(1) w1 m' show ?case by (auto simp: case_prod_unfold)
qed auto


section \<open>Witness\<close>

abbreviation counter_codec :: "(string, u64) codec" where
  "counter_codec \<equiv> unary_codec"

definition counter_bodies :: "nat \<Rightarrow> RequestBody list" where
  "counter_bodies n = map (\<lambda>i. ReqInsert ''my_map'' (key_bytes counter_codec ''counter'')
     (val_bytes counter_codec (word_of_nat i))) [0..<Suc n]"

lemma counter_bodies_distinct: "distinct (counter_bodies 4)"
proof -
  have "inj_on (\<lambda>i. word_of_nat i :: u64) {0..<5}"
    by (rule inj_onI) (simp add: word_unat_eq_iff unat_of_nat)
  then show ?thesis by (simp add: counter_bodies_def distinct_map inj_on_def unary_bytes del: upt_Suc)
qed

definition app_bodies :: "RequestBody list" where
  "app_bodies = ReqGet ''my_map'' (key_bytes counter_codec ''counter'') ReadIndex # counter_bodies 4"

definition app_postcard :: postcard where
  "app_postcard = solo_postcard app_bodies"

lemma app_postcard_fits:
  "i \<le> 4 \<Longrightarrow> counter_fits 7 app_postcard counter_codec i" "counter_readable 7 app_postcard counter_codec"
proof -
  have d: "distinct app_bodies" using counter_bodies_distinct by (auto simp: app_bodies_def counter_bodies_def)
  have l: "length app_bodies \<le> max_request_size" by (simp add: app_bodies_def counter_bodies_def max_request_size_def)
  show "counter_readable 7 app_postcard counter_codec"
    unfolding app_postcard_def using d l by (intro solo_fits_all) (simp_all add: app_bodies_def)
  show "counter_fits 7 app_postcard counter_codec i" if "i \<le> 4"
    unfolding app_postcard_def using d l that
    by (intro solo_fits_all) (auto simp: app_bodies_def counter_bodies_def simp del: upt_Suc)
qed

theorem app_counts_seconds_witness:
  "\<exists>p'. app_run (solo_quinn app_postcard) app_postcard counter_codec solo_cluster
      False [Tick, Tick, ShutdownSignal] [Inr (), Inr (), Inr ()] loop_process =
    Some (Inr [FirstNode, Updated 1, Updated 2], p') \<and>
    dict_view counter_codec ''my_map'' (the_data (p_sm p')) ''counter'' = Some 2"
proof -
  have ld: "ld_id (self_leader solo_cluster) = 7" "ld_process (self_leader solo_cluster) p = p" for p
    by (simp_all add: self_leader_def solo_cluster_def)
  have "well_typed counter_codec ''my_map'' (leader_data (self_leader solo_cluster) loop_process)"
    by (simp add: well_typed_def loop_process_empty ld)
  from app_counts_seconds [OF solo_leader unary_codec_typed this, of 2 app_bodies "[]", folded app_postcard_def]
    app_postcard_fits(1)
  show ?thesis by (simp add: numeral_2_eq_2 upt_rec ld)
qed


end
