(* ===== verification/Spec2Isabelle.thy ===== *)
theory Spec2Isabelle
  imports Log_Storage Snapshot_Locking Network Store_Typing Node_Tasks Unit_Tests Example_App
begin

text \<open>
  A verification development for \<^verbatim>\<open>distruct\<close>, a Rust library of distributed collections on top of the
  openraft consensus library and QUIC.

  \<^bold>\<open>The program.\<close> Every process runs one node of a cluster. An application holds a \<open>Cluster\<close> and gets
  \<open>DMap\<close>s and \<open>DMultiMap\<close>s from it. A write becomes a message to the leader (\<open>Client\<close>), is received by
  the leader's server, handed to its main loop (\<open>handle_message\<close>), proposed to openraft, stored in
  the log (\<open>LogStorage\<close>), replicated to the peers (\<open>Network\<close>) and applied on every node
  (\<open>StateMachine\<close>). A read uses the local state machine or asks the leader, depending on its
  consistency level. Background tasks watch the membership, detect and remove silent nodes, and shut
  a node down.

  \<^bold>\<open>The theories.\<close>

  \<^item> \<open>Prelude\<close>: machine integers, time, fallible stateful computations (\<open>io\<close>, and \<open>aio\<close> for those that
    may never complete), runs of operations and their simulation, finite maps and \<open>BTreeMap\<close> ranges.
  \<^item> \<open>Raft_Types\<close> (\<^verbatim>\<open>raft/node.rs\<close>, \<^verbatim>\<open>raft/mod.rs\<close>, \<^verbatim>\<open>error.rs\<close>): nodes, addresses, log ids with their order,
    memberships, replicated requests, errors.
  \<^item> \<open>Log_Storage\<close> (\<^verbatim>\<open>raft/log.rs\<close>): the in-memory log, as an \<open>fmap\<close> with its panics and its shared handle.
    It refines a list log without holes (locale \<open>raft_log_store\<close>).
  \<^item> \<open>State_Machine\<close> (\<^verbatim>\<open>raft/state.rs\<close>): applying entries, reads, direct removals, snapshots. The data
    satisfy the contracts of a map and a multi-map (locales \<open>map_store\<close>, \<open>counted_map_store\<close>,
    \<open>multi_map_store\<close>), from which the behaviour of logs, replicas and runs of operations follows.
  \<^item> \<open>Snapshot_Locking\<close> (\<^verbatim>\<open>raft/state.rs\<close>): the same operations with every acquisition and release of a lock as
    a step; a simulation shows that treating them as undivided loses no behaviour, and that the lock
    order excludes deadlock.
  \<^item> \<open>Heartbeat\<close> (\<^verbatim>\<open>raft/heartbeat.rs\<close>), \<open>Messages\<close> (\<^verbatim>\<open>connection/message.rs\<close>).
  \<^item> \<open>Node_Process\<close>: the state that the tasks of a node share, and the interfaces of openraft and quinn as
    records of functions on this state.
  \<^item> \<open>Connection_Cache\<close> (\<^verbatim>\<open>connection/cache.rs\<close>): the cache, its watcher tasks and all their interleavings as
    a step relation with an invariant.
  \<^item> \<open>Cluster_Server\<close> (\<^verbatim>\<open>cluster.rs\<close>: \<open>main_loop\<close>, \<open>ensure_consistency\<close>, \<open>handle_message\<close>): what a node answers;
    on a stable leader it refines abstract maps.
  \<^item> \<open>Client\<close> (\<^verbatim>\<open>connection/client.rs\<close>): the request loop as a partial function, when it returns, and the
    typed requests.
  \<^item> \<open>Network\<close> (\<^verbatim>\<open>raft/network.rs\<close>): raft messages to a peer, with timeouts and errors.
  \<^item> \<open>Request_Server\<close> (\<^verbatim>\<open>connection/server.rs\<close>): accepting connections, streams and requests, and the
    composition of client, wire and server.
  \<^item> \<open>Forwarding\<close>: the request loop of a client against the servers of several nodes, only one of which
    accepts writes; when a write reaches the leader, and when it never returns.
  \<^item> \<open>Collections\<close>, \<open>DMap\<close>, \<open>DMultiMap\<close> (\<^verbatim>\<open>collections/\<close>): the typed collections. While the cluster has a
    leader they refine a dictionary and a map to sets, through every layer below; \<open>answers\<close> is the contract
    of the leader from which this follows.
  \<^item> \<open>Cluster_View\<close>: several nodes that share a world. For all of them together, a collection is one object.
  \<^item> \<open>Store_Typing\<close>: the types of the stored collections. Every operation of the state machine, every message and
    every snapshot keeps them, so that the byte strings that any node returns can be decoded; a step
    relation over all nodes makes this independent of leaders and of the order in which logs are applied.
  \<^item> \<open>Failure_Detector\<close>, \<open>Membership_Watch\<close>, \<open>Cluster_Lifecycle\<close> (rest of \<^verbatim>\<open>cluster.rs\<close>): the background tasks,
    graceful shutdown, configuration and spawning.
  \<^item> \<open>Node_Tasks\<close> (\<^verbatim>\<open>cluster.rs\<close>): the background tasks of \<open>Cluster::spawn\<close> and their channels as a step relation;
    invariants over all interleavings show how a node shuts down.
  \<^item> \<open>Unit_Tests\<close> (the tests in \<^verbatim>\<open>dmap.rs\<close>, \<^verbatim>\<open>dmultimap.rs\<close>, \<^verbatim>\<open>cluster.rs\<close>): the tests pass.
  \<^item> \<open>Example_App\<close> (\<^verbatim>\<open>examples/simple-app\<close>): an application that counts in a distributed map, on top of
    everything else; on several nodes at once, in any interleaving, all of them see one counter.

  \<^bold>\<open>State and effects.\<close> An operation under a lock is one step on the state; where two
  locks are involved, \<open>Snapshot_Locking\<close> justifies this. An \<open>async fn\<close> is a
  function from the state of the node to a result and the new state; whatever other tasks do while a
  third-party call is awaited is part of that call, which may change any part of the state. A loop
  over events takes the list of events. Panics and process exits are values. Other nodes are part of
  the world outside a process; a theorem about several nodes names their processes in it.

  \<^bold>\<open>Third-party code.\<close> openraft, quinn, rustls, postcard, ULIDs and the clock are parameters. What a
  theorem needs of them is a named hypothesis: \<open>client_write_applies\<close> and \<open>stable_leader\<close> (openraft applies
  a write once it is committed), \<open>membership_ok\<close>, \<open>codec_ok\<close>, \<open>reply_codec_ok\<close>, \<open>request_encoded\<close> and
  \<open>typed_codec\<close> (postcard decodes what it encodes), \<open>delivers\<close>, \<open>connects\<close> and \<open>meshed\<close> (a connection
  carries bytes to the server and back), \<open>reaches_leader\<close> and \<open>one_cluster\<close> (the node knows a stable leader, the
  same as the other nodes), \<open>forwards\<close> (a node that does not lead names the leader it knows), \<open>raft_within\<close> (openraft changes the
  state machine only by applying written requests, building snapshots and installing such snapshots), \<open>iterates\<close> (a
  \<open>HashSet\<close> iterator visits each element once). Each is satisfied by a concrete instance in a witness:
  \<open>solo_raft\<close> with \<open>loopback_quinn\<close> is a one-node cluster, \<open>first_node\<close> and \<open>second_node\<close> are a two-node cluster, and
  \<open>hub\<close> is a leader with a node that refuses writes.

  \<^bold>\<open>Termination.\<close> All loops are structural recursions on their input except the client's redirects,
  which the code does not bound: \<open>client_loop\<close> is \<open>None\<close> when it never returns, and the theorems say exactly
  when it does. No fuel is used.

  \<^bold>\<open>Not modelled.\<close> Log output, TLS and socket set-up below \<open>create_endpoint\<close> and the crate documentation
  (\<^verbatim>\<open>lib.rs\<close>). The consensus protocol itself is openraft's.
\<close>

end
